(* ===== verification/Py_Prelude.thy ===== *)
theory Py_Prelude
  imports
    Main
    "HOL-Library.AList"
    "HOL-Library.List_Lexorder"
    "HOL-Library.Char_ord"
    "HOL-Library.Product_Lexorder"
    "HOL-Library.Sublist"
begin

section \<open>Prelude: the Python vocabulary of the typeshed tooling\<close>

text \<open>
  The scripts under \<^verbatim>\<open>src/scripts\<close> and \<^verbatim>\<open>src/tests\<close> are Python programs over strings, lists,
  dictionaries and exceptions. This theory fixes how that vocabulary is written in HOL, once, for
  every component:
  \<^item> an exception is a value of \<open>exn\<close> and a function that may raise returns \<open>exn + 'a\<close> (\<open>'a res\<close>);
    the text of an exception message is not kept;
  \<^item> a \<^verbatim>\<open>str\<close> is a \<open>string\<close>, with the methods the scripts call (\<^verbatim>\<open>split\<close>, \<^verbatim>\<open>join\<close>, \<^verbatim>\<open>strip\<close>,
    \<^verbatim>\<open>startswith\<close>, \<^verbatim>\<open>endswith\<close>, \<^verbatim>\<open>replace\<close>, \<^verbatim>\<open>lower\<close>, \<dots>), characters beyond Latin-1 being left out;
  \<^item> a \<^verbatim>\<open>dict\<close> is an association list in insertion order: assignment replaces the value in
    place or appends (\<^term>\<open>AList.update\<close>), as Python's does.
  The lemmas are about these operations only and are shared by all the components.
\<close>

named_theorems py_str \<open>string operations, as rewrite rules\<close>
named_theorems py_res \<open>the exception monad, as rewrite rules\<close>
named_theorems py_dict \<open>dictionary operations, as rewrite rules\<close>

subsection \<open>Exceptions\<close>

datatype exn =
    AssertionError
  | KeyError string
  | IndexError
  | ValueError
  | TypeError
  | AttributeError
  | StopIteration
  | RuntimeError
  | RecursionError
  | InvalidVersion
  | InvalidRequirement
  | InvalidSpecifier
  | ArgumentTypeError
  | FileNotFoundError
  | OSError
  | CalledProcessError int
  | ClientResponseError int
  | RemoteConflict string
  | SystemExit int
  | ZeroDivisionError

type_synonym 'a res = "exn + 'a"

fun bind_res :: "'e + 'a \<Rightarrow> ('a \<Rightarrow> 'e + 'b) \<Rightarrow> 'e + 'b" where
  "bind_res (Inl e) f = Inl e"
| "bind_res (Inr x) f = f x"

definition assert_res :: "bool \<Rightarrow> unit res" where
  "assert_res b = (if b then Inr () else Inl AssertionError)"

fun map_res :: "('a \<Rightarrow> 'e + 'b) \<Rightarrow> 'a list \<Rightarrow> 'e + 'b list" where
  "map_res f [] = Inr []"
| "map_res f (x # xs) =
     bind_res (f x) (\<lambda>y. bind_res (map_res f xs) (\<lambda>ys. Inr (y # ys)))"

fun fold_res :: "('a \<Rightarrow> 's \<Rightarrow> 'e + 's) \<Rightarrow> 'a list \<Rightarrow> 's \<Rightarrow> 'e + 's" where
  "fold_res f [] s = Inr s"
| "fold_res f (x # xs) s = bind_res (f x s) (fold_res f xs)"

definition ok :: "'e + 'a \<Rightarrow> bool" where
  "ok r = (case r of Inl _ \<Rightarrow> False | Inr _ \<Rightarrow> True)"

lemma bind_res_eq_Inr [py_res]:
  "bind_res m f = Inr y \<longleftrightarrow> (\<exists>x. m = Inr x \<and> f x = Inr y)"
  by (cases m) auto

lemma bind_res_eq_Inl [py_res]:
  "bind_res m f = Inl e \<longleftrightarrow> m = Inl e \<or> (\<exists>x. m = Inr x \<and> f x = Inl e)"
  by (cases m) auto

lemma bind_res_assoc: "bind_res (bind_res m f) g = bind_res m (\<lambda>x. bind_res (f x) g)"
  by (cases m) auto

lemma bind_res_return [simp]: "bind_res m Inr = m"
  by (cases m) auto

lemma bind_res_cong [fundef_cong]:
  "m = m' \<Longrightarrow> (\<And>x. m' = Inr x \<Longrightarrow> f x = g x) \<Longrightarrow> bind_res m f = bind_res m' g"
  by (cases m') auto

lemma assert_res_eq [py_res]:
  "assert_res b = Inr u \<longleftrightarrow> b"
  "assert_res b = Inl e \<longleftrightarrow> \<not> b \<and> e = AssertionError"
  by (auto simp: assert_res_def)

lemma assert_res_simps [simp]:
  "assert_res True = Inr ()" "assert_res False = Inl AssertionError"
  by (simp_all add: assert_res_def)

lemma ok_simps [simp]: "ok (Inr x)" "\<not> ok (Inl e)"
  by (simp_all add: ok_def)

lemma ok_iff [py_res]: "ok r \<longleftrightarrow> (\<exists>x. r = Inr x)"
  by (cases r) auto

lemma ok_bind_res [py_res]: "ok (bind_res m f) \<longleftrightarrow> (\<exists>x. m = Inr x \<and> ok (f x))"
  by (cases m) auto

lemma ok_assert_res [simp]: "ok (assert_res b) \<longleftrightarrow> b"
  by (simp add: assert_res_def)

lemma map_res_eq_Inr:
  "map_res f xs = Inr ys \<longleftrightarrow> list_all2 (\<lambda>x y. f x = Inr y) xs ys"
  by (induction xs arbitrary: ys)
    (auto simp: py_res list_all2_Cons1)

lemma map_res_range: "map_res f xs = Inr ys \<Longrightarrow> y \<in> set ys \<Longrightarrow> \<exists>x \<in> set xs. f x = Inr y"
  unfolding map_res_eq_Inr by (induction xs ys rule: list_all2_induct) auto

lemma map_res_image: "map_res f xs = Inr ys \<Longrightarrow> x \<in> set xs \<Longrightarrow> \<exists>y \<in> set ys. f x = Inr y"
  unfolding map_res_eq_Inr by (induction xs ys rule: list_all2_induct) auto

lemma map_res_UN:
  "map_res f xs = Inr ys \<Longrightarrow> (\<And>x y. x \<in> set xs \<Longrightarrow> f x = Inr y \<Longrightarrow> F y = G x) \<Longrightarrow>
     (\<Union>y \<in> set ys. F y) = (\<Union>x \<in> set xs. G x)"
  unfolding map_res_eq_Inr
proof (induction xs ys rule: list_all2_induct)
  case (Cons x xs y ys)
  then have "F y = G x" "(\<Union>y \<in> set ys. F y) = (\<Union>x \<in> set xs. G x)" by simp_all
  then show ?case by simp
qed simp

lemma map_res_Inl: "map_res f xs = Inl e \<Longrightarrow> \<exists>x \<in> set xs. f x = Inl e"
  by (induction xs) (auto simp: bind_res_eq_Inl)

lemma map_res_total: "(\<And>x. x \<in> set xs \<Longrightarrow> f x = Inr (g x)) \<Longrightarrow> map_res f xs = Inr (map g xs)"
  by (induction xs) auto

lemma if_Inr_D: "r = (if c then Inr x else Inl e) \<Longrightarrow> r = Inr y \<Longrightarrow> c"
  by (simp split: if_splits)

lemma fold_res_append:
  "fold_res f (xs @ ys) s = bind_res (fold_res f xs s) (fold_res f ys)"
  by (induction xs arbitrary: s) (auto simp: bind_res_assoc intro: bind_res_cong)

text \<open>Invariant rule for a loop that may raise: what every iteration keeps, the loop keeps.\<close>

lemma fold_res_invariant:
  assumes "fold_res f xs s = Inr s'" and "P s"
    and "\<And>x t t'. x \<in> set xs \<Longrightarrow> P t \<Longrightarrow> f x t = Inr t' \<Longrightarrow> P t'"
  shows "P s'"
  using assms
  by (induction xs arbitrary: s) (auto simp: py_res)

lemma bind_unit_ok: "bind_res m (\<lambda>_ :: unit. r) = Inr () \<longleftrightarrow> m = Inr () \<and> r = Inr ()"
  by (auto simp: py_res)

lemma map_res_unit_ok: "bind_res (map_res f xs) (\<lambda>_. Inr ()) = Inr () \<longleftrightarrow> (\<forall>x \<in> set xs. f x = Inr (() :: unit))"
  by (induction xs) (auto simp: py_res)

lemma map_res_guard:
  "bind_res (map_res (\<lambda>x. if P x then Inl e else Inr ()) xs) (\<lambda>_. Inr ()) = (if \<exists>x \<in> set xs. P x then Inl e else Inr ())"
  by (induction xs) (auto simp: bind_res_assoc)

lemma fold_res_keep:
  assumes "fold_res f xs s = Inr s'" and "\<And>x s s'. f x s = Inr s' \<Longrightarrow> g s' = g s"
  shows "g s' = g s"
  using assms(1) by (induction xs arbitrary: s) (auto simp: py_res assms(2))

lemma fold_res_total: "(\<And>x s. x \<in> set xs \<Longrightarrow> \<exists>s'. f x s = Inr s') \<Longrightarrow> \<exists>s'. fold_res f xs s = Inr s'"
proof (induction xs arbitrary: s)
  case (Cons x xs)
  obtain s' where "f x s = Inr s'" using Cons.prems [of x s] by auto
  moreover have "\<exists>s''. fold_res f xs s' = Inr s''" by (rule Cons.IH) (use Cons.prems in simp)
  ultimately show ?case by simp
qed simp

subsection \<open>Strings\<close>

text \<open>\<^verbatim>\<open>s.startswith(p)\<close> and \<^verbatim>\<open>s.endswith(p)\<close>.\<close>

definition starts_with :: "string \<Rightarrow> string \<Rightarrow> bool" where
  "starts_with s p = (take (length p) s = p)"

definition ends_with :: "string \<Rightarrow> string \<Rightarrow> bool" where
  "ends_with s p = (length p \<le> length s \<and> drop (length s - length p) s = p)"

lemma starts_with_prefix: "starts_with s p \<longleftrightarrow> prefix p s"
  by (auto simp: starts_with_def prefix_def) (metis append_take_drop_id)

lemma ends_with_suffix: "ends_with s p \<longleftrightarrow> suffix p s"
  by (auto simp: ends_with_def suffix_def) (metis append_take_drop_id)

lemma starts_with_append [simp]: "starts_with (p @ s) p"
  by (simp add: starts_with_def)

lemma ends_with_append [simp]: "ends_with (s @ p) p"
  by (simp add: ends_with_def)

text \<open>\<^verbatim>\<open>s.removesuffix(p)\<close> and \<^verbatim>\<open>s.removeprefix(p)\<close>.\<close>

definition remove_suffix :: "string \<Rightarrow> string \<Rightarrow> string" where
  "remove_suffix s p = (if ends_with s p then take (length s - length p) s else s)"

definition remove_prefix :: "string \<Rightarrow> string \<Rightarrow> string" where
  "remove_prefix s p = (if starts_with s p then drop (length p) s else s)"

lemma remove_suffix_append [simp]: "remove_suffix (s @ p) p = s"
  by (simp add: remove_suffix_def)

lemma remove_prefix_append [simp]: "remove_prefix (p @ s) p = s"
  by (simp add: remove_prefix_def)

text \<open>\<^verbatim>\<open>s.split(c)\<close> for a one-character separator: never empty.\<close>

fun split_on :: "char \<Rightarrow> string \<Rightarrow> string list" where
  "split_on c [] = [[]]"
| "split_on c (x # xs) =
     (if x = c then [] # split_on c xs
      else (case split_on c xs of [] \<Rightarrow> [[x]] | y # ys \<Rightarrow> (x # y) # ys))"

text \<open>\<^verbatim>\<open>sep.join(xs)\<close>.\<close>

fun join_with :: "string \<Rightarrow> string list \<Rightarrow> string" where
  "join_with sep [] = []"
| "join_with sep [x] = x"
| "join_with sep (x # y # ys) = x @ sep @ join_with sep (y # ys)"

lemma split_on_neq_Nil [simp]: "split_on c s \<noteq> []"
  by (induction s) (auto split: list.splits)

lemma join_with_Cons:
  "ys \<noteq> [] \<Longrightarrow> join_with sep (y # ys) = y @ sep @ join_with sep ys"
  by (cases ys) auto

lemma join_with_split_on [simp]: "join_with [c] (split_on c s) = s"
proof (induction s)
  case (Cons x xs)
  obtain y ys where s: "split_on c xs = y # ys"
    by (cases "split_on c xs") auto
  with Cons.IH show ?case
    by (cases ys) auto
qed simp

lemma split_on_no_sep [simp]: "c \<notin> set s \<Longrightarrow> split_on c s = [s]"
  by (induction s) auto

lemma split_on_append_sep [simp]:
  "c \<notin> set s \<Longrightarrow> split_on c (s @ c # t) = s # split_on c t"
  by (induction s) auto

lemma split_on_join_with:
  "xs \<noteq> [] \<Longrightarrow> (\<And>x. x \<in> set xs \<Longrightarrow> c \<notin> set x) \<Longrightarrow> split_on c (join_with [c] xs) = xs"
  by (induction "[c]" xs rule: join_with.induct) auto

lemma sep_notin_split_on: "x \<in> set (split_on c s) \<Longrightarrow> c \<notin> set x"
proof (induction s arbitrary: x)
  case (Cons a s)
  obtain y ys where s: "split_on c s = y # ys"
    by (cases "split_on c s") auto
  with Cons show ?case
    by (auto split: if_splits)
qed simp

lemma length_split_on: "length (split_on c s) = Suc (count_list s c)"
  by (induction s) (auto split: list.splits)

lemma count_list_join_with:
  "(\<And>x. x \<in> set xs \<Longrightarrow> c \<notin> set x) \<Longrightarrow> count_list (join_with [c] xs) c = length xs - 1"
  by (induction "[c]" xs rule: join_with.induct) auto

text \<open>\<^verbatim>\<open>s.strip()\<close>, \<^verbatim>\<open>s.rstrip()\<close>: white space is what \<^verbatim>\<open>str.isspace\<close> accepts in Latin-1.\<close>

definition is_space :: "char \<Rightarrow> bool" where
  "is_space c \<longleftrightarrow> of_char c \<in> {9, 10, 11, 12, 13, 28, 29, 30, 31, 32, 133, 160 :: nat}"

definition lstrip :: "string \<Rightarrow> string" where
  "lstrip s = dropWhile is_space s"

definition rstrip :: "string \<Rightarrow> string" where
  "rstrip s = rev (dropWhile is_space (rev s))"

definition strip :: "string \<Rightarrow> string" where
  "strip s = rstrip (lstrip s)"

definition rstrip_char :: "char \<Rightarrow> string \<Rightarrow> string" where
  "rstrip_char c s = rev (dropWhile (\<lambda>x. x = c) (rev s))"

definition strip_char :: "char \<Rightarrow> string \<Rightarrow> string" where
  "strip_char c s = rstrip_char c (dropWhile (\<lambda>x. x = c) s)"

lemma rstrip_idem [simp]: "rstrip (rstrip s) = rstrip s"
  by (simp add: rstrip_def dropWhile_idem)

lemma rstrip_not_space: "rstrip s \<noteq> [] \<Longrightarrow> \<not> is_space (last (rstrip s))"
  by (simp add: rstrip_def last_rev hd_dropWhile)

lemma hd_rstrip: "rstrip s \<noteq> [] \<Longrightarrow> hd (rstrip s) = hd s"
proof -
  assume ne: "rstrip s \<noteq> []"
  have "s = rstrip s @ rev (takeWhile is_space (rev s))"
    unfolding rstrip_def by (metis rev_append rev_rev_ident takeWhile_dropWhile_id)
  with ne show ?thesis
    by (metis hd_append2)
qed

lemma strip_not_space:
  assumes "strip s \<noteq> []"
  shows "\<not> is_space (hd (strip s))" and "\<not> is_space (last (strip s))"
proof -
  have ne: "lstrip s \<noteq> []"
    using assms by (auto simp: strip_def rstrip_def)
  have "hd (strip s) = hd (lstrip s)"
    using assms by (simp add: strip_def hd_rstrip)
  moreover have "\<not> is_space (hd (lstrip s))"
    using ne by (simp add: lstrip_def hd_dropWhile)
  ultimately show "\<not> is_space (hd (strip s))"
    by simp
  show "\<not> is_space (last (strip s))"
    using assms by (simp add: strip_def rstrip_not_space)
qed

lemma strip_id: "s = [] \<or> \<not> is_space (hd s) \<and> \<not> is_space (last s) \<Longrightarrow> strip s = s"
  by (cases s)
    (auto simp: strip_def lstrip_def rstrip_def hd_append hd_rev dropWhile_eq_self_iff split: if_splits)

lemma strip_idem [simp]: "strip (strip s) = strip s"
  using strip_not_space strip_id by blast

lemma set_strip: "set (strip s) \<subseteq> set s"
  by (auto simp: strip_def lstrip_def rstrip_def dest!: set_dropWhileD)

text \<open>\<^verbatim>\<open>s.lower()\<close> on ASCII letters.\<close>

definition is_upper :: "char \<Rightarrow> bool" where
  "is_upper c \<longleftrightarrow> CHR ''A'' \<le> c \<and> c \<le> CHR ''Z''"

definition is_lower :: "char \<Rightarrow> bool" where
  "is_lower c \<longleftrightarrow> CHR ''a'' \<le> c \<and> c \<le> CHR ''z''"

definition is_digit :: "char \<Rightarrow> bool" where
  "is_digit c \<longleftrightarrow> CHR ''0'' \<le> c \<and> c \<le> CHR ''9''"

definition to_lower :: "char \<Rightarrow> char" where
  "to_lower c = (if is_upper c then char_of (of_char c + 32 :: nat) else c)"

definition lower :: "string \<Rightarrow> string" where
  "lower s = map to_lower s"

lemma to_lower_not_upper: "\<not> is_upper (to_lower c)"
proof (cases "is_upper c")
  case True
  then have "65 \<le> (of_char c :: nat)" "(of_char c :: nat) \<le> 90"
    by (simp_all add: is_upper_def less_eq_char_def)
  then show ?thesis
    using True by (simp add: to_lower_def is_upper_def less_eq_char_def)
next
  case False
  then show ?thesis by (simp add: to_lower_def)
qed

lemma to_lower_idem [simp]: "to_lower (to_lower c) = to_lower c"
  using to_lower_not_upper [of c] by (simp add: to_lower_def [of "to_lower c"])

lemma lower_idem [simp]: "lower (lower s) = lower s"
  by (simp add: lower_def)

lemma length_lower [simp]: "length (lower s) = length s"
  by (simp add: lower_def)

lemma lower_append [simp]: "lower (s @ t) = lower s @ lower t"
  by (simp add: lower_def)

text \<open>\<^verbatim>\<open>s.replace(old, new)\<close> for a non-empty \<^verbatim>\<open>old\<close>, with an optional bound on the count.\<close>

function replace_n :: "nat option \<Rightarrow> string \<Rightarrow> string \<Rightarrow> string \<Rightarrow> string" where
  "replace_n n old new [] = []"
| "replace_n n old new (x # xs) =
     (if old \<noteq> [] \<and> n \<noteq> Some 0 \<and> starts_with (x # xs) old
      then new @ replace_n (map_option (\<lambda>k. k - 1) n) old new (drop (length old) (x # xs))
      else x # replace_n n old new xs)"
  by pat_completeness auto
termination
  by (relation "measure (\<lambda>(n, old, new, s). length s)") (auto simp: Suc_le_eq)

definition replace_all :: "string \<Rightarrow> string \<Rightarrow> string \<Rightarrow> string" where
  "replace_all old new s = replace_n None old new s"

lemma replace_all_absent: "\<not> sublist old s \<Longrightarrow> replace_all old new s = s"
  unfolding replace_all_def
proof (induction s)
  case (Cons x xs)
  then have "\<not> starts_with (x # xs) old" "\<not> sublist old xs"
    by (auto simp: starts_with_prefix sublist_Cons_right)
  with Cons.IH show ?case by simp
qed simp

text \<open>Substring test \<^verbatim>\<open>p in s\<close>.\<close>

fun contains :: "string \<Rightarrow> string \<Rightarrow> bool" where
  "contains p [] = (p = [])"
| "contains p (x # xs) = (starts_with (x # xs) p \<or> contains p xs)"

lemma contains_sublist: "contains p s \<longleftrightarrow> sublist p s"
  by (induction s) (auto simp: starts_with_prefix sublist_Cons_right)

text \<open>
  \<^verbatim>\<open>repr\<close> of a string and of a bytes object: the quotes are single unless the text has single quotes only, and what is not
  printable is escaped.
\<close>

definition hex_escape :: "char \<Rightarrow> string" where
  "hex_escape c =
     (let n = (of_char c :: nat) in
      [CHR 0x5C, CHR ''x'', ''0123456789abcdef'' ! (n div 16), ''0123456789abcdef'' ! (n mod 16)])"

definition repr_char :: "char \<Rightarrow> char \<Rightarrow> string" where
  "repr_char q c =
     (let n = (of_char c :: nat) in
      if c = q \<or> c = CHR 0x5C then [CHR 0x5C, c]
      else if n = 9 then [CHR 0x5C, CHR ''t''] else if n = 10 then [CHR 0x5C, CHR ''n''] else if n = 13 then [CHR 0x5C, CHR ''r'']
      else if n < 32 \<or> 127 \<le> n \<and> n \<le> 160 \<or> n = 173 then hex_escape c
      else [c])"

definition repr_quote :: "string \<Rightarrow> char" where
  "repr_quote s = (if CHR 0x27 \<in> set s \<and> CHR 0x22 \<notin> set s then CHR 0x22 else CHR 0x27)"

definition repr_str :: "string \<Rightarrow> string" where
  "repr_str s = (let q = repr_quote s in [q] @ concat (map (repr_char q) s) @ [q])"

definition repr_bytes :: "string \<Rightarrow> string" where
  "repr_bytes s =
     (let q = repr_quote s in
      ''b'' @ [q] @ concat (map (\<lambda>c. if of_char c > (126 :: nat) then hex_escape c else repr_char q c) s) @ [q])"

text \<open>\<^verbatim>\<open>splitlines\<close> of bytes, whose lines end as on Unix, Windows or an old Mac, and of strings, where further
  control characters end a line. A final line end opens no line.\<close>

fun unify_newlines :: "string \<Rightarrow> string" where
  "unify_newlines [] = []"
| "unify_newlines (c # cs) =
     (if c = CHR 0x0D
      then (if cs \<noteq> [] \<and> hd cs = CHR 0x0A then unify_newlines cs else CHR 0x0A # unify_newlines cs)
      else c # unify_newlines cs)"

definition splitlines :: "string \<Rightarrow> string list" where
  "splitlines s =
     (let ls = split_on CHR 0x0A (unify_newlines s) in if last ls = [] then butlast ls else ls)"

definition ends_line :: "char \<Rightarrow> bool" where
  "ends_line c \<longleftrightarrow> c \<in> {CHR 0x0B, CHR 0x0C, CHR 0x1C, CHR 0x1D, CHR 0x1E, CHR 0x85}"

definition str_splitlines :: "string \<Rightarrow> string list" where
  "str_splitlines s =
     (let ls = split_on CHR 0x0A (map (\<lambda>c. if ends_line c then CHR 0x0A else c) (unify_newlines s))
      in if last ls = [] then butlast ls else ls)"

lemma set_unify_newlines: "set (unify_newlines s) \<subseteq> insert (CHR 0x0A) (set s)"
  by (induction s rule: unify_newlines.induct) auto

lemma not_ends_line_newline: "\<not> ends_line CHR 0x0A"
  by (simp add: ends_line_def)

lemma str_splitlines_plain:
  assumes "\<not> list_ex ends_line s"
  shows "str_splitlines s = splitlines s"
proof -
  have "\<not> ends_line c" if "c \<in> set (unify_newlines s)" for c
    using that assms set_unify_newlines [of s] not_ends_line_newline by (auto simp: list_ex_iff)
  then have "map (\<lambda>c. if ends_line c then CHR 0x0A else c) (unify_newlines s) = unify_newlines s"
    by (simp add: map_idI)
  then show ?thesis by (simp add: str_splitlines_def splitlines_def)
qed

lemma str_splitlines_unify:
  assumes "\<not> list_ex ends_line s"
  shows "str_splitlines (unify_newlines s) = splitlines (unify_newlines s)"
  using assms set_unify_newlines [of s] not_ends_line_newline
  by (intro str_splitlines_plain) (auto simp: list_ex_iff)

lemma unify_newlines_id: "CHR 0x0D \<notin> set s \<Longrightarrow> unify_newlines s = s"
  by (induction s) auto

lemma splitlines_join:
  assumes "\<And>l. l \<in> set ls \<Longrightarrow> CHR 0x0A \<notin> set l \<and> CHR 0x0D \<notin> set l"
  shows "splitlines (concat (map (\<lambda>l. l @ [CHR 0x0A]) ls)) = ls"
proof -
  have "CHR 0x0D \<notin> set (concat (map (\<lambda>l. l @ [CHR 0x0A]) ls))"
    using assms by auto
  moreover have "split_on CHR 0x0A (concat (map (\<lambda>l. l @ [CHR 0x0A]) ls)) = ls @ [[]]"
    using assms by (induction ls) auto
  ultimately show ?thesis
    by (simp add: splitlines_def unify_newlines_id)
qed

text \<open>\<^verbatim>\<open>str.isidentifier\<close>, on ASCII names.\<close>

definition is_ident_start :: "char \<Rightarrow> bool" where
  "is_ident_start c \<longleftrightarrow> is_upper c \<or> is_lower c \<or> c = CHR ''_''"

definition is_identifier :: "string \<Rightarrow> bool" where
  "is_identifier s =
     (case s of [] \<Rightarrow> False
      | c # cs \<Rightarrow> is_ident_start c \<and> list_all (\<lambda>d. is_ident_start d \<or> is_digit d) cs)"

text \<open>\<^verbatim>\<open>str(n)\<close> and \<^verbatim>\<open>int(s)\<close> on decimal naturals.\<close>

definition digit_char :: "nat \<Rightarrow> char" where
  "digit_char d = char_of (48 + d)"

definition digit_val :: "char \<Rightarrow> nat" where
  "digit_val c = of_char c - 48"

fun show_nat :: "nat \<Rightarrow> string" where
  "show_nat n = (if n < 10 then [digit_char n] else show_nat (n div 10) @ [digit_char (n mod 10)])"

declare show_nat.simps [simp del]

definition show_int :: "int \<Rightarrow> string" where
  "show_int n = (if n < 0 then CHR ''-'' # show_nat (nat (- n)) else show_nat (nat n))"

definition int_of_digits :: "string \<Rightarrow> nat" where
  "int_of_digits s = foldl (\<lambda>n c. 10 * n + digit_val c) 0 s"

lemma digit_val_char [simp]: "d < 10 \<Longrightarrow> digit_val (digit_char d) = d"
  by (simp add: digit_val_def digit_char_def)

lemma is_digit_char [simp]: "d < 10 \<Longrightarrow> is_digit (digit_char d)"
  by (simp add: is_digit_def digit_char_def less_eq_char_def)

lemma int_of_digits_show_nat [simp]: "int_of_digits (show_nat n) = n"
proof (induction n rule: show_nat.induct)
  case (1 n)
  then show ?case
    by (cases "n < 10") (simp_all add: show_nat.simps [of n] int_of_digits_def)
qed

lemma show_nat_digits: "list_all is_digit (show_nat n)"
proof (induction n rule: show_nat.induct)
  case (1 n)
  then show ?case
    by (cases "n < 10") (simp_all add: show_nat.simps [of n])
qed

lemma show_nat_neq_Nil [simp]: "show_nat n \<noteq> []"
  by (subst show_nat.simps) simp

lemma show_nat_inj: "show_nat m = show_nat n \<longleftrightarrow> m = n"
  by (metis int_of_digits_show_nat)

subsection \<open>Dictionaries\<close>

text \<open>
  The interface the scripts use of a dictionary: look a key up, store under a key, list the keys
  in insertion order. The laws are what Python documents of \<^verbatim>\<open>dict\<close>; the components use them
  through the interpretation for association lists below.
\<close>

locale ordered_dict =
  fixes lookup :: "'d \<Rightarrow> 'k \<Rightarrow> 'v option"
    and store :: "'k \<Rightarrow> 'v \<Rightarrow> 'd \<Rightarrow> 'd"
    and keys :: "'d \<Rightarrow> 'k list"
    and wf :: "'d \<Rightarrow> bool"
  assumes lookup_store: "lookup (store k v d) = (lookup d)(k \<mapsto> v)"
    and keys_store: "keys (store k v d) = (if k \<in> set (keys d) then keys d else keys d @ [k])"
    and wf_store: "wf d \<Longrightarrow> wf (store k v d)"
    and keys_lookup: "wf d \<Longrightarrow> k \<in> set (keys d) \<longleftrightarrow> lookup d k \<noteq> None"
    and keys_distinct: "wf d \<Longrightarrow> distinct (keys d)"
begin

text \<open>\<^verbatim>\<open>d.update(dict.fromkeys(ks, v))\<close> and \<^verbatim>\<open>{key(x): val(x) for x in xs}\<close> are folds of \<open>store\<close>.\<close>

lemma lookup_store_many:
  "lookup (fold (\<lambda>x. store (f x) (g x)) xs d) k =
     (case find (\<lambda>x. f x = k) (rev xs) of None \<Rightarrow> lookup d k | Some x \<Rightarrow> Some (g x))"
proof (induction xs rule: rev_induct)
  case (snoc x xs)
  then show ?case
    by (auto simp: lookup_store split: option.splits)
qed simp

lemma wf_store_many: "wf d \<Longrightarrow> wf (fold (\<lambda>x. store (f x) (g x)) xs d)"
  by (induction xs arbitrary: d) (auto simp: wf_store)

lemma set_keys_store_many:
  "set (keys (fold (\<lambda>x. store (f x) (g x)) xs d)) = set (keys d) \<union> f ` set xs"
  by (induction xs arbitrary: d) (auto simp: keys_store)

lemma keys_store_many_fresh:
  "distinct (map f xs) \<Longrightarrow> set (keys d) \<inter> f ` set xs = {} \<Longrightarrow>
    keys (fold (\<lambda>x. store (f x) (g x)) xs d) = keys d @ map f xs"
  by (induction xs arbitrary: d) (auto simp: keys_store)

end

type_synonym ('k, 'v) dict = "('k \<times> 'v) list"

abbreviation dict_keys :: "('k, 'v) dict \<Rightarrow> 'k list" where
  "dict_keys d \<equiv> map fst d"

abbreviation dict_wf :: "('k, 'v) dict \<Rightarrow> bool" where
  "dict_wf d \<equiv> distinct (map fst d)"

interpretation al: ordered_dict map_of AList.update "map fst" dict_wf
proof unfold_locales
  fix d :: "('k, 'v) dict" and k v
  show "map_of (AList.update k v d) = (map_of d)(k \<mapsto> v)"
    by (rule update_conv')
  show "map fst (AList.update k v d) = (if k \<in> set (map fst d) then map fst d else map fst d @ [k])"
    by (simp add: update_keys)
  show "dict_wf d \<Longrightarrow> dict_wf (AList.update k v d)"
    by (rule distinct_update)
  show "dict_wf d \<Longrightarrow> (k \<in> set (map fst d)) = (map_of d k \<noteq> None)"
    by (simp add: map_of_eq_None_iff)
qed

declare al.lookup_store [py_dict] al.keys_store [py_dict]

text \<open>\<^verbatim>\<open>d[k]\<close> raises on a missing key; \<^verbatim>\<open>d.get(k, default)\<close> does not.\<close>

definition dict_item :: "(string, 'v) dict \<Rightarrow> string \<Rightarrow> 'v res" where
  "dict_item d k = (case map_of d k of None \<Rightarrow> Inl (KeyError k) | Some v \<Rightarrow> Inr v)"

definition dict_get :: "('k, 'v) dict \<Rightarrow> 'k \<Rightarrow> 'v \<Rightarrow> 'v" where
  "dict_get d k v0 = (case map_of d k of None \<Rightarrow> v0 | Some v \<Rightarrow> v)"

lemma dict_get_update: "dict_get (AList.update k v m) k' x = (if k' = k then v else dict_get m k' x)"
  by (simp add: dict_get_def update_conv')

lemma dict_get_Nil: "dict_get [] k x = x"
  by (simp add: dict_get_def)

lemma map_of_fold_update:
  "map_of (fold (\<lambda>d. AList.update (f d) v) xs m) k = (if k \<in> f ` set xs then Some v else map_of m k)"
  by (induction xs arbitrary: m) (auto simp: update_conv')

lemma dict_item_eq [py_dict]:
  "dict_item d k = Inr v \<longleftrightarrow> map_of d k = Some v"
  "dict_item d k = Inl e \<longleftrightarrow> map_of d k = None \<and> e = KeyError k"
  by (auto simp: dict_item_def split: option.splits)

subsection \<open>Lists\<close>

text \<open>\<^verbatim>\<open>sorted(set(xs))\<close>: the elements once each, in order.\<close>

definition sorted_set :: "'a::linorder list \<Rightarrow> 'a list" where
  "sorted_set xs = sort (remdups xs)"

lemma sorted_set_simps [simp]:
  "set (sorted_set xs) = set xs" "sorted (sorted_set xs)" "distinct (sorted_set xs)"
  by (simp_all add: sorted_set_def)

lemma sorted_set_eqI: "set xs = set ys \<Longrightarrow> sorted_set xs = sorted_set ys"
  by (simp add: sorted_distinct_set_unique)

lemma sorted_set_eq_sorted_list_of_set: "sorted_set xs = sorted_list_of_set (set xs)"
  by (simp add: sorted_set_def sorted_list_of_set_sort_remdups)

text \<open>\<^verbatim>\<open>itertools.product(xs, ys)\<close>, \<^verbatim>\<open>enumerate(xs)\<close> and a truth value of Python's \<^verbatim>\<open>or\<close>.\<close>

definition py_product :: "'a list \<Rightarrow> 'b list \<Rightarrow> ('a \<times> 'b) list" where
  "py_product xs ys = concat (map (\<lambda>x. map (\<lambda>y. (x, y)) ys) xs)"

lemma set_py_product [simp]: "set (py_product xs ys) = set xs \<times> set ys"
  by (auto simp: py_product_def)

lemma length_py_product [simp]: "length (py_product xs ys) = length xs * length ys"
  by (induction xs) (simp_all add: py_product_def)

definition or_default :: "'a list \<Rightarrow> 'a list \<Rightarrow> 'a list" where
  "or_default xs ys = (if xs = [] then ys else xs)"

end
