(* ===== verification/External.thy ===== *)
theory External
  imports Py_Prelude
begin

section \<open>Third-party code as parameters\<close>

text \<open>
  The scripts call packages whose source is not part of the repository. They are arguments of the
  definitions that use them:
  \<^item> \<open>packaging\<close> collects what is used of \<^verbatim>\<open>packaging.version\<close>, \<^verbatim>\<open>packaging.specifiers\<close> and
    \<^verbatim>\<open>packaging.requirements\<close>; versions are an arbitrary linear order \<open>'v\<close>, a constructor that raises
    is a partial function. Two specifier sets are equal when their keys are: \<open>spec_key\<close> is the key of a specifier text and
    \<open>req_spec\<close> that of the specifier of a requirement;
  \<^item> \<^verbatim>\<open>tomli\<close> and \<^verbatim>\<open>tomlkit\<close> turn a file into a value of \<open>toml\<close>, the data model of the TOML format.
  \<open>simple_packaging\<close> is one concrete instance, on dotted decimal versions, at which hypotheses about
  the package can be discharged.
\<close>

subsection \<open>TOML values\<close>

datatype toml =
    TStr string
  | TBool bool
  | TInt int
  | TList "toml list"
  | TTable "(string \<times> toml) list"
  | TOther string

type_synonym toml_table = "(string, toml) dict"

text \<open>Python's truth value of a loaded TOML value (\<^verbatim>\<open>TOther\<close>: dates and times, which are true).\<close>

fun truthy :: "toml \<Rightarrow> bool" where
  "truthy (TStr s) = (s \<noteq> [])"
| "truthy (TBool b) = b"
| "truthy (TInt n) = (n \<noteq> 0)"
| "truthy (TList xs) = (xs \<noteq> [])"
| "truthy (TTable t) = (t \<noteq> [])"
| "truthy (TOther s) = True"

fun is_TStr :: "toml \<Rightarrow> bool" where
  "is_TStr (TStr s) = True"
| "is_TStr _ = False"

fun the_str :: "toml \<Rightarrow> string" where
  "the_str (TStr s) = s"
| "the_str _ = []"

subsection \<open>The packaging library\<close>

record 'v packaging =
  parse_version :: "string \<Rightarrow> 'v option"
  base_version :: "'v \<Rightarrow> string"
  is_prerelease :: "'v \<Rightarrow> bool"
  version_str :: "'v \<Rightarrow> string"
  specifier :: "string \<Rightarrow> ('v \<Rightarrow> bool) option"
  req_name :: "string \<Rightarrow> string option"
  req_str :: "string \<Rightarrow> string"
  req_spec :: "string \<Rightarrow> string"
  spec_key :: "string \<Rightarrow> string"

definition Version :: "('v, 'x) packaging_scheme \<Rightarrow> string \<Rightarrow> 'v res" where
  "Version pk s = (case parse_version pk s of None \<Rightarrow> Inl InvalidVersion | Some v \<Rightarrow> Inr v)"

definition SpecifierSet :: "('v, 'x) packaging_scheme \<Rightarrow> string \<Rightarrow> ('v \<Rightarrow> bool) res" where
  "SpecifierSet pk s = (case specifier pk s of None \<Rightarrow> Inl InvalidSpecifier | Some f \<Rightarrow> Inr f)"

definition Requirement :: "('v, 'x) packaging_scheme \<Rightarrow> string \<Rightarrow> string res" where
  "Requirement pk s = (case req_name pk s of None \<Rightarrow> Inl InvalidRequirement | Some n \<Rightarrow> Inr n)"

lemma Version_eq [py_res]:
  "Version pk s = Inr v \<longleftrightarrow> parse_version pk s = Some v"
  "Version pk s = Inl e \<longleftrightarrow> parse_version pk s = None \<and> e = InvalidVersion"
  by (auto simp: Version_def split: option.splits)

lemma SpecifierSet_eq [py_res]:
  "SpecifierSet pk s = Inr f \<longleftrightarrow> specifier pk s = Some f"
  "SpecifierSet pk s = Inl e \<longleftrightarrow> specifier pk s = None \<and> e = InvalidSpecifier"
  by (auto simp: SpecifierSet_def split: option.splits)

lemma Requirement_eq [py_res]:
  "Requirement pk s = Inr n \<longleftrightarrow> req_name pk s = Some n"
  "Requirement pk s = Inl e \<longleftrightarrow> req_name pk s = None \<and> e = InvalidRequirement"
  by (auto simp: Requirement_def split: option.splits)

text \<open>
  Version matching as PEP 440 documents it for \<^verbatim>\<open>==\<close>: with a trailing \<^verbatim>\<open>.*\<close> the given components
  are compared with as many leading components of the version, which is padded with zeros;
  without, the version itself is named.
\<close>

definition pad_release :: "nat \<Rightarrow> string list \<Rightarrow> string list" where
  "pad_release n cs = take n (cs @ replicate n ''0'')"

definition wildcard_match :: "('v, 'x) packaging_scheme \<Rightarrow> 'v \<Rightarrow> bool" where
  "wildcard_match pk v \<longleftrightarrow>
     (\<forall>n>0. \<exists>f. specifier pk (''=='' @ join_with ''.''
          (pad_release n (split_on CHR ''.'' (base_version pk v))) @ ''.*'') = Some f \<and> f v)"

subsection \<open>A concrete instance\<close>

definition digits_of :: "string \<Rightarrow> nat option" where
  "digits_of s = (if s \<noteq> [] \<and> list_all is_digit s then Some (int_of_digits s) else None)"

fun those_opt :: "'a option list \<Rightarrow> 'a list option" where
  "those_opt [] = Some []"
| "those_opt (None # xs) = None"
| "those_opt (Some x # xs) = map_option ((#) x) (those_opt xs)"

definition simple_version :: "string \<Rightarrow> nat list option" where
  "simple_version s = those_opt (map digits_of (split_on CHR ''.'' s))"

definition simple_base :: "nat list \<Rightarrow> string" where
  "simple_base v = join_with ''.'' (map show_nat v)"

definition simple_specifier :: "string \<Rightarrow> (nat list \<Rightarrow> bool) option" where
  "simple_specifier s =
     (if \<not> starts_with s ''=='' then None
      else let t = drop 2 s in
        if ends_with t ''.*''
        then map_option (\<lambda>p v. take (length p) (v @ replicate (length p) 0) = p)
               (simple_version (remove_suffix t ''.*''))
        else map_option (\<lambda>p v. v = p) (simple_version t))"

definition simple_packaging :: "nat list packaging" where
  "simple_packaging =
     \<lparr>parse_version = simple_version, base_version = simple_base, is_prerelease = (\<lambda>v. False),
      version_str = simple_base, specifier = simple_specifier,
      req_name = (\<lambda>s. let n = takeWhile (\<lambda>c. c \<notin> set ''=<>!~ [;'') s in if n = [] then None else Some n),
      req_str = id, req_spec = dropWhile (\<lambda>c. c \<notin> set ''=<>!~''), spec_key = id\<rparr>"

lemma simple_packaging_sel [simp]:
  "parse_version simple_packaging = simple_version"
  "base_version simple_packaging = simple_base"
  "is_prerelease simple_packaging v = False"
  "version_str simple_packaging = simple_base"
  "specifier simple_packaging = simple_specifier"
  by (simp_all add: simple_packaging_def)

lemma digits_of_show_nat [simp]: "digits_of (show_nat n) = Some n"
  by (simp add: digits_of_def show_nat_digits)

lemma dot_notin_show_nat: "CHR ''.'' \<notin> set (show_nat n)"
proof -
  have "\<not> is_digit CHR ''.''"
    by (simp add: is_digit_def less_eq_char_def)
  then show ?thesis
    using show_nat_digits [of n] by (auto simp: list_all_iff)
qed

lemma those_opt_map_Some: "those_opt (map (Some \<circ> f) xs) = Some (map f xs)"
  by (induction xs) auto

lemma simple_version_join:
  "v \<noteq> [] \<Longrightarrow> simple_version (join_with ''.'' (map show_nat v)) = Some v"
proof -
  assume "v \<noteq> []"
  then have "split_on CHR ''.'' (join_with ''.'' (map show_nat v)) = map show_nat v"
    by (intro split_on_join_with) (auto simp: dot_notin_show_nat)
  then show ?thesis
    using those_opt_map_Some [of id v] by (simp add: simple_version_def comp_def)
qed

lemma show_nat_0: "show_nat 0 = ''0''"
  by code_simp

lemma simple_wildcard_match:
  assumes "v \<noteq> []"
  shows "wildcard_match simple_packaging v"
  unfolding wildcard_match_def
proof (intro allI impI)
  fix n :: nat assume n: "0 < n"
  let ?p = "take n (v @ replicate n 0)"
  let ?j = "join_with ''.'' (map show_nat ?p)"
  have p: "?p \<noteq> []" using assms n by simp
  have split: "split_on CHR ''.'' (simple_base v) = map show_nat v"
    unfolding simple_base_def using assms by (intro split_on_join_with) (auto simp: dot_notin_show_nat)
  have pad: "pad_release n (map show_nat v) = map show_nat ?p"
    by (simp add: pad_release_def take_map show_nat_0)
  have "simple_specifier (''=='' @ ?j @ ''.*'') =
      Some (\<lambda>w. take (length ?p) (w @ replicate (length ?p) 0) = ?p)"
    using simple_version_join [OF p] ends_with_append [of ?j "''.*''"]
      remove_suffix_append [of ?j "''.*''"]
    by (simp add: simple_specifier_def starts_with_def Let_def)
  moreover have "take (length ?p) (v @ replicate (length ?p) 0) = ?p"
    by (simp add: min_def)
  ultimately show "\<exists>f. specifier simple_packaging (''=='' @ join_with ''.''
      (pad_release n (split_on CHR ''.'' (base_version simple_packaging v))) @ ''.*'') = Some f \<and> f v"
    using split pad by simp
qed

end
