(* ===== verification/Py_Path.thy ===== *)
theory Py_Path
  imports Py_Prelude
begin

section \<open>Paths and directory trees\<close>

text \<open>
  \<^verbatim>\<open>pathlib.Path\<close> as the scripts use it: a path is the list of its parts (\<open>path\<close>), with
  \<^verbatim>\<open>name\<close>, \<^verbatim>\<open>stem\<close>, \<^verbatim>\<open>suffix\<close>, \<^verbatim>\<open>parents\<close> and \<^verbatim>\<open>/\<close> read off it. The working directory is a finite
  tree (\<open>fs\<close>) of files and directories; the entries of a directory are kept in the order in which
  \<^verbatim>\<open>os.listdir\<close> reports them, which Python leaves unspecified, so nothing is assumed of it.
\<close>

type_synonym path = "string list"

definition path_of :: "string \<Rightarrow> path" where
  "path_of s =
     (if starts_with s ''/'' then (#) ''/'' else id)
       (filter (\<lambda>p. p \<noteq> [] \<and> p \<noteq> ''.'') (split_on CHR ''/'' s))"

definition as_posix :: "path \<Rightarrow> string" where
  "as_posix p = (if p = [] then ''.'' else join_with ''/'' p)"

definition path_name :: "path \<Rightarrow> string" where
  "path_name p = (if p = [] then [] else last p)"

text \<open>The position of the last dot of a name, when it is neither its first nor its last character.\<close>

definition dot_split :: "string \<Rightarrow> (string \<times> string) option" where
  "dot_split n =
     (let suf = takeWhile (\<lambda>c. c \<noteq> CHR ''.'') (rev n);
          pre = rev (drop (Suc (length suf)) (rev n))
      in if CHR ''.'' \<in> set n \<and> suf \<noteq> [] \<and> pre \<noteq> [] then Some (pre, CHR ''.'' # rev suf) else None)"

definition name_stem :: "string \<Rightarrow> string" where
  "name_stem n = (case dot_split n of None \<Rightarrow> n | Some (s, _) \<Rightarrow> s)"

definition name_suffix :: "string \<Rightarrow> string" where
  "name_suffix n = (case dot_split n of None \<Rightarrow> [] | Some (_, e) \<Rightarrow> e)"

definition path_stem :: "path \<Rightarrow> string" where
  "path_stem p = name_stem (path_name p)"

definition path_suffix :: "path \<Rightarrow> string" where
  "path_suffix p = name_suffix (path_name p)"

text \<open>\<^verbatim>\<open>q in p.parents\<close>: a proper prefix of the parts.\<close>

definition in_parents :: "path \<Rightarrow> path \<Rightarrow> bool" where
  "in_parents q p \<longleftrightarrow> length q < length p \<and> take (length q) p = q"

lemma in_parents_strict_prefix: "in_parents q p \<longleftrightarrow> strict_prefix q p"
proof -
  have "take (length q) p = q \<longleftrightarrow> prefix q p"
    by (metis append_eq_conv_conj prefix_def take_is_prefix)
  then show ?thesis
    by (auto simp: in_parents_def strict_prefix_def prefix_length_less dest: prefix_length_le)
qed

lemma in_parents_trans: "in_parents q p \<Longrightarrow> in_parents p r \<Longrightarrow> in_parents q r"
  by (auto simp: in_parents_strict_prefix intro: prefix_order.less_trans)

lemma in_parents_append [simp]: "in_parents q (q @ r) \<longleftrightarrow> r \<noteq> []"
  by (simp add: in_parents_def)

lemma dot_split_append:
  "dot_split n = Some (s, e) \<Longrightarrow> n = s @ e \<and> s \<noteq> [] \<and> (\<exists>x. e = CHR ''.'' # x \<and> x \<noteq> [] \<and> CHR ''.'' \<notin> set x)"
proof -
  assume d: "dot_split n = Some (s, e)"
  let ?suf = "takeWhile (\<lambda>c. c \<noteq> CHR ''.'') (rev n)"
  have dot: "CHR ''.'' \<in> set n" and suf: "?suf \<noteq> []"
    and s: "s = rev (drop (Suc (length ?suf)) (rev n))" "s \<noteq> []" and e: "e = CHR ''.'' # rev ?suf"
    using d by (auto simp: dot_split_def Let_def split: if_splits)
  let ?P = "\<lambda>c. c \<noteq> CHR ''.''"
  obtain d ds where dw: "dropWhile ?P (rev n) = d # ds"
    using dot by (cases "dropWhile ?P (rev n)") (auto simp: dropWhile_eq_Nil_conv)
  then have "d = CHR ''.''"
    using hd_dropWhile [of ?P "rev n"] by simp
  then have split: "rev n = ?suf @ CHR ''.'' # ds"
    using takeWhile_dropWhile_id [of ?P "rev n"] dw by simp
  then have ds: "drop (Suc (length ?suf)) (rev n) = ds"
    using append_eq_conv_conj [of "?suf @ [CHR ''.'']" ds "rev n"] by simp
  have "n = rev ds @ CHR ''.'' # rev ?suf"
    using arg_cong [OF split, of rev] by simp
  moreover have "CHR ''.'' \<notin> set ?suf"
    by (auto dest: set_takeWhileD)
  ultimately show ?thesis
    using s e suf ds by auto
qed

lemma stem_suffix_append: "name_stem n @ name_suffix n = n"
  using dot_split_append [of n] by (auto simp: name_stem_def name_suffix_def split: option.splits)

lemma dot_split_Some:
  "s \<noteq> [] \<Longrightarrow> x \<noteq> [] \<Longrightarrow> CHR ''.'' \<notin> set x \<Longrightarrow> dot_split (s @ CHR ''.'' # x) = Some (s, CHR ''.'' # x)"
proof -
  assume a: "s \<noteq> []" "x \<noteq> []" "CHR ''.'' \<notin> set x"
  have "takeWhile (\<lambda>c. c \<noteq> CHR ''.'') (rev x @ CHR ''.'' # rev s) = rev x"
    using a by (subst takeWhile_append2) auto
  with a show ?thesis
    by (simp add: dot_split_def Let_def)
qed

lemma name_suffix_append [simp]:
  "s \<noteq> [] \<Longrightarrow> x \<noteq> [] \<Longrightarrow> CHR ''.'' \<notin> set x \<Longrightarrow> name_suffix (s @ CHR ''.'' # x) = CHR ''.'' # x"
  by (simp add: name_suffix_def dot_split_Some)

lemma name_stem_append [simp]:
  "s \<noteq> [] \<Longrightarrow> x \<noteq> [] \<Longrightarrow> CHR ''.'' \<notin> set x \<Longrightarrow> name_stem (s @ CHR ''.'' # x) = s"
  by (simp add: name_stem_def dot_split_Some)

subsection \<open>Directory trees\<close>

datatype fs =
    File (is_link: bool) (contents: string)
  | Dir (entries: "(string \<times> fs) list")

fun fs_lookup :: "fs \<Rightarrow> path \<Rightarrow> fs option" where
  "fs_lookup t [] = Some t"
| "fs_lookup (File l c) (x # xs) = None"
| "fs_lookup (Dir es) (x # xs) =
     (case map_of es x of None \<Rightarrow> None | Some t \<Rightarrow> fs_lookup t xs)"

definition fs_exists :: "fs \<Rightarrow> path \<Rightarrow> bool" where
  "fs_exists t p \<longleftrightarrow> fs_lookup t p \<noteq> None"

definition fs_is_file :: "fs \<Rightarrow> path \<Rightarrow> bool" where
  "fs_is_file t p \<longleftrightarrow> (case fs_lookup t p of Some (File _ _) \<Rightarrow> True | _ \<Rightarrow> False)"

definition fs_is_dir :: "fs \<Rightarrow> path \<Rightarrow> bool" where
  "fs_is_dir t p \<longleftrightarrow> (case fs_lookup t p of Some (Dir _) \<Rightarrow> True | _ \<Rightarrow> False)"

text \<open>\<^verbatim>\<open>os.listdir(p)\<close> and \<^verbatim>\<open>p.iterdir()\<close>: a missing path or a file raises.\<close>

definition listdir :: "fs \<Rightarrow> path \<Rightarrow> string list res" where
  "listdir t p = (case fs_lookup t p of
      Some (Dir es) \<Rightarrow> Inr (map fst es)
    | Some (File _ _) \<Rightarrow> Inl OSError
    | None \<Rightarrow> Inl FileNotFoundError)"

text \<open>All proper descendants, parents before children, as paths relative to the tree.\<close>

fun descendants :: "fs \<Rightarrow> path list" where
  "descendants (File l c) = []"
| "descendants (Dir es) = concat (map (\<lambda>(n, t). [n] # map ((#) n) (descendants t)) es)"

text \<open>\<^verbatim>\<open>p.rglob("*.ext")\<close>: every descendant, file or directory, whose name ends with the extension.\<close>

definition rglob_ext :: "fs \<Rightarrow> path \<Rightarrow> string \<Rightarrow> path list" where
  "rglob_ext t p ext =
     (case fs_lookup t p of None \<Rightarrow> []
      | Some d \<Rightarrow> map ((@) p) (filter (\<lambda>q. ends_with (path_name q) ext) (descendants d)))"

text \<open>\<^verbatim>\<open>os.walk(p)\<close>, top-down: each directory with the names of the files directly in it.\<close>

fun walk :: "path \<Rightarrow> fs \<Rightarrow> (path \<times> string list) list" where
  "walk p (File l c) = []"
| "walk p (Dir es) =
     (p, map fst (filter (\<lambda>(n, t). \<not> (case t of Dir _ \<Rightarrow> True | File _ _ \<Rightarrow> False)) es)) #
     concat (map (\<lambda>(n, t). walk (p @ [n]) t) es)"

text \<open>A directory tree is well formed when no directory lists a name twice.\<close>

fun fs_wf :: "fs \<Rightarrow> bool" where
  "fs_wf (File l c) = True"
| "fs_wf (Dir es) = (distinct (map fst es) \<and> list_all (\<lambda>(n, t). n \<noteq> [] \<and> fs_wf t) es)"

lemma fs_lookup_append:
  "fs_lookup t (p @ q) = (case fs_lookup t p of None \<Rightarrow> None | Some d \<Rightarrow> fs_lookup d q)"
proof (induction t p rule: fs_lookup.induct)
  case (1 t)
  then show ?case by (simp split: option.splits)
qed (auto split: option.splits)

lemma fs_lookup_wf: "fs_wf t \<Longrightarrow> fs_lookup t p = Some d \<Longrightarrow> fs_wf d"
  by (induction t p rule: fs_lookup.induct)
    (auto simp: list_all_iff split: option.splits dest!: map_of_SomeD)

lemma descendants_iff:
  "fs_wf t \<Longrightarrow> q \<in> set (descendants t) \<longleftrightarrow> q \<noteq> [] \<and> fs_lookup t q \<noteq> None"
proof (induction t arbitrary: q)
  case (Dir es)
  have wf: "distinct (map fst es)" "\<And>n t. (n, t) \<in> set es \<Longrightarrow> fs_wf t"
    using Dir.prems by (auto simp: list_all_iff)
  have IH: "\<And>n t q. (n, t) \<in> set es \<Longrightarrow> q \<in> set (descendants t) \<longleftrightarrow> q \<noteq> [] \<and> fs_lookup t q \<noteq> None"
    using Dir.IH wf(2) by fastforce
  show ?case
  proof (cases q)
    case (Cons n r)
    have "q \<in> set (descendants (Dir es)) \<longleftrightarrow>
        (\<exists>t. (n, t) \<in> set es \<and> (r = [] \<or> r \<in> set (descendants t)))"
      using Cons by fastforce
    also have "\<dots> \<longleftrightarrow> (\<exists>t. (n, t) \<in> set es \<and> fs_lookup t r \<noteq> None)"
      using IH by (metis fs_lookup.simps(1) option.distinct(1))
    also have "\<dots> \<longleftrightarrow> (\<exists>t. map_of es n = Some t \<and> fs_lookup t r \<noteq> None)"
      using wf(1) by (simp add: map_of_eq_Some_iff)
    also have "\<dots> \<longleftrightarrow> fs_lookup (Dir es) q \<noteq> None"
      using Cons by (auto split: option.splits)
    finally show ?thesis
      using Cons by blast
  qed auto
next
  case (File l c)
  then show ?case by (cases q) auto
qed

theorem rglob_ext_iff:
  "fs_wf t \<Longrightarrow> q \<in> set (rglob_ext t p ext) \<longleftrightarrow>
     in_parents p q \<and> fs_exists t q \<and> fs_exists t p \<and> ends_with (path_name (drop (length p) q)) ext"
  by (cases "fs_lookup t p")
    (auto simp: rglob_ext_def fs_exists_def in_parents_strict_prefix strict_prefix_def
      prefix_def descendants_iff fs_lookup_wf fs_lookup_append split: option.splits)

text \<open>The files that \<^verbatim>\<open>os.walk\<close> reports are those the tree has.\<close>

lemma walk_iff:
  "fs_wf t \<Longrightarrow> (\<exists>fs. (q, fs) \<in> set (walk p t) \<and> f \<in> set fs) \<longleftrightarrow> (\<exists>r. q = p @ r \<and> fs_is_file t (r @ [f]))"
proof (induction t arbitrary: p)
  case (File l s)
  have "\<not> fs_is_file (File l s) (r @ [f])" for r by (cases r) (simp_all add: fs_is_file_def)
  then show ?case by simp
next
  case (Dir es)
  have wf: "distinct (map fst es)" using Dir.prems by simp
  have IH: "(\<exists>fs. (q, fs) \<in> set (walk (p @ [n]) c) \<and> f \<in> set fs) \<longleftrightarrow>
      (\<exists>r. q = p @ n # r \<and> fs_is_file c (r @ [f]))" if "(n, c) \<in> set es" for n c
    using Dir.IH [OF that, of c "p @ [n]"] Dir.prems that by (auto simp: list_all_iff)
  have "(\<exists>fs. (q, fs) \<in> set (walk p (Dir es)) \<and> f \<in> set fs) \<longleftrightarrow>
      q = p \<and> (\<exists>c. (f, c) \<in> set es \<and> \<not> (case c of Dir _ \<Rightarrow> True | File _ _ \<Rightarrow> False)) \<or>
      (\<exists>n c fs. (n, c) \<in> set es \<and> (q, fs) \<in> set (walk (p @ [n]) c) \<and> f \<in> set fs)"
    by force
  also have "(\<exists>c. (f, c) \<in> set es \<and> \<not> (case c of Dir _ \<Rightarrow> True | File _ _ \<Rightarrow> False)) \<longleftrightarrow> fs_is_file (Dir es) [f]"
    unfolding map_of_eq_Some_iff [OF wf, symmetric] by (auto simp: fs_is_file_def split: option.splits fs.splits)
  also have "(\<exists>n c fs. (n, c) \<in> set es \<and> (q, fs) \<in> set (walk (p @ [n]) c) \<and> f \<in> set fs) \<longleftrightarrow>
      (\<exists>n c r. (n, c) \<in> set es \<and> q = p @ n # r \<and> fs_is_file c (r @ [f]))"
    using IH by blast
  also have "(q = p \<and> fs_is_file (Dir es) [f] \<or>
      (\<exists>n c r. (n, c) \<in> set es \<and> q = p @ n # r \<and> fs_is_file c (r @ [f]))) \<longleftrightarrow>
      (\<exists>r. q = p @ r \<and> fs_is_file (Dir es) (r @ [f]))"
  proof -
    have step: "fs_is_file (Dir es) (n # r @ [f]) \<longleftrightarrow> (\<exists>c. (n, c) \<in> set es \<and> fs_is_file c (r @ [f]))" for n r
      unfolding map_of_eq_Some_iff [OF wf, symmetric] by (auto simp: fs_is_file_def split: option.splits fs.splits)
    have ex: "(\<exists>r. P r) \<longleftrightarrow> P [] \<or> (\<exists>n r. P (n # r))" for P :: "path \<Rightarrow> bool"
      by (metis list.exhaust)
    show ?thesis
      unfolding ex [of "\<lambda>r. q = p @ r \<and> fs_is_file (Dir es) (r @ [f])"] append.simps append_Nil2 step by blast
  qed
  finally show ?case .
qed

end
