(* ===== verification/Stubsabot_Release.thy ===== *)
theory Stubsabot_Release
  imports External Py_Path "HOL-Library.Multiset"
begin

section \<open>stubsabot: releases on PyPI and version specifiers\<close>

text \<open>
  \<^verbatim>\<open>src/scripts/stubsabot.py\<close>, lines 33 to 233: the action levels, the metadata of a stubs
  distribution, the releases PyPI lists for it, the search for the first release that ships
  \<^verbatim>\<open>py.typed\<close>, and the computation of an updated version specifier. Versions and specifiers are those
  of a \<open>packaging\<close> parameter. A downloaded archive is the list of the member names that the web
  parameter \<open>names\<close> gives for its URL.
\<close>

subsection \<open>Action levels\<close>

datatype action_level = Nothing | Local | Fork | Everything

primrec level_value :: "action_level \<Rightarrow> nat" where
  "level_value Nothing = 0"
| "level_value Local = 1"
| "level_value Fork = 2"
| "level_value Everything = 3"

lemma level_value_inject [simp]: "level_value a = level_value b \<longleftrightarrow> a = b"
  by (cases a; cases b) auto

instantiation action_level :: linorder
begin

definition less_eq_action_level :: "action_level \<Rightarrow> action_level \<Rightarrow> bool" where
  "less_eq_action_level a b \<longleftrightarrow> level_value a \<le> level_value b"

definition less_action_level :: "action_level \<Rightarrow> action_level \<Rightarrow> bool" where
  "less_action_level a b \<longleftrightarrow> level_value a < level_value b"

instance
  by standard (auto simp: less_eq_action_level_def less_action_level_def)

end

definition from_cmd_arg :: "string \<Rightarrow> action_level res" where
  "from_cmd_arg arg =
     (case map_of [(''nothing'', Nothing), (''local'', Local), (''fork'', Fork),
                   (''everything'', Everything)] arg of
        Some l \<Rightarrow> Inr l
      | None \<Rightarrow> Inl ArgumentTypeError)"

subsection \<open>Stub metadata\<close>

record StubInfo =
  distribution :: string
  version_spec :: string
  obsolete :: bool
  no_longer_updated :: bool

text \<open>
  The table is what \<^verbatim>\<open>tomli.load\<close> gives for the distribution's \<^verbatim>\<open>METADATA.toml\<close>. A version that is
  not a string is refused here; in the script it fails at its first use as one.
\<close>

definition read_typeshed_stub_metadata :: "string \<Rightarrow> toml_table \<Rightarrow> StubInfo res" where
  "read_typeshed_stub_metadata name meta =
     bind_res (dict_item meta ''version'') (\<lambda>v.
       if is_TStr v
       then Inr \<lparr>distribution = name, version_spec = the_str v,
              obsolete = (map_of meta ''obsolete_since'' \<noteq> None),
              no_longer_updated = truthy (dict_get meta ''no_longer_updated'' (TBool False))\<rparr>
       else Inl TypeError)"

subsection \<open>Releases\<close>

type_synonym release_download = "(string, string) dict"

record 'v PypiReleaseDownload =
  url :: string
  packagetype :: string
  filename :: string
  version :: 'v
  upload_date :: string

definition best_effort_version :: "'v packaging \<Rightarrow> string \<Rightarrow> 'v res" where
  "best_effort_version pk s =
     (case Version pk s of
        Inr v \<Rightarrow> Inr v
      | Inl _ \<Rightarrow>
          (case Version pk (replace_all ''-'' ''+'' s) of
             Inr v \<Rightarrow> Inr v
           | Inl _ \<Rightarrow> Version pk ''0''))"

text \<open>
  \<^verbatim>\<open>datetime.fromisoformat\<close> on the form of PyPI's \<^verbatim>\<open>upload_time\<close>, \<^verbatim>\<open>YYYY-MM-DDTHH:MM:SS\<close>; the date
  part is what \<^verbatim>\<open>.date().isoformat()\<close> prints.
\<close>

definition iso_shape :: "string \<Rightarrow> bool" where
  "iso_shape s \<longleftrightarrow> list_all2 (\<lambda>c p. if p = CHR ''d'' then is_digit c else c = p) s ''dddd-dd-ddTdd:dd:dd''"

definition fromisoformat :: "string \<Rightarrow> string res" where
  "fromisoformat s = (if iso_shape s then Inr s else Inl ValueError)"

definition iso_date :: "string \<Rightarrow> string" where
  "iso_date s = take 10 s"

record PypiInfo =
  pypi_distribution :: string
  pypi_root :: string
  releases :: "(string, release_download list) dict"
  info_version :: string
  info_project_urls :: "(string, string) dict option option"

text \<open>
  \<^verbatim>\<open>PypiInfo.get_release\<close>. \<^verbatim>\<open>sorted\<close> is stable and sorts on a truth value, false before true, and the
  last element is taken.
\<close>

definition get_release ::
  "'v packaging \<Rightarrow> PypiInfo \<Rightarrow> string \<Rightarrow> 'v PypiReleaseDownload res" where
  "get_release pk info v =
     bind_res (dict_item (releases info) v) (\<lambda>files.
     bind_res (map_res (\<lambda>x. dict_item x ''packagetype'') files) (\<lambda>_.
     let release_sorted = sort_key (\<lambda>x. map_of x ''packagetype'' = Some ''bdist_wheel'') files in
     if release_sorted = [] then Inl IndexError
     else let release_info = last release_sorted in
       bind_res (dict_item release_info ''url'') (\<lambda>u.
       bind_res (dict_item release_info ''packagetype'') (\<lambda>pt.
       bind_res (dict_item release_info ''filename'') (\<lambda>fn.
       bind_res (Version pk v) (\<lambda>ver.
       bind_res (dict_item release_info ''upload_time'') (\<lambda>ut.
       bind_res (fromisoformat ut) (\<lambda>ud.
         Inr \<lparr>url = u, packagetype = pt, filename = fn, version = ver, upload_date = ud\<rparr>))))))))"

definition get_latest_release ::
  "'v packaging \<Rightarrow> PypiInfo \<Rightarrow> 'v PypiReleaseDownload res" where
  "get_latest_release pk info = get_release pk info (info_version info)"

text \<open>
  The order in which \<^verbatim>\<open>releases_in_descending_order\<close> yields: \<^verbatim>\<open>sorted(..., reverse=True)\<close> keeps the
  order of equal keys, so it is the reverse of the stable sort of the reversed list.
\<close>

definition versions_in_descending_order ::
  "('v::linorder) packaging \<Rightarrow> PypiInfo \<Rightarrow> string list res" where
  "versions_in_descending_order pk info =
     bind_res (map_res (\<lambda>s. bind_res (best_effort_version pk s) (\<lambda>v. Inr (v, s))) (dict_keys (releases info)))
       (\<lambda>vs. Inr (map snd (rev (sort_key fst (rev vs)))))"

text \<open>One \<^verbatim>\<open>next\<close> of the filtered generator: the next release that is not a pre-release.\<close>

fun next_release ::
  "'v packaging \<Rightarrow> PypiInfo \<Rightarrow> string list \<Rightarrow> ('v PypiReleaseDownload \<times> string list) res" where
  "next_release pk info [] = Inl StopIteration"
| "next_release pk info (v # vs) =
     bind_res (get_release pk info v) (\<lambda>r.
       if is_prerelease pk (version r) then next_release pk info vs else Inr (r, vs))"

subsection \<open>py.typed\<close>

definition contains_py_typed :: "string list \<Rightarrow> bool" where
  "contains_py_typed members \<longleftrightarrow>
     (\<exists>f \<in> set members. path_name (path_of f) = ''py.typed'')"

definition release_contains_py_typed ::
  "(string \<Rightarrow> string list) \<Rightarrow> 'v PypiReleaseDownload \<Rightarrow> bool res" where
  "release_contains_py_typed names r =
     (if packagetype r = ''bdist_wheel''
      then bind_res (assert_res (ends_with (filename r) ''.whl'')) (\<lambda>_.
             Inr (contains_py_typed (names (url r))))
      else if packagetype r = ''sdist''
      then bind_res (assert_res (ends_with (filename r) ''.tar.gz'')) (\<lambda>_.
             Inr (contains_py_typed (names (url r))))
      else Inl AssertionError)"

text \<open>
  The \<^verbatim>\<open>while\<close> loop of \<^verbatim>\<open>find_first_release_with_py_typed\<close>: \<open>r\<close> is the release found so far and
  \<open>vs\<close> what the generator has left. A \<^verbatim>\<open>StopIteration\<close> that leaves a coroutine arrives as a
  \<^verbatim>\<open>RuntimeError\<close>.
\<close>

function py_typed_loop ::
  "'v packaging \<Rightarrow> (string \<Rightarrow> string list) \<Rightarrow> PypiInfo \<Rightarrow> string list \<Rightarrow>
     'v PypiReleaseDownload \<Rightarrow> 'v PypiReleaseDownload res" where
  "py_typed_loop pk names info vs r =
     (case next_release pk info vs of
        Inl e \<Rightarrow> Inl e
      | Inr (r', vs') \<Rightarrow>
          (case release_contains_py_typed names r' of
             Inl e \<Rightarrow> Inl e
           | Inr True \<Rightarrow> py_typed_loop pk names info vs' r'
           | Inr False \<Rightarrow> Inr r))"
  by pat_completeness auto

lemma next_release_shorter:
  "next_release pk info vs = Inr (r, vs') \<Longrightarrow> length vs' < length vs"
  by (induction vs) (auto simp: py_res less_Suc_eq split: if_splits)

termination py_typed_loop
  by (relation "measure (\<lambda>(pk, names, info, vs, r). length vs)") (auto dest: next_release_shorter)

declare py_typed_loop.simps [simp del]

definition coroutine :: "'a res \<Rightarrow> 'a res" where
  "coroutine r = (case r of Inl StopIteration \<Rightarrow> Inl RuntimeError | _ \<Rightarrow> r)"

definition find_first_release_with_py_typed ::
  "('v::linorder) packaging \<Rightarrow> (string \<Rightarrow> string list) \<Rightarrow> PypiInfo \<Rightarrow>
     'v PypiReleaseDownload option res" where
  "find_first_release_with_py_typed pk names info =
     coroutine (
       bind_res (versions_in_descending_order pk info) (\<lambda>vs.
       bind_res (next_release pk info vs) (\<lambda>(latest_release, vs').
       bind_res (release_contains_py_typed names latest_release) (\<lambda>typed.
         if \<not> typed then Inr None
         else bind_res (py_typed_loop pk names info vs' latest_release) (\<lambda>r. Inr (Some r))))))"

subsection \<open>Updated version specifiers\<close>

definition check_spec :: "'v packaging \<Rightarrow> string \<Rightarrow> 'v \<Rightarrow> string res" where
  "check_spec pk updated_spec v =
     bind_res (SpecifierSet pk (''=='' @ updated_spec)) (\<lambda>f.
     bind_res (assert_res (f v)) (\<lambda>_. Inr updated_spec))"

definition get_updated_version_spec :: "'v packaging \<Rightarrow> string \<Rightarrow> 'v \<Rightarrow> string res" where
  "get_updated_version_spec pk spec v =
     (if \<not> ends_with spec ''.*'' then check_spec pk (base_version pk v) v
      else
        let specificity = (if remove_suffix spec ''.*'' \<noteq> [] then count_list spec CHR ''.'' else 0);
            rounded = take specificity (split_on CHR ''.'' (base_version pk v));
            rounded' = rounded @ replicate (specificity - length rounded) ''0''
        in check_spec pk (join_with ''.'' rounded' @ ''.*'') v)"

section \<open>Properties\<close>

subsection \<open>Release selection\<close>

lemma sort_key_bool:
  fixes P :: "'a \<Rightarrow> bool"
  shows "sort_key P xs = filter (\<lambda>x. \<not> P x) xs @ filter P xs"
proof (rule properties_for_sort_key)
  show "mset (filter (\<lambda>x. \<not> P x) xs @ filter P xs) = mset xs"
    by (induction xs) auto
  show "filter (\<lambda>y. P k = P y) (filter (\<lambda>x. \<not> P x) xs @ filter P xs) = filter (\<lambda>y. P k = P y) xs"
    for k by (cases "P k") (simp_all add: conj_commute cong: conj_cong)
  have "map P (filter (\<lambda>x. \<not> P x) xs @ filter P xs) =
      replicate (length (filter (\<lambda>x. \<not> P x) xs)) False @ replicate (length (filter P xs)) True"
    by (simp add: map_replicate_const [symmetric] cong: map_cong)
  then show "sorted (map P (filter (\<lambda>x. \<not> P x) xs @ filter P xs))"
    by (simp only:) (auto simp: sorted_append)
qed

lemma last_sort_key_bool:
  fixes P :: "'a \<Rightarrow> bool"
  assumes "xs \<noteq> []"
  shows "last (sort_key P xs) = (if filter P xs \<noteq> [] then last (filter P xs) else last xs)"
proof (cases "filter P xs = []")
  case True
  then have "filter (\<lambda>x. \<not> P x) xs = xs"
    by (simp add: filter_empty_conv)
  with True show ?thesis by (simp add: sort_key_bool)
next
  case False
  then show ?thesis by (simp add: sort_key_bool)
qed

text \<open>C8: Of the files of a release, \<^verbatim>\<open>get_release\<close> returns the last wheel, and the last file when
  there is no wheel; it never invents a field.\<close>

theorem get_release_prefers_wheel:
  assumes "get_release pk info v = Inr r"
  shows "\<exists>files. map_of (releases info) v = Some files \<and> files \<noteq> [] \<and>
    (let wheels = filter (\<lambda>x. map_of x ''packagetype'' = Some ''bdist_wheel'') files;
         chosen = (if wheels \<noteq> [] then last wheels else last files)
     in chosen \<in> set files \<and>
        map_of chosen ''url'' = Some (url r) \<and> map_of chosen ''packagetype'' = Some (packagetype r) \<and>
        map_of chosen ''filename'' = Some (filename r) \<and>
        map_of chosen ''upload_time'' = Some (upload_date r) \<and>
        parse_version pk v = Some (version r) \<and>
        (packagetype r = ''bdist_wheel'' \<longleftrightarrow> wheels \<noteq> []))"
proof -
  let ?wheel = "\<lambda>x. map_of x ''packagetype'' = Some ''bdist_wheel''"
  obtain files where files: "map_of (releases info) v = Some files" "files \<noteq> []"
    and r: "let c = last (sort_key ?wheel files) in
       map_of c ''url'' = Some (url r) \<and> map_of c ''packagetype'' = Some (packagetype r) \<and>
       map_of c ''filename'' = Some (filename r) \<and> map_of c ''upload_time'' = Some (upload_date r) \<and>
       parse_version pk v = Some (version r)"
    using assms unfolding get_release_def fromisoformat_def Let_def
    by (clarsimp simp: bind_res_eq_Inr dict_item_eq Version_eq split: if_split_asm)
      (use length_sort in force)
  let ?c = "if filter ?wheel files \<noteq> [] then last (filter ?wheel files) else last files"
  have c: "last (sort_key ?wheel files) = ?c"
    by (rule last_sort_key_bool [OF files(2)])
  have wheel: "?wheel ?c \<longleftrightarrow> filter ?wheel files \<noteq> []"
  proof (cases "filter ?wheel files = []")
    case True
    then show ?thesis using files(2) by (simp add: filter_empty_conv)
  next
    case False
    then have "last (filter ?wheel files) \<in> set (filter ?wheel files)" by (rule last_in_set)
    with False show ?thesis by simp
  qed
  have "?c \<in> set files"
    using files(2) last_in_set [of "filter ?wheel files"] last_in_set [of files] by auto
  with files r wheel show ?thesis
    unfolding Let_def c by auto
qed

text \<open>
  A release without files, which PyPI lists after its files have been deleted, cannot be looked at; nor can one whose version
  is not valid, although the order of the releases provides for such versions.
\<close>

lemma get_release_no_files: "map_of (releases info) v = Some [] \<Longrightarrow> get_release pk info v = Inl IndexError"
  by (simp add: get_release_def dict_item_def)

lemma get_release_invalid_version:
  assumes "parse_version pk v = None"
  shows "get_release pk info v \<noteq> Inr r"
proof
  assume "get_release pk info v = Inr r"
  then obtain ver where "Version pk v = Inr ver"
    by (auto simp: get_release_def Let_def bind_res_eq_Inr split: if_splits)
  with assms show False by (simp add: Version_def)
qed

subsection \<open>The search for py.typed\<close>

abbreviation final_release :: "'v packaging \<Rightarrow> 'v PypiReleaseDownload \<Rightarrow> bool" where
  "final_release pk r \<equiv> \<not> is_prerelease pk (version r)"

lemma next_release_spec:
  "map_res (get_release pk info) vs = Inr rs \<Longrightarrow>
     filter (final_release pk) rs = [] \<and> next_release pk info vs = Inl StopIteration \<or>
     (\<exists>r rs' vs'. filter (final_release pk) rs = r # filter (final_release pk) rs' \<and>
        set rs' \<subseteq> set rs \<and>
        next_release pk info vs = Inr (r, vs') \<and> map_res (get_release pk info) vs' = Inr rs')"
proof (induction vs arbitrary: rs)
  case (Cons v vs)
  then obtain r rs1 where rs: "rs = r # rs1" and r: "get_release pk info v = Inr r"
    and rs1: "map_res (get_release pk info) vs = Inr rs1"
    by (auto simp: py_res)
  show ?case
  proof (cases "final_release pk r")
    case True
    with rs r rs1 show ?thesis by auto
  next
    case False
    with rs r Cons.IH [OF rs1] show ?thesis by fastforce
  qed
qed simp

lemma py_typed_loop_spec:
  assumes "map_res (get_release pk info) vs = Inr rs"
    and "\<And>r. r \<in> set rs \<Longrightarrow> final_release pk r \<Longrightarrow> release_contains_py_typed names r = Inr (t r)"
  shows "py_typed_loop pk names info vs r0 =
    (let fs = filter (final_release pk) rs; ty = takeWhile t fs
     in if ty = fs then Inl StopIteration else Inr (last (r0 # ty)))"
  using assms
proof (induction pk names info vs r0 arbitrary: rs rule: py_typed_loop.induct)
  case (1 pk names info vs r0)
  from next_release_spec [OF "1.prems"(1)] show ?case
  proof (elim disjE exE conjE)
    assume "filter (final_release pk) rs = []" "next_release pk info vs = Inl StopIteration"
    then show ?thesis by (simp add: py_typed_loop.simps [of pk names info vs])
  next
    fix r rs' vs'
    assume fs: "filter (final_release pk) rs = r # filter (final_release pk) rs'"
      and sub: "set rs' \<subseteq> set rs"
      and nx: "next_release pk info vs = Inr (r, vs')" and rs': "map_res (get_release pk info) vs' = Inr rs'"
    have "r \<in> set (filter (final_release pk) rs)" using fs by simp
    then have tr: "release_contains_py_typed names r = Inr (t r)" using "1.prems"(2) by simp
    show ?thesis
    proof (cases "t r")
      case True
      have "py_typed_loop pk names info vs' r =
          (let fs = filter (final_release pk) rs'; ty = takeWhile t fs
           in if ty = fs then Inl StopIteration else Inr (last (r # ty)))"
        using "1.IH" [OF nx refl _ _ rs', of True] tr True sub "1.prems"(2)
        by (simp add: subset_iff)
      with True nx tr fs show ?thesis
        by (auto simp: py_typed_loop.simps [of pk names info vs] Let_def)
    next
      case False
      with nx tr fs show ?thesis
        by (simp add: py_typed_loop.simps [of pk names info vs] Let_def)
    qed
  qed
qed

text \<open>C7: When every release can be read, \<^verbatim>\<open>find_first_release_with_py_typed\<close> looks at the final
  releases from the newest to the oldest. It returns nothing when the newest is untyped, and the
  oldest of the unbroken run of typed releases when an untyped one follows. When every final
  release is typed the generator is exhausted, and the call ends in a \<^verbatim>\<open>RuntimeError\<close> instead of the
  oldest release.\<close>

theorem find_first_release_with_py_typed_spec:
  assumes "versions_in_descending_order pk info = Inr vs"
    and "map_res (get_release pk info) vs = Inr rs"
    and "\<And>r. r \<in> set rs \<Longrightarrow> final_release pk r \<Longrightarrow> release_contains_py_typed names r = Inr (t r)"
  shows "find_first_release_with_py_typed pk names info =
    (let fs = filter (final_release pk) rs; typed = takeWhile t fs
     in if fs \<noteq> [] \<and> typed = [] then Inr None
        else if typed = fs then Inl RuntimeError
        else Inr (Some (last typed)))"
  using next_release_spec [OF assms(2)]
proof (elim disjE exE conjE)
  assume "filter (final_release pk) rs = []" "next_release pk info vs = Inl StopIteration"
  with assms(1) show ?thesis
    by (simp add: find_first_release_with_py_typed_def coroutine_def)
next
  fix r rs' vs'
  assume fs: "filter (final_release pk) rs = r # filter (final_release pk) rs'"
    and sub: "set rs' \<subseteq> set rs"
    and nx: "next_release pk info vs = Inr (r, vs')"
    and rs': "map_res (get_release pk info) vs' = Inr rs'"
  have "r \<in> set (filter (final_release pk) rs)" using fs by simp
  then have tr: "release_contains_py_typed names r = Inr (t r)" using assms(3) by simp
  have loop: "py_typed_loop pk names info vs' r =
      (let fs = filter (final_release pk) rs'; ty = takeWhile t fs
       in if ty = fs then Inl StopIteration else Inr (last (r # ty)))"
    using assms(3) sub by (intro py_typed_loop_spec [OF rs']) auto
  show ?thesis
    using assms(1) nx tr loop fs
    by (auto simp: find_first_release_with_py_typed_def coroutine_def Let_def)
qed


subsection \<open>Version specifiers\<close>

lemma count_list_append_simp [simp]: "count_list (xs @ ys) x = count_list xs x + count_list ys x"
  by (induction xs) auto

lemma check_spec_eq_Inr:
  "check_spec pk s v = Inr s' \<longleftrightarrow> s' = s \<and> (\<exists>f. specifier pk (''=='' @ s) = Some f \<and> f v)"
  by (auto simp: check_spec_def py_res)

lemma pad_take_replicate:
  "take n xs @ replicate (n - length (take n xs)) c = take n (xs @ replicate n c)"
  by (cases "length xs \<le> n") (simp_all add: min_def)

lemma get_updated_version_spec_wild:
  assumes "ends_with spec ''.*''" "spec \<noteq> ''.*''"
  shows "get_updated_version_spec pk spec v =
    check_spec pk (join_with ''.''
      (pad_release (count_list spec CHR ''.'') (split_on CHR ''.'' (base_version pk v))) @ ''.*'') v"
proof -
  have "remove_suffix spec ''.*'' \<noteq> []"
    using assms by (auto simp: remove_suffix_def ends_with_def)
  with assms show ?thesis
    unfolding get_updated_version_spec_def Let_def pad_release_def pad_take_replicate by simp
qed

lemma dot_counted: "ends_with spec ''.*'' \<Longrightarrow> 0 < count_list spec CHR ''.''"
  by (auto simp: ends_with_suffix suffix_def)

text \<open>C6: With \<^verbatim>\<open>packaging\<close> matching wildcard specifiers as PEP 440 documents,
  \<^verbatim>\<open>get_updated_version_spec\<close> succeeds on every wildcard specifier: it returns the leading
  components of the new version, padded with zeros, has as many dots as the old specifier, and the
  new version matches it; asked again it returns the same specifier.\<close>

theorem get_updated_version_spec_wildcard:
  assumes "wildcard_match pk v" and "hd (split_on CHR ''.'' (base_version pk v)) \<noteq> []"
    and "ends_with spec ''.*''" and "spec \<noteq> ''.*''"
  shows "\<exists>s. get_updated_version_spec pk spec v = Inr s \<and>
    s = join_with ''.'' (pad_release (count_list spec CHR ''.'') (split_on CHR ''.'' (base_version pk v))) @ ''.*'' \<and>
    count_list s CHR ''.'' = count_list spec CHR ''.'' \<and>
    (\<exists>f. specifier pk (''=='' @ s) = Some f \<and> f v) \<and>
    get_updated_version_spec pk s v = Inr s"
proof -
  let ?n = "count_list spec CHR ''.''"
  let ?cs = "pad_release ?n (split_on CHR ''.'' (base_version pk v))"
  let ?s = "join_with ''.'' ?cs @ ''.*''"
  have n: "0 < ?n" by (rule dot_counted [OF assms(3)])
  have len: "length ?cs = ?n" by (simp add: pad_release_def)
  have no_dot: "CHR ''.'' \<notin> set c" if "c \<in> set ?cs" for c
  proof -
    have "c \<in> set (split_on CHR ''.'' (base_version pk v)) \<or> c = ''0''"
      using that unfolding pad_release_def by (auto dest!: in_set_takeD)
    then show ?thesis by (auto dest: sep_notin_split_on)
  qed
  have dots: "count_list ?s CHR ''.'' = ?n"
    using count_list_join_with [of ?cs "CHR ''.''", OF no_dot] len n by simp
  obtain f where f: "specifier pk (''=='' @ ?s) = Some f" "f v"
    using assms(1) n unfolding wildcard_match_def by auto
  have "hd ?cs = hd (split_on CHR ''.'' (base_version pk v))"
    using n by (simp add: pad_release_def hd_append)
  then have "join_with ''.'' ?cs \<noteq> []"
    using assms(2) len n by (cases ?cs; cases "tl ?cs") auto
  then have "get_updated_version_spec pk ?s v = check_spec pk ?s v"
    using get_updated_version_spec_wild [of ?s pk v] dots by simp
  then have "get_updated_version_spec pk ?s v = Inr ?s"
    using f by (simp add: check_spec_eq_Inr)
  moreover have "get_updated_version_spec pk spec v = Inr ?s"
    using f by (simp add: get_updated_version_spec_wild [OF assms(3,4)] check_spec_eq_Inr)
  ultimately show ?thesis
    using f dots by blast
qed

text \<open>The examples of the docstring, at the concrete instance of \<^verbatim>\<open>packaging\<close>.\<close>

theorem get_updated_version_spec_wildcard_witness:
  "get_updated_version_spec simple_packaging ''1.1.1.1.*'' [1, 2, 3] = Inr ''1.2.3.0.*''"
proof -
  have b: "split_on CHR ''.'' (base_version simple_packaging [1, 2, 3]) = [''1'', ''2'', ''3'']"
    by code_simp
  have "wildcard_match simple_packaging [1, 2, 3]"
    by (rule simple_wildcard_match) simp
  moreover have "ends_with ''1.1.1.1.*'' ''.*''"
    by code_simp
  ultimately show ?thesis
    using get_updated_version_spec_wildcard [of simple_packaging "[1, 2, 3]" "''1.1.1.1.*''"] b
    by (simp add: pad_release_def eval_nat_numeral)
qed

subsection \<open>Concrete releases\<close>

definition ex_file :: "string \<Rightarrow> string \<Rightarrow> release_download" where
  "ex_file pt u =
     [(''packagetype'', pt), (''url'', u),
      (''filename'', u @ (if pt = ''bdist_wheel'' then ''.whl'' else ''.tar.gz'')),
      (''upload_time'', ''2023-05-01T10:00:00'')]"

definition ex_info :: PypiInfo where
  "ex_info =
     \<lparr>pypi_distribution = ''foo'', pypi_root = ''https://pypi.org/pypi/foo'',
      releases = [(''1.0'', [ex_file ''sdist'' ''u1'']),
                  (''3.0'', [ex_file ''bdist_wheel'' ''u3w'', ex_file ''sdist'' ''u3s'']),
                  (''2.0'', [ex_file ''sdist'' ''u2''])],
      info_version = ''3.0'', info_project_urls = Some None\<rparr>"

definition ex_names :: "string \<Rightarrow> string list" where
  "ex_names u = (if u = ''u1'' then [''foo/a.py''] else [''foo/a.py'', ''foo/py.typed''])"

definition ex_release :: "string \<Rightarrow> string \<Rightarrow> nat \<Rightarrow> nat list PypiReleaseDownload" where
  "ex_release pt u major =
     \<lparr>url = u, packagetype = pt, filename = u @ (if pt = ''bdist_wheel'' then ''.whl'' else ''.tar.gz''),
      version = [major, 0], upload_date = ''2023-05-01T10:00:00''\<rparr>"

lemma ex_descending:
  "versions_in_descending_order simple_packaging ex_info = Inr [''3.0'', ''2.0'', ''1.0'']"
  by code_simp

lemma ex_releases:
  "map_res (get_release simple_packaging ex_info) [''3.0'', ''2.0'', ''1.0''] =
     Inr [ex_release ''bdist_wheel'' ''u3w'' 3, ex_release ''sdist'' ''u2'' 2, ex_release ''sdist'' ''u1'' 1]"
  by code_simp

lemma ex_typed:
  "release_contains_py_typed ex_names (ex_release ''bdist_wheel'' ''u3w'' 3) = Inr True"
  "release_contains_py_typed ex_names (ex_release ''sdist'' ''u2'' 2) = Inr True"
  "release_contains_py_typed ex_names (ex_release ''sdist'' ''u1'' 1) = Inr False"
  by code_simp+

theorem find_first_release_with_py_typed_spec_witness:
  "find_first_release_with_py_typed simple_packaging ex_names ex_info =
     Inr (Some (ex_release ''sdist'' ''u2'' 2))"
proof -
  have "find_first_release_with_py_typed simple_packaging ex_names ex_info =
    (let fs = filter (final_release simple_packaging)
         [ex_release ''bdist_wheel'' ''u3w'' 3, ex_release ''sdist'' ''u2'' 2, ex_release ''sdist'' ''u1'' 1];
         typed = takeWhile (\<lambda>r. url r \<noteq> ''u1'') fs
     in if fs \<noteq> [] \<and> typed = [] then Inr None
        else if typed = fs then Inl RuntimeError
        else Inr (Some (last typed)))"
    using ex_typed
    by (intro find_first_release_with_py_typed_spec [OF ex_descending ex_releases])
      (auto simp: ex_release_def)
  then show ?thesis
    by (simp add: ex_release_def)
qed


theorem get_release_prefers_wheel_witness:
  "\<exists>files. map_of (releases ex_info) ''3.0'' = Some files \<and> files \<noteq> [] \<and>
     last (filter (\<lambda>x. map_of x ''packagetype'' = Some ''bdist_wheel'') files) \<in> set files"
proof -
  have "get_release simple_packaging ex_info ''3.0'' = Inr (ex_release ''bdist_wheel'' ''u3w'' 3)"
    by code_simp
  from get_release_prefers_wheel [OF this] show ?thesis
    by (auto simp: Let_def ex_release_def split: if_splits)
qed

end
