(* ===== verification/Py_Regex.thy ===== *)
theory Py_Regex
  imports Py_Prelude
begin

section \<open>Regular expressions as Python's re module runs them\<close>

text \<open>
  The scripts use a dozen regular expressions. They are all built from character classes, greedy
  and lazy repetition of a class, alternation, groups, the end anchor and (in one place) the
  multi-line start anchor. \<open>runs\<close> lists the ways a pattern can match at a position in the order in
  which a backtracking engine tries them, so the first element is the match Python reports:
  \<open>re_match\<close>, \<open>re_fullmatch\<close>, \<open>re_search\<close> and \<open>re_sub\<close> are defined from it.
  \<open>accepts\<close> is the declarative reading of a pattern, and \<open>runs_iff_accepts\<close> shows that the engine
  finds exactly the declared matches. \<open>lang\<close> is the language of an anchor-free pattern.
\<close>

subsection \<open>Patterns and the engine\<close>

datatype regex =
    Eps
  | Chars "char \<Rightarrow> bool"
  | Seq regex regex
  | Alt regex regex
  | Many "char \<Rightarrow> bool"
  | ManyLazy "char \<Rightarrow> bool"
  | Group nat regex
  | EndAnchor
  | LineStart

text \<open>A position: the text before it, reversed, and the text after it.\<close>

type_synonym pos = "string \<times> string"
type_synonym caps = "(nat, string) dict"

fun greedy :: "(char \<Rightarrow> bool) \<Rightarrow> string \<Rightarrow> string \<Rightarrow> pos list" where
  "greedy P b [] = [(b, [])]"
| "greedy P b (x # xs) = (if P x then greedy P (x # b) xs else []) @ [(b, x # xs)]"

fun lazy :: "(char \<Rightarrow> bool) \<Rightarrow> string \<Rightarrow> string \<Rightarrow> pos list" where
  "lazy P b [] = [(b, [])]"
| "lazy P b (x # xs) = (b, x # xs) # (if P x then lazy P (x # b) xs else [])"

primrec runs :: "regex \<Rightarrow> pos \<Rightarrow> caps \<Rightarrow> (pos \<times> caps) list" where
  "runs Eps p cs = [(p, cs)]"
| "runs (Chars P) p cs =
     (case snd p of [] \<Rightarrow> [] | x # xs \<Rightarrow> if P x then [((x # fst p, xs), cs)] else [])"
| "runs (Seq r s) p cs = concat (map (\<lambda>(p', cs'). runs s p' cs') (runs r p cs))"
| "runs (Alt r s) p cs = runs r p cs @ runs s p cs"
| "runs (Many P) p cs = map (\<lambda>p'. (p', cs)) (greedy P (fst p) (snd p))"
| "runs (ManyLazy P) p cs = map (\<lambda>p'. (p', cs)) (lazy P (fst p) (snd p))"
| "runs (Group i r) p cs =
     map (\<lambda>(p', cs'). (p', AList.update i (take (length (snd p) - length (snd p')) (snd p)) cs'))
       (runs r p cs)"
| "runs EndAnchor p cs =
     (if snd p = [] \<or> snd p = [CHR 0x0A] then [(p, cs)] else [])"
| "runs LineStart p cs =
     (if fst p = [] \<or> hd (fst p) = CHR 0x0A then [(p, cs)] else [])"

text \<open>Derived forms.\<close>

definition Opt :: "regex \<Rightarrow> regex" where
  "Opt r = Alt r Eps"

definition Plus :: "(char \<Rightarrow> bool) \<Rightarrow> regex" where
  "Plus P = Seq (Chars P) (Many P)"

fun lit :: "string \<Rightarrow> regex" where
  "lit [] = Eps"
| "lit (c # cs) = Seq (Chars (\<lambda>x. x = c)) (lit cs)"

text \<open>The entry points. A match gives the text it covers and the captured groups.\<close>

definition re_match :: "regex \<Rightarrow> string \<Rightarrow> (string \<times> caps) option" where
  "re_match r s =
     (case runs r ([], s) [] of [] \<Rightarrow> None
      | ((b, a), cs) # _ \<Rightarrow> Some (rev b, cs))"

definition re_fullmatch :: "regex \<Rightarrow> string \<Rightarrow> caps option" where
  "re_fullmatch r s = map_option snd (find (\<lambda>(p, cs). snd p = []) (runs r ([], s) []))"

fun re_search_from :: "regex \<Rightarrow> string \<Rightarrow> string \<Rightarrow> caps option" where
  "re_search_from r b a =
     (case runs r (b, a) [] of
        (p, cs) # _ \<Rightarrow> Some cs
      | [] \<Rightarrow> (case a of [] \<Rightarrow> None | x # xs \<Rightarrow> re_search_from r (x # b) xs))"

declare re_search_from.simps [simp del]

definition re_search :: "regex \<Rightarrow> string \<Rightarrow> caps option" where
  "re_search r s = re_search_from r [] s"

text \<open>
  \<^verbatim>\<open>re.sub\<close> for a pattern that does not match the empty string: replace the leftmost match and go
  on after it.
\<close>

function re_sub_from :: "regex \<Rightarrow> (caps \<Rightarrow> string) \<Rightarrow> string \<Rightarrow> string \<Rightarrow> string" where
  "re_sub_from r f b [] = []"
| "re_sub_from r f b (x # xs) =
     (case runs r (b, x # xs) [] of
        ((b', a'), cs) # _ \<Rightarrow>
          if length a' < length (x # xs) then f cs @ re_sub_from r f b' a'
          else x # re_sub_from r f (x # b) xs
      | [] \<Rightarrow> x # re_sub_from r f (x # b) xs)"
  by pat_completeness auto
termination
  by (relation "measure (\<lambda>(r, f, b, a). length a)") auto

definition re_sub :: "regex \<Rightarrow> (caps \<Rightarrow> string) \<Rightarrow> string \<Rightarrow> string" where
  "re_sub r f s = re_sub_from r f [] s"

subsection \<open>The declarative reading\<close>

inductive accepts :: "regex \<Rightarrow> string \<Rightarrow> string \<Rightarrow> caps \<Rightarrow> string \<Rightarrow> string \<Rightarrow> caps \<Rightarrow> bool" where
  acc_eps: "accepts Eps b a cs b a cs"
| acc_chars: "P x \<Longrightarrow> accepts (Chars P) b (x # a) cs (x # b) a cs"
| acc_seq: "accepts r b a cs b' a' cs' \<Longrightarrow> accepts s b' a' cs' b'' a'' cs'' \<Longrightarrow>
    accepts (Seq r s) b a cs b'' a'' cs''"
| acc_alt1: "accepts r b a cs b' a' cs' \<Longrightarrow> accepts (Alt r s) b a cs b' a' cs'"
| acc_alt2: "accepts s b a cs b' a' cs' \<Longrightarrow> accepts (Alt r s) b a cs b' a' cs'"
| acc_many: "list_all P w \<Longrightarrow> accepts (Many P) b (w @ a) cs (rev w @ b) a cs"
| acc_lazy: "list_all P w \<Longrightarrow> accepts (ManyLazy P) b (w @ a) cs (rev w @ b) a cs"
| acc_group: "accepts r b (w @ a) cs (rev w @ b) a cs' \<Longrightarrow>
    accepts (Group i r) b (w @ a) cs (rev w @ b) a (AList.update i w cs')"
| acc_end: "a = [] \<or> a = [CHR 0x0A] \<Longrightarrow> accepts EndAnchor b a cs b a cs"
| acc_start: "b = [] \<or> hd b = CHR 0x0A \<Longrightarrow> accepts LineStart b a cs b a cs"

inductive_simps accepts_simps:
  "accepts Eps b a cs b' a' cs'"
  "accepts (Chars P) b a cs b' a' cs'"
  "accepts (Seq r s) b a cs b' a' cs'"
  "accepts (Alt r s) b a cs b' a' cs'"
  "accepts (Many P) b a cs b' a' cs'"
  "accepts (ManyLazy P) b a cs b' a' cs'"
  "accepts (Group i r) b a cs b' a' cs'"
  "accepts EndAnchor b a cs b' a' cs'"
  "accepts LineStart b a cs b' a' cs'"

lemma greedy_iff:
  "(b', a') \<in> set (greedy P b a) \<longleftrightarrow> (\<exists>w. a = w @ a' \<and> b' = rev w @ b \<and> list_all P w)"
proof (induction a arbitrary: b)
  case (Cons x xs)
  then show ?case
    by (auto simp: Cons_eq_append_conv)
qed auto

lemma lazy_iff:
  "(b', a') \<in> set (lazy P b a) \<longleftrightarrow> (\<exists>w. a = w @ a' \<and> b' = rev w @ b \<and> list_all P w)"
proof (induction a arbitrary: b)
  case (Cons x xs)
  then show ?case
    by (auto simp: Cons_eq_append_conv)
qed auto

lemma accepts_consumes: "accepts r b a cs b' a' cs' \<Longrightarrow> \<exists>w. a = w @ a' \<and> b' = rev w @ b"
proof (induction rule: accepts.induct)
  case (acc_seq r b a cs b' a' cs' s b'' a'' cs'')
  then obtain w w' where "a = w @ a'" "b' = rev w @ b" "a' = w' @ a''" "b'' = rev w' @ b'"
    by blast
  then show ?case
    by (intro exI [of _ "w @ w'"]) simp
qed auto

theorem runs_iff_accepts:
  "((b', a'), cs') \<in> set (runs r (b, a) cs) \<longleftrightarrow> accepts r b a cs b' a' cs'"
proof (induction r arbitrary: b a cs b' a' cs')
  case (Chars P)
  then show ?case
    by (cases a) (auto simp: accepts_simps)
next
  case (Seq r s)
  then show ?case
    by (fastforce simp: accepts_simps)
next
  case (Group i r)
  have "((b', a'), cs') \<in> set (runs (Group i r) (b, a) cs) \<longleftrightarrow>
      (\<exists>cs''. accepts r b a cs b' a' cs'' \<and>
        cs' = AList.update i (take (length a - length a') a) cs'')"
    by (auto simp: image_iff split_beta simp flip: Group.IH) force
  also have "\<dots> \<longleftrightarrow> accepts (Group i r) b a cs b' a' cs'"
  proof
    assume "\<exists>cs''. accepts r b a cs b' a' cs'' \<and>
      cs' = AList.update i (take (length a - length a') a) cs''"
    then obtain cs'' where acc: "accepts r b a cs b' a' cs''"
      and cs': "cs' = AList.update i (take (length a - length a') a) cs''"
      by blast
    from acc obtain w where "a = w @ a'" "b' = rev w @ b"
      by (auto dest: accepts_consumes)
    with acc cs' show "accepts (Group i r) b a cs b' a' cs'"
      by (auto intro: acc_group)
  qed (auto simp: accepts_simps(7))
  finally show ?case .
qed (auto simp: accepts_simps greedy_iff lazy_iff)

subsection \<open>Languages of anchor-free patterns\<close>

primrec plain :: "regex \<Rightarrow> bool" where
  "plain Eps = True"
| "plain (Chars P) = True"
| "plain (Seq r s) = (plain r \<and> plain s)"
| "plain (Alt r s) = (plain r \<and> plain s)"
| "plain (Many P) = True"
| "plain (ManyLazy P) = True"
| "plain (Group i r) = plain r"
| "plain EndAnchor = False"
| "plain LineStart = False"

primrec lang :: "regex \<Rightarrow> string \<Rightarrow> bool" where
  "lang Eps w = (w = [])"
| "lang (Chars P) w = (\<exists>c. w = [c] \<and> P c)"
| "lang (Seq r s) w = (\<exists>u v. w = u @ v \<and> lang r u \<and> lang s v)"
| "lang (Alt r s) w = (lang r w \<or> lang s w)"
| "lang (Many P) w = list_all P w"
| "lang (ManyLazy P) w = list_all P w"
| "lang (Group i r) w = lang r w"
| "lang EndAnchor w = (w = [])"
| "lang LineStart w = (w = [])"

lemma accepts_imp_lang:
  "accepts r b a cs b' a' cs' \<Longrightarrow> \<exists>w. a = w @ a' \<and> b' = rev w @ b \<and> lang r w"
proof (induction rule: accepts.induct)
  case (acc_seq r b a cs b' a' cs' s b'' a'' cs'')
  then obtain u v where "a = u @ a'" "b' = rev u @ b" "lang r u"
    and "a' = v @ a''" "b'' = rev v @ b'" "lang s v"
    by blast
  then show ?case
    by (intro exI [of _ "u @ v"]) auto
qed auto

lemma lang_imp_accepts:
  "plain r \<Longrightarrow> lang r w \<Longrightarrow> \<exists>cs'. accepts r b (w @ a) cs (rev w @ b) a cs'"
proof (induction r arbitrary: w b a cs)
  case (Seq r s)
  from Seq.prems obtain u v where w: "w = u @ v" and "lang r u" "lang s v"
    by auto
  with Seq obtain cs1 where "accepts r b (u @ v @ a) cs (rev u @ b) (v @ a) cs1"
    by (metis plain.simps(3))
  moreover from Seq \<open>lang s v\<close> obtain cs2
    where "accepts s (rev u @ b) (v @ a) cs1 (rev v @ rev u @ b) a cs2"
    by (metis plain.simps(3))
  ultimately show ?case
    using w by (auto intro!: exI acc_seq)
next
  case (Alt r s)
  then show ?case
    by (auto simp: accepts_simps) blast+
next
  case (Group i r)
  then show ?case
    by (auto intro!: acc_group) (meson acc_group)
qed (auto simp: accepts_simps)

theorem re_fullmatch_iff_lang:
  "plain r \<Longrightarrow> re_fullmatch r s \<noteq> None \<longleftrightarrow> lang r s"
proof -
  assume r: "plain r"
  have "re_fullmatch r s \<noteq> None \<longleftrightarrow> (\<exists>b cs. ((b, []), cs) \<in> set (runs r ([], s) []))"
    by (auto simp: re_fullmatch_def find_None_iff)
  also have "\<dots> \<longleftrightarrow> (\<exists>b cs. accepts r [] s [] b [] cs)"
    by (simp add: runs_iff_accepts)
  also have "\<dots> \<longleftrightarrow> lang r s"
    using accepts_imp_lang [of r "[]" s "[]" _ "[]"] lang_imp_accepts [OF r, of s "[]" "[]" "[]"]
    by fastforce
  finally show ?thesis .
qed

lemma re_match_SomeD:
  "re_match r s = Some (w, cs) \<Longrightarrow> \<exists>a. s = w @ a \<and> accepts r [] s [] (rev w) a cs"
proof -
  assume m: "re_match r s = Some (w, cs)"
  then obtain b a rest where h: "runs r ([], s) [] = ((b, a), cs) # rest" and w: "w = rev b"
    by (auto simp: re_match_def split: list.splits prod.splits)
  then have "accepts r [] s [] b a cs"
    by (metis list.set_intros(1) runs_iff_accepts)
  with w show ?thesis
    using accepts_consumes by fastforce
qed

lemma re_match_None_iff: "re_match r s = None \<longleftrightarrow> (\<nexists>b a cs. accepts r [] s [] b a cs)"
  by (cases "runs r ([], s) []")
    (auto simp: re_match_def simp flip: runs_iff_accepts split: prod.splits)

text \<open>A pattern whose matches at a position are all the same has that match.\<close>

lemma re_match_unique:
  assumes "accepts r [] s [] b a cs"
    and "\<And>b' a' cs'. accepts r [] s [] b' a' cs' \<Longrightarrow> b' = b \<and> cs' = cs"
  shows "re_match r s = Some (rev b, cs)"
proof (cases "re_match r s")
  case None
  with assms(1) show ?thesis by (auto simp: re_match_None_iff)
next
  case (Some x)
  then obtain w cs' a' where "x = (w, cs')" "accepts r [] s [] (rev w) a' cs'"
    by (cases x) (auto dest: re_match_SomeD)
  with assms(2) Some show ?thesis by fastforce
qed

subsection \<open>Shape lemmas for the derived forms\<close>

lemma accepts_lit [simp]:
  "accepts (lit w) b a cs b' a' cs' \<longleftrightarrow> a = w @ a' \<and> b' = rev w @ b \<and> cs' = cs"
  by (induction w arbitrary: b a) (auto simp: accepts_simps)

lemma accepts_Plus:
  "accepts (Plus P) b a cs b' a' cs' \<longleftrightarrow>
     (\<exists>w. w \<noteq> [] \<and> list_all P w \<and> a = w @ a' \<and> b' = rev w @ b \<and> cs' = cs)"
proof -
  have "accepts (Plus P) b a cs b' a' cs' \<longleftrightarrow>
      (\<exists>x w. P x \<and> list_all P w \<and> a = x # w @ a' \<and> b' = rev (x # w) @ b \<and> cs' = cs)"
    by (auto simp: Plus_def accepts_simps)
  also have "\<dots> \<longleftrightarrow>
      (\<exists>w. w \<noteq> [] \<and> list_all P w \<and> a = w @ a' \<and> b' = rev w @ b \<and> cs' = cs)"
  proof (intro iffI; elim exE conjE)
    fix w assume "w \<noteq> []" "list_all P w" "a = w @ a'" "b' = rev w @ b" "cs' = cs"
    then show "\<exists>x w. P x \<and> list_all P w \<and> a = x # w @ a' \<and> b' = rev (x # w) @ b \<and> cs' = cs"
      by (cases w) auto
  next
    fix x w assume "P x" "list_all P w" "a = x # w @ a'" "b' = rev (x # w) @ b" "cs' = cs"
    then show "\<exists>w. w \<noteq> [] \<and> list_all P w \<and> a = w @ a' \<and> b' = rev w @ b \<and> cs' = cs"
      by (intro exI [of _ "x # w"]) simp
  qed
  finally show ?thesis .
qed

lemma accepts_Opt:
  "accepts (Opt r) b a cs b' a' cs' \<longleftrightarrow>
     accepts r b a cs b' a' cs' \<or> b' = b \<and> a' = a \<and> cs' = cs"
  by (auto simp: Opt_def accepts_simps)

lemma accepts_Group:
  "accepts (Group i r) b a cs b' a' cs' \<longleftrightarrow>
     (\<exists>w cs''. a = w @ a' \<and> b' = rev w @ b \<and> accepts r b (w @ a') cs (rev w @ b) a' cs'' \<and>
        cs' = AList.update i w cs'')"
  by (auto simp: accepts_simps)

lemmas accepts_shape = accepts_simps(1-6,8,9) accepts_lit accepts_Plus accepts_Opt accepts_Group

lemma lang_lit [simp]: "lang (lit w) s \<longleftrightarrow> s = w"
  by (induction w arbitrary: s) auto

lemma lang_Plus [simp]: "lang (Plus P) s \<longleftrightarrow> s \<noteq> [] \<and> list_all P s"
proof (cases s)
  case (Cons c w)
  have "lang (Plus P) (c # w)" if "P c" "list_all P w"
    unfolding Plus_def lang.simps
    by (rule exI [of _ "[c]"], rule exI [of _ w]) (use that in auto)
  moreover have "P c \<and> list_all P w" if "lang (Plus P) (c # w)"
    using that by (auto simp: Plus_def)
  ultimately show ?thesis
    using Cons by auto
qed (simp add: Plus_def)

lemma lang_Seq_Chars: "lang (Seq (Chars P) r) w \<longleftrightarrow> (\<exists>c v. w = c # v \<and> P c \<and> lang r v)"
proof
  assume "\<exists>c v. w = c # v \<and> P c \<and> lang r v"
  then obtain c v where "w = [c] @ v" "P c" "lang r v" by auto
  then show "lang (Seq (Chars P) r) w" unfolding lang.simps by blast
qed auto

lemma lang_Seq_lit: "lang (Seq (lit u) r) w \<longleftrightarrow> (\<exists>v. w = u @ v \<and> lang r v)"
  by auto

lemmas lang_shape = lang_Seq_Chars lang_Seq_lit

lemma lang_Opt [simp]: "lang (Opt r) s \<longleftrightarrow> lang r s \<or> s = []"
  by (simp add: Opt_def)

lemma plain_derived [simp]:
  "plain (lit w)" "plain (Plus P)" "plain (Opt r) = plain r"
  by (induction w) (simp_all add: Plus_def Opt_def)

text \<open>Maximal munch: two runs of a class, each stopped by a character outside it, are equal.\<close>

lemma class_run_unique:
  assumes "u @ x # s = v @ y # t" and "list_all P u" "list_all P v" and "\<not> P x" "\<not> P y"
  shows "u = v \<and> x # s = y # t"
  using assms
proof (induction u arbitrary: v)
  case Nil
  then show ?case by (cases v) auto
next
  case (Cons z u)
  then show ?case by (cases v) auto
qed

end
