(* ===== verification/Stubsabot_Diff.thy ===== *)
theory Stubsabot_Diff
  imports Stubsabot_Release Py_Regex
begin

section \<open>stubsabot: GitHub repositories and the diff between two releases\<close>

text \<open>
  \<^verbatim>\<open>src/scripts/stubsabot.py\<close>, lines 218 to 418: the headers of a GitHub request, the project's
  repository, the pair of tags that delimits a diff, and the description of the diff in a pull
  request. The web is a parameter \<open>web\<close>: a run fetches each URL at most once, so the answer is a
  function of the URL.
\<close>

subsection \<open>The web as a parameter\<close>

record FileInfo =
  file_filename :: string
  file_status :: string
  additions :: int
  deletions :: int

record web =
  web_status :: "string \<Rightarrow> int"
  web_pypi :: "string \<Rightarrow> PypiInfo"
  web_names :: "string \<Rightarrow> string list"
  web_tags :: "string \<Rightarrow> string list"
  web_compare :: "string \<Rightarrow> FileInfo list"

text \<open>\<^verbatim>\<open>response.raise_for_status()\<close>.\<close>

definition raise_for_status :: "int \<Rightarrow> unit res" where
  "raise_for_status st = (if st \<ge> 400 then Inl (ClientResponseError st) else Inr ())"

definition get_github_api_headers :: "string option \<Rightarrow> (string, string) dict" where
  "get_github_api_headers token =
     [(''Accept'', ''application/vnd.github.v3+json'')] @
     (case token of None \<Rightarrow> []
      | Some secret \<Rightarrow>
          [(''Authorization'', (if starts_with secret ''ghp'' then ''token '' else ''Bearer '') @ secret)])"

subsection \<open>URLs\<close>

record split_url =
  netloc :: string
  url_path :: string
  query :: string
  fragment :: string

definition scheme_char :: "char \<Rightarrow> bool" where
  "scheme_char c \<longleftrightarrow> is_upper c \<or> is_lower c \<or> is_digit c \<or> c \<in> set ''+-.''"

definition cut_at :: "char \<Rightarrow> string \<Rightarrow> string \<times> string" where
  "cut_at c s = (takeWhile (\<lambda>x. x \<noteq> c) s, drop 1 (dropWhile (\<lambda>x. x \<noteq> c) s))"

text \<open>\<^verbatim>\<open>urllib.parse.urlsplit\<close>: scheme, network location, fragment and query are taken off in turn.\<close>

definition urlsplit :: "string \<Rightarrow> split_url" where
  "urlsplit u =
     (let pre = takeWhile (\<lambda>c. c \<noteq> CHR '':'') u;
          has_scheme = (CHR '':'' \<in> set u \<and> pre \<noteq> [] \<and> (is_upper (hd pre) \<or> is_lower (hd pre)) \<and> list_all scheme_char pre);
          rest = (if has_scheme then drop (Suc (length pre)) u else u);
          nl = (if starts_with rest ''//'' then takeWhile (\<lambda>c. c \<notin> set ''/?#'') (drop 2 rest) else []);
          rest' = (if starts_with rest ''//'' then drop (2 + length nl) rest else rest);
          (r1, frag) = cut_at CHR ''#'' rest';
          (r2, q) = cut_at CHR ''?'' r1
      in \<lparr>netloc = nl, url_path = r2, query = q, fragment = frag\<rparr>)"

record GithubInfo =
  repo_path :: string
  tags :: "string list"

text \<open>The repository path of a project URL, when it names a repository on GitHub.\<close>

definition github_repo_of :: "string \<Rightarrow> string option" where
  "github_repo_of project_url =
     (let s = urlsplit project_url; p = strip_char CHR ''/'' (url_path s)
      in if netloc s = ''github.com'' \<and> query s = [] \<and> fragment s = [] \<and> length (path_of p) = 2
         then Some p else None)"

definition tags_url :: "string \<Rightarrow> string" where
  "tags_url p = ''https://api.github.com/repos/'' @ p @ ''/tags''"

fun github_repo_loop :: "web \<Rightarrow> string list \<Rightarrow> GithubInfo option" where
  "github_repo_loop w [] = None"
| "github_repo_loop w (u # us) =
     (case github_repo_of u of
        Some p \<Rightarrow>
          if web_status w (tags_url p) = 200
          then Some \<lparr>repo_path = p, tags = web_tags w (tags_url p)\<rparr>
          else github_repo_loop w us
      | None \<Rightarrow> github_repo_loop w us)"

text \<open>
  \<^verbatim>\<open>pypi_info.info.get("project_urls", {}).values()\<close>: a missing key gives the empty dictionary, but a
  key whose value is \<^verbatim>\<open>null\<close> gives \<^verbatim>\<open>None\<close>, which has no \<^verbatim>\<open>values\<close>.
\<close>

definition get_github_repo_info :: "web \<Rightarrow> PypiInfo \<Rightarrow> GithubInfo option res" where
  "get_github_repo_info w info =
     (case info_project_urls info of
        None \<Rightarrow> Inr (github_repo_loop w [])
      | Some None \<Rightarrow> Inl AttributeError
      | Some (Some urls) \<Rightarrow> Inr (github_repo_loop w (map snd urls)))"

subsection \<open>The two tags of a diff\<close>

record GithubDiffInfo =
  diff_repo_path :: string
  old_tag :: string
  new_tag :: string
  diff_url :: string

fun versions_to_tags :: "'v packaging \<Rightarrow> string list \<Rightarrow> ('v, string) dict \<Rightarrow> ('v, string) dict" where
  "versions_to_tags pk [] d = d"
| "versions_to_tags pk (t # ts) d =
     versions_to_tags pk ts (case parse_version pk t of None \<Rightarrow> d | Some v \<Rightarrow> AList.update v t d)"

definition compare_url :: "string \<Rightarrow> string \<Rightarrow> string \<Rightarrow> string" where
  "compare_url repo old new = ''https://github.com/'' @ repo @ ''/compare/'' @ old @ ''...'' @ new"

definition get_diff_info ::
  "('v::linorder) packaging \<Rightarrow> web \<Rightarrow> StubInfo \<Rightarrow> PypiInfo \<Rightarrow> 'v \<Rightarrow> GithubDiffInfo option res" where
  "get_diff_info pk w stub_info info pypi_version =
     bind_res (get_github_repo_info w info) (\<lambda>gh.
     case gh of None \<Rightarrow> Inr None
     | Some github_info \<Rightarrow>
         let vt = versions_to_tags pk (tags github_info) [] in
         bind_res (SpecifierSet pk (''=='' @ version_spec stub_info)) (\<lambda>curr_specifier.
         case map_of vt pypi_version of None \<Rightarrow> Inr None
         | Some newt \<Rightarrow>
             let candidates = filter curr_specifier (dict_keys vt) in
             if candidates = [] then Inr None
             else
               (case map_of vt (Max (set candidates)) of
                  None \<Rightarrow> Inl (KeyError [])
                | Some oldt \<Rightarrow>
                    let u = compare_url (repo_path github_info) oldt newt in
                    bind_res (raise_for_status (web_status w u)) (\<lambda>_.
                      Inr (Some \<lparr>diff_repo_path = repo_path github_info, old_tag = oldt,
                        new_tag = newt, diff_url = u\<rparr>)))))"

subsection \<open>The analysis of a diff\<close>

definition plural_s :: "nat \<Rightarrow> string" where
  "plural_s num = (if num \<noteq> 1 then ''s'' else [])"

record DiffAnalysis =
  py_files :: "FileInfo list"
  py_files_stubbed_in_typeshed :: "FileInfo list"

definition MAXIMUM_NUMBER_OF_FILES_TO_LIST :: nat where
  "MAXIMUM_NUMBER_OF_FILES_TO_LIST = 7"

definition consistent_directory_structure :: "DiffAnalysis \<Rightarrow> bool" where
  "consistent_directory_structure d \<longleftrightarrow> py_files_stubbed_in_typeshed d \<noteq> []"

text \<open>The pattern \<^verbatim>\<open>_[^_]\<close> of a private module name.\<close>

definition private_re :: regex where
  "private_re = Seq (Chars (\<lambda>c. c = CHR ''_'')) (Chars (\<lambda>c. c \<noteq> CHR ''_''))"

definition public_files_added :: "DiffAnalysis \<Rightarrow> string list" where
  "public_files_added d =
     map file_filename (filter (\<lambda>f. re_match private_re (path_name (path_of (file_filename f))) = None
        \<and> file_status f = ''added'') (py_files d))"

definition typeshed_files_deleted :: "DiffAnalysis \<Rightarrow> string list" where
  "typeshed_files_deleted d =
     map file_filename (filter (\<lambda>f. file_status f = ''removed'') (py_files_stubbed_in_typeshed d))"

definition typeshed_files_modified :: "DiffAnalysis \<Rightarrow> string list" where
  "typeshed_files_modified d =
     map file_filename (filter (\<lambda>f. file_status f \<in> {''modified'', ''renamed''}) (py_files_stubbed_in_typeshed d))"

definition total_lines_added :: "DiffAnalysis \<Rightarrow> int" where
  "total_lines_added d = sum_list (map additions (py_files d))"

definition total_lines_deleted :: "DiffAnalysis \<Rightarrow> int" where
  "total_lines_deleted d = sum_list (map deletions (py_files d))"

definition backtick :: "string \<Rightarrow> string" where
  "backtick s = CHR 0x60 # s @ [CHR 0x60]"

definition describe_files :: "string \<Rightarrow> string list \<Rightarrow> string" where
  "describe_files verb filenames =
     (let num_files = length filenames in
      if num_files > 1
      then ''have been '' @ verb @
           (if num_files \<le> MAXIMUM_NUMBER_OF_FILES_TO_LIST
            then '': '' @ join_with '', '' (map backtick filenames) else []) @ ''.''
      else if num_files = 1 then ''has been '' @ verb @ '': '' @ backtick (hd filenames) @ ''.''
      else ''have been '' @ verb @ ''.'')"

definition describe_public_files_added :: "DiffAnalysis \<Rightarrow> string" where
  "describe_public_files_added d =
     (let n = length (public_files_added d)
      in show_nat n @ '' public Python file'' @ plural_s n @ '' '' @
         describe_files ''added'' (public_files_added d))"

definition describe_typeshed_files_deleted :: "DiffAnalysis \<Rightarrow> string" where
  "describe_typeshed_files_deleted d =
     (let n = length (typeshed_files_deleted d)
      in show_nat n @ '' file'' @ plural_s n @ '' included in typeshed's stubs '' @
         describe_files ''deleted'' (typeshed_files_deleted d))"

definition describe_typeshed_files_modified :: "DiffAnalysis \<Rightarrow> string" where
  "describe_typeshed_files_modified d =
     (let n = length (typeshed_files_modified d)
      in show_nat n @ '' file'' @ plural_s n @ '' included in typeshed's stubs '' @
         describe_files ''modified or renamed'' (typeshed_files_modified d))"

abbreviation bullet :: string where
  "bullet \<equiv> CHR 0x0A # '' - ''"

definition data_points :: "DiffAnalysis \<Rightarrow> string list" where
  "data_points d =
     (if consistent_directory_structure d
      then [describe_public_files_added d, describe_typeshed_files_deleted d,
            describe_typeshed_files_modified d] else []) @
     [''Total lines of Python code added: '' @ show_int (total_lines_added d) @ ''.'',
      ''Total lines of Python code deleted: '' @ show_int (total_lines_deleted d) @ ''.'']"

definition show_DiffAnalysis :: "DiffAnalysis \<Rightarrow> string" where
  "show_DiffAnalysis d =
     ''Stubsabot analysis of the diff between the two releases:'' @ bullet @
     join_with bullet (data_points d)"

text \<open>\<open>t\<close> is the working tree and \<open>stub_path\<close> the distribution's directory in it.\<close>

definition analyze_diff ::
  "web \<Rightarrow> fs \<Rightarrow> string \<Rightarrow> path \<Rightarrow> string \<Rightarrow> string \<Rightarrow> DiffAnalysis res" where
  "analyze_diff w t github_repo_path stub_path old new =
     (let u = ''https://api.github.com/repos/'' @ github_repo_path @ ''/compare/'' @ old @ ''...'' @ new in
      bind_res (raise_for_status (web_status w u)) (\<lambda>_.
        let pys = filter (\<lambda>f. path_suffix (path_of (file_filename f)) = ''.py'') (web_compare w u);
            files_in_typeshed = rglob_ext t stub_path ''.pyi'';
            stubbed = filter (\<lambda>f. stub_path @ path_of (file_filename f @ ''i'') \<in> set files_in_typeshed) pys
        in Inr \<lparr>py_files = pys, py_files_stubbed_in_typeshed = stubbed\<rparr>))"

section \<open>Properties\<close>

lemma versions_to_tags_map_of:
  "map_of (versions_to_tags pk ts d) v = Some t \<Longrightarrow>
     map_of d v = Some t \<or> t \<in> set ts \<and> parse_version pk t = Some v"
proof (induction ts arbitrary: d)
  case (Cons a ts)
  let ?d = "case parse_version pk a of None \<Rightarrow> d | Some u \<Rightarrow> AList.update u a d"
  have "map_of (versions_to_tags pk ts ?d) v = Some t"
    using Cons.prems by simp
  from Cons.IH [OF this] show ?case
    by (auto simp: al.lookup_store split: option.splits if_splits)
qed simp

lemma versions_to_tags_keys:
  "fst ` set (versions_to_tags pk ts d) = fst ` set d \<union> {v. \<exists>t\<in>set ts. parse_version pk t = Some v}"
  by (induction ts arbitrary: d) (auto simp: dom_update split: option.splits)

lemma github_repo_loop_Some:
  "github_repo_loop w us = Some g \<Longrightarrow>
     (\<exists>u\<in>set us. github_repo_of u = Some (repo_path g)) \<and>
     web_status w (tags_url (repo_path g)) = 200 \<and> tags g = web_tags w (tags_url (repo_path g))"
  by (induction us) (auto split: option.splits if_splits)


text \<open>The diff analysis keeps the Python files of the comparison GitHub returns, and of these
  counts exactly the ones that have a stub under the distribution's directory.\<close>

theorem analyze_diff_files:
  assumes "analyze_diff w t repo sp old new = Inr d" and "fs_wf t" and "fs_exists t sp"
  shows "\<exists>files. files = web_compare w (''https://api.github.com/repos/'' @ repo @ ''/compare/'' @ old @ ''...'' @ new) \<and>
    set (py_files d) = {f \<in> set files. path_suffix (path_of (file_filename f)) = ''.py''} \<and>
    set (py_files_stubbed_in_typeshed d) =
      {f \<in> set (py_files d). fs_exists t (sp @ path_of (file_filename f @ ''i'')) \<and>
         path_of (file_filename f @ ''i'') \<noteq> [] \<and>
         ends_with (path_name (path_of (file_filename f @ ''i''))) ''.pyi''}"
  using assms
  by (auto simp: analyze_diff_def Let_def bind_res_eq_Inr rglob_ext_iff)

subsection \<open>A concrete project\<close>

definition ex_project :: PypiInfo where
  "ex_project = ex_info\<lparr>info_project_urls :=
     Some (Some [(''Docs'', ''https://foo.example/docs''), (''Homepage'', ''https://github.com/o/foo/'')])\<rparr>"

definition ex_web :: web where
  "ex_web =
     \<lparr>web_status = (\<lambda>u. 200), web_pypi = (\<lambda>u. ex_project), web_names = ex_names,
      web_tags = (\<lambda>u. [''0.9'', ''1.0'', ''v.bad'', ''1.5'', ''2.0'', ''3.0'']),
      web_compare = (\<lambda>u.
        [\<lparr>file_filename = ''foo/a.py'', file_status = ''modified'', additions = 3, deletions = 1\<rparr>,
         \<lparr>file_filename = ''foo/new.py'', file_status = ''added'', additions = 10, deletions = 0\<rparr>,
         \<lparr>file_filename = ''README.md'', file_status = ''modified'', additions = 1, deletions = 1\<rparr>])\<rparr>"

definition ex_stub :: StubInfo where
  "ex_stub = \<lparr>distribution = ''foo'', version_spec = ''1.*'', obsolete = False, no_longer_updated = False\<rparr>"

definition ex_diff :: GithubDiffInfo where
  "ex_diff = \<lparr>diff_repo_path = ''o/foo'', old_tag = ''1.5'', new_tag = ''3.0'',
     diff_url = ''https://github.com/o/foo/compare/1.5...3.0''\<rparr>"

definition ex_tree :: fs where
  "ex_tree = Dir [(''stubs'', Dir [(''foo'', Dir [(''METADATA.toml'', File False []),
     (''foo'', Dir [(''a.pyi'', File False []), (''b.pyi'', File False [])])])])]"

lemma ex_get_diff_info: "get_diff_info simple_packaging ex_web ex_stub ex_project [3, 0] = Inr (Some ex_diff)"
  by code_simp


definition ex_analysis :: DiffAnalysis where
  "ex_analysis =
     \<lparr>py_files = take 2 (web_compare ex_web []), py_files_stubbed_in_typeshed = take 1 (web_compare ex_web [])\<rparr>"

lemma ex_analyze_diff:
  "analyze_diff ex_web ex_tree ''o/foo'' [''stubs'', ''foo''] ''1.5'' ''3.0'' = Inr ex_analysis"
  by code_simp

theorem analyze_diff_files_witness:
  "set (py_files ex_analysis) =
     {f \<in> set (web_compare ex_web []). path_suffix (path_of (file_filename f)) = ''.py''} \<and>
   file_filename ` set (py_files_stubbed_in_typeshed ex_analysis) = {''foo/a.py''}"
proof -
  have wf: "fs_wf ex_tree" "fs_exists ex_tree [''stubs'', ''foo'']"
    by code_simp+
  have "web_compare ex_web ''https://api.github.com/repos/o/foo/compare/1.5...3.0'' = web_compare ex_web []"
    by (simp add: ex_web_def)
  with analyze_diff_files [OF ex_analyze_diff wf]
  have "set (py_files ex_analysis) =
     {f \<in> set (web_compare ex_web []). path_suffix (path_of (file_filename f)) = ''.py''}"
    by auto
  moreover have "file_filename ` set (py_files_stubbed_in_typeshed ex_analysis) = {''foo/a.py''}"
    by code_simp
  ultimately show ?thesis
    by blast
qed

end
