(* ===== verification/Effects.thy ===== *)
theory Effects
  imports External Py_Path
begin

section \<open>Effects: commands, requests and files as a trace\<close>

text \<open>
  The scripts act on the world by running commands (git, pip, mypy, \<dots>), sending HTTP requests,
  writing files and printing. An effectful function is a value of \<open>'a io\<close>: it takes the trace of the
  events so far and returns its result, or the exception it raises, with the extended trace. What the
  outside world answers is given by an environment \<open>env\<close>, whose answers may depend on the whole trace;
  nothing is assumed of it.

  \<open>emits A m\<close> says that \<open>m\<close> only appends events that satisfy \<open>A\<close>. It is the form of the safety
  properties of the scripts ("never pushes", "commits at most once"), and the rules collected in
  \<open>emits_rules\<close> prove it along the structure of a program.
\<close>

named_theorems emits_rules \<open>rules for the events a program may emit\<close>
named_theorems never_raises_rules \<open>rules for programs that never raise\<close>
named_theorems io_simps \<open>running the primitive actions\<close>

datatype event =
    Call "string list"
  | Http string string "(string, string) dict" "(string, string) dict"
  | WriteToml path toml_table "(string, string) dict"
  | WriteFile path string
  | Print string

text \<open>\<open>Http m u h q\<close> is a request with method, URL, headers and payload or parameters; \<open>WriteToml p t c\<close> writes the table \<open>t\<close> to \<open>p\<close>, with the trailing comments \<open>c\<close> on its keys.\<close>

record proc =
  returncode :: int
  stdout :: string
  stderr :: string

record response =
  status :: int
  errors :: "string list"
  numbers :: "int list"

record env =
  env_run :: "event list \<Rightarrow> string list \<Rightarrow> proc"
  env_http :: "event list \<Rightarrow> string \<Rightarrow> string \<Rightarrow> (string, string) dict \<Rightarrow> (string, string) dict \<Rightarrow> response"
  env_toml :: "event list \<Rightarrow> path \<Rightarrow> toml_table"
  env_fs :: "event list \<Rightarrow> fs"
  env_token :: "string option"

type_synonym 'a io = "event list \<Rightarrow> 'a res \<times> event list"

definition ret :: "'a \<Rightarrow> 'a io" where
  "ret x tr = (Inr x, tr)"

definition raise :: "exn \<Rightarrow> 'a io" where
  "raise e tr = (Inl e, tr)"

definition bind_io :: "'a io \<Rightarrow> ('a \<Rightarrow> 'b io) \<Rightarrow> 'b io" where
  "bind_io m f tr = (case m tr of (Inl e, tr') \<Rightarrow> (Inl e, tr') | (Inr x, tr') \<Rightarrow> f x tr')"

definition seq :: "'a io \<Rightarrow> 'b io \<Rightarrow> 'b io" where
  "seq m k = bind_io m (\<lambda>_. k)"

definition emit :: "event \<Rightarrow> unit io" where
  "emit ev tr = (Inr (), tr @ [ev])"

definition lift :: "'a res \<Rightarrow> 'a io" where
  "lift r tr = (r, tr)"

text \<open>\<^verbatim>\<open>subprocess.run\<close>, \<^verbatim>\<open>check_call\<close> and \<^verbatim>\<open>check_output\<close>.\<close>

definition run :: "env \<Rightarrow> string list \<Rightarrow> proc io" where
  "run en args tr = (Inr (env_run en tr args), tr @ [Call args])"

definition check_proc :: "proc \<Rightarrow> proc io" where
  "check_proc p = (if returncode p = 0 then ret p else raise (CalledProcessError (returncode p)))"

definition check_run :: "env \<Rightarrow> string list \<Rightarrow> proc io" where
  "check_run en args = bind_io (run en args) check_proc"

definition check_call :: "env \<Rightarrow> string list \<Rightarrow> unit io" where
  "check_call en args = bind_io (check_run en args) (\<lambda>_. ret ())"

definition check_output :: "env \<Rightarrow> string list \<Rightarrow> string io" where
  "check_output en args = bind_io (check_run en args) (\<lambda>p. ret (stdout p))"

definition http :: "env \<Rightarrow> string \<Rightarrow> string \<Rightarrow> (string, string) dict \<Rightarrow> (string, string) dict \<Rightarrow> response io" where
  "http en meth u headers payload tr = (Inr (env_http en tr meth u headers payload), tr @ [Http meth u headers payload])"

definition load_toml :: "env \<Rightarrow> path \<Rightarrow> toml_table io" where
  "load_toml en p tr = (Inr (env_toml en tr p), tr)"

text \<open>The file tree as it is now; reading a text file, with newlines translated.\<close>

definition get_fs :: "env \<Rightarrow> fs io" where
  "get_fs en tr = (Inr (env_fs en tr), tr)"

definition read_text :: "env \<Rightarrow> path \<Rightarrow> string io" where
  "read_text en p =
     bind_io (get_fs en) (\<lambda>t.
       case fs_lookup t p of Some (File _ s) \<Rightarrow> ret (unify_newlines s) | Some (Dir _) \<Rightarrow> raise OSError | None \<Rightarrow> raise FileNotFoundError)"

text \<open>\<^verbatim>\<open>try: m except E: h\<close> for the exceptions that \<open>h\<close> handles, and \<^verbatim>\<open>try: m finally: k\<close>.\<close>

definition try_except :: "'a io \<Rightarrow> (exn \<Rightarrow> 'a io option) \<Rightarrow> 'a io" where
  "try_except m h tr =
     (case m tr of
        (Inl e, tr') \<Rightarrow> (case h e of None \<Rightarrow> (Inl e, tr') | Some k \<Rightarrow> k tr')
      | (Inr x, tr') \<Rightarrow> (Inr x, tr'))"

definition try_finally :: "'a io \<Rightarrow> unit io \<Rightarrow> 'a io" where
  "try_finally m k tr =
     (case m tr of (r, tr') \<Rightarrow>
        (case k tr' of (Inl e, tr'') \<Rightarrow> (Inl e, tr'') | (Inr _, tr'') \<Rightarrow> (r, tr'')))"

text \<open>\<^verbatim>\<open>sys.exit\<close> and \<^verbatim>\<open>SystemExit\<close> with a message, which is printed.\<close>

definition sys_exit :: "string \<Rightarrow> 'a io" where
  "sys_exit message = seq (emit (Print message)) (raise (SystemExit 1))"

fun for_each :: "('a \<Rightarrow> unit io) \<Rightarrow> 'a list \<Rightarrow> unit io" where
  "for_each f [] = ret ()"
| "for_each f (x # xs) = seq (f x) (for_each f xs)"

lemma io_run [io_simps]:
  "ret x tr = (Inr x, tr)" "raise e tr = (Inl e, tr)" "emit ev tr = (Inr (), tr @ [ev])"
  "lift r tr = (r, tr)" "run en args tr = (Inr (env_run en tr args), tr @ [Call args])"
  "load_toml en p tr = (Inr (env_toml en tr p), tr)" "get_fs en tr = (Inr (env_fs en tr), tr)"
  "http en meth u hs pl tr = (Inr (env_http en tr meth u hs pl), tr @ [Http meth u hs pl])"
  "bind_io m f tr = (case m tr of (Inl e, tr') \<Rightarrow> (Inl e, tr') | (Inr x, tr') \<Rightarrow> f x tr')"
  "seq m k tr = (case m tr of (Inl e, tr') \<Rightarrow> (Inl e, tr') | (Inr x, tr') \<Rightarrow> k tr')"
  by (simp_all add: ret_def raise_def emit_def lift_def run_def load_toml_def get_fs_def http_def bind_io_def seq_def)

lemma check_run_run [io_simps]:
  "check_run en args tr =
     (let p = env_run en tr args in
      (if returncode p = 0 then Inr p else Inl (CalledProcessError (returncode p)), tr @ [Call args]))"
  by (simp add: check_run_def check_proc_def io_run)

lemma check_call_run [io_simps]:
  "check_call en args tr =
     (let p = env_run en tr args in
      (if returncode p = 0 then Inr () else Inl (CalledProcessError (returncode p)), tr @ [Call args]))"
  by (simp add: check_call_def io_run check_run_run Let_def)

lemma check_output_run [io_simps]:
  "check_output en args tr =
     (let p = env_run en tr args in
      (if returncode p = 0 then Inr (stdout p) else Inl (CalledProcessError (returncode p)), tr @ [Call args]))"
  by (simp add: check_output_def io_run check_run_run Let_def)

lemma sys_exit_run [io_simps]: "sys_exit m tr = (Inl (SystemExit 1), tr @ [Print m])"
  by (simp add: sys_exit_def io_run)

subsection \<open>Monad laws\<close>

lemma bind_ret [simp]: "bind_io (ret x) f = f x"
  by (rule ext) (simp add: io_simps)

lemma bind_raise [simp]: "bind_io (raise e) f = raise e"
  by (rule ext) (simp add: io_simps)

lemma bind_io_assoc: "bind_io (bind_io m f) g = bind_io m (\<lambda>x. bind_io (f x) g)"
  by (rule ext) (auto simp: io_simps split: prod.splits sum.splits)

lemma bind_ret_right [simp]: "bind_io m ret = m"
  by (rule ext) (auto simp: io_simps split: prod.splits sum.splits)

lemma bind_io_run: "m tr = (Inr x, tr1) \<Longrightarrow> bind_io m f tr = f x tr1"
  by (simp add: io_run)

lemma bind_io_Inr:
  "bind_io m f tr = (Inr y, tr') \<longleftrightarrow> (\<exists>x tr1. m tr = (Inr x, tr1) \<and> f x tr1 = (Inr y, tr'))"
  by (auto simp: io_simps split: prod.splits sum.splits)

lemma seq_Inr: "seq m k tr = (Inr y, tr') \<longleftrightarrow> (\<exists>x tr1. m tr = (Inr x, tr1) \<and> k tr1 = (Inr y, tr'))"
  by (simp add: seq_def bind_io_Inr)

subsection \<open>What a program may emit\<close>

definition emits :: "(event \<Rightarrow> bool) \<Rightarrow> 'a io \<Rightarrow> bool" where
  "emits A m \<longleftrightarrow> (\<forall>tr. \<exists>evs. snd (m tr) = tr @ evs \<and> list_all A evs)"

lemma emitsD: "emits A m \<Longrightarrow> m tr = (r, tr') \<Longrightarrow> \<exists>evs. tr' = tr @ evs \<and> list_all A evs"
  unfolding emits_def by (metis snd_conv)

lemma emitsI: "(\<And>tr r tr'. m tr = (r, tr') \<Longrightarrow> \<exists>evs. tr' = tr @ evs \<and> list_all A evs) \<Longrightarrow> emits A m"
  unfolding emits_def by (metis prod.collapse)

lemma emits_ret [emits_rules]: "emits A (ret x)"
  by (auto simp: emits_def io_simps)

lemma emits_raise [emits_rules]: "emits A (raise e)"
  by (auto simp: emits_def io_simps)

lemma emits_lift [emits_rules]: "emits A (lift r)"
  by (auto simp: emits_def io_simps)

lemma emits_emit [emits_rules]: "A ev \<Longrightarrow> emits A (emit ev)"
  by (auto simp: emits_def io_simps)

lemma emits_run [emits_rules]: "A (Call args) \<Longrightarrow> emits A (run en args)"
  by (auto simp: emits_def io_simps)

lemma emits_http [emits_rules]: "A (Http meth u hs pl) \<Longrightarrow> emits A (http en meth u hs pl)"
  by (auto simp: emits_def io_simps)

lemma emits_load_toml [emits_rules]: "emits A (load_toml en p)"
  by (auto simp: emits_def io_simps)

lemma emits_get_fs [emits_rules]: "emits A (get_fs en)"
  by (auto simp: emits_def io_simps)

lemma emits_check [emits_rules]:
  "A (Call args) \<Longrightarrow> emits A (check_run en args)"
  "A (Call args) \<Longrightarrow> emits A (check_call en args)"
  "A (Call args) \<Longrightarrow> emits A (check_output en args)"
  by (auto simp: emits_def io_simps Let_def)

lemma emits_bind [emits_rules]:
  assumes "emits A m" and "\<And>x. emits A (f x)"
  shows "emits A (bind_io m f)"
proof (rule emitsI)
  fix tr r tr' assume eq: "bind_io m f tr = (r, tr')"
  obtain q t where m: "m tr = (q, t)" by (cases "m tr")
  then obtain evs where t: "t = tr @ evs" "list_all A evs" using emitsD [OF assms(1)] by blast
  show "\<exists>evs. tr' = tr @ evs \<and> list_all A evs"
  proof (cases q)
    case (Inl e)
    with eq m t show ?thesis by (auto simp: io_simps)
  next
    case (Inr x)
    with eq m have "f x t = (r, tr')" by (simp add: io_simps)
    from emitsD [OF assms(2) this] t show ?thesis by auto
  qed
qed

lemma emits_seq [emits_rules]: "emits A m \<Longrightarrow> emits A k \<Longrightarrow> emits A (seq m k)"
  by (simp add: seq_def emits_bind)

lemma emits_sys_exit [emits_rules]: "A (Print m) \<Longrightarrow> emits A (sys_exit m)"
  by (simp add: sys_exit_def emits_seq emits_emit emits_raise)

lemma emits_if [emits_rules]: "(b \<Longrightarrow> emits A m) \<Longrightarrow> (\<not> b \<Longrightarrow> emits A k) \<Longrightarrow> emits A (if b then m else k)"
  by simp

lemma emits_case_option [emits_rules]:
  "emits A m \<Longrightarrow> (\<And>x. emits A (f x)) \<Longrightarrow> emits A (case_option m f o')"
  by (cases o') auto

lemma emits_case_list [emits_rules]:
  "emits A m \<Longrightarrow> (\<And>x xs. emits A (f x xs)) \<Longrightarrow> emits A (case_list m f l)"
  by (cases l) auto

lemma emits_case_sum [emits_rules]:
  "(\<And>x. emits A (f x)) \<Longrightarrow> (\<And>x. emits A (g x)) \<Longrightarrow> emits A (case_sum f g s)"
  by (cases s) auto

lemma emits_Let [emits_rules]: "(\<And>x. x = v \<Longrightarrow> emits A (f x)) \<Longrightarrow> emits A (Let v f)"
  by simp

lemma emits_read_text [emits_rules]: "emits A (read_text en p)"
  unfolding read_text_def
  by (intro emits_bind emits_get_fs) (auto intro: emits_ret emits_raise split: option.splits fs.splits)

lemma emits_for_each [emits_rules]: "(\<And>x. x \<in> set xs \<Longrightarrow> emits A (f x)) \<Longrightarrow> emits A (for_each f xs)"
  by (induction xs) (auto intro: emits_rules)

lemma emits_try_except [emits_rules]:
  assumes "emits A m" and "\<And>e k. h e = Some k \<Longrightarrow> emits A k"
  shows "emits A (try_except m h)"
proof (rule emitsI)
  fix tr r tr' assume eq: "try_except m h tr = (r, tr')"
  obtain q t where m: "m tr = (q, t)" by (cases "m tr")
  then obtain evs where t: "t = tr @ evs" "list_all A evs" using emitsD [OF assms(1)] by blast
  show "\<exists>evs. tr' = tr @ evs \<and> list_all A evs"
  proof (cases "\<exists>e k. q = Inl e \<and> h e = Some k")
    case True
    then obtain e k where q: "q = Inl e" and k: "h e = Some k" by blast
    with eq m have "k t = (r, tr')" by (simp add: try_except_def)
    from emitsD [OF assms(2) [OF k] this] t show ?thesis by auto
  next
    case False
    with eq m have "tr' = t" by (auto simp: try_except_def split: sum.splits option.splits)
    with t show ?thesis by blast
  qed
qed

lemma emits_try_finally [emits_rules]:
  assumes "emits A m" and "emits A k"
  shows "emits A (try_finally m k)"
proof (rule emitsI)
  fix tr r tr' assume eq: "try_finally m k tr = (r, tr')"
  obtain q t where m: "m tr = (q, t)" by (cases "m tr")
  obtain q' t' where k: "k t = (q', t')" by (cases "k t")
  from eq m k have "tr' = t'" by (auto simp: try_finally_def split: sum.splits)
  with emitsD [OF assms(1) m] emitsD [OF assms(2) k] show "\<exists>evs. tr' = tr @ evs \<and> list_all A evs"
    by auto
qed

lemma emits_bind_load_toml: "(\<And>tr. emits A (f (env_toml en tr p))) \<Longrightarrow> emits A (bind_io (load_toml en p) f)"
  unfolding emits_def by (simp add: io_simps)

lemma emits_mono: "emits A m \<Longrightarrow> (\<And>e. A e \<Longrightarrow> B e) \<Longrightarrow> emits B m"
  unfolding emits_def by (metis (mono_tags, lifting) list_all_iff)

lemma emits_conj:
  assumes "emits A m" "emits B m"
  shows "emits (\<lambda>e. A e \<and> B e) m"
  unfolding emits_def
proof
  fix tr
  obtain evs where "snd (m tr) = tr @ evs" "list_all A evs" using assms(1) unfolding emits_def by blast
  moreover obtain evs' where "snd (m tr) = tr @ evs'" "list_all B evs'" using assms(2) unfolding emits_def by blast
  ultimately show "\<exists>evs. snd (m tr) = tr @ evs \<and> list_all (\<lambda>e. A e \<and> B e) evs"
    by (auto simp: list_all_iff)
qed

subsection \<open>Programs that never raise\<close>

text \<open>\<open>never_raises m\<close> says that \<open>m\<close> returns a value whatever happened before.\<close>

definition never_raises :: "'a io \<Rightarrow> bool" where
  "never_raises m \<longleftrightarrow> (\<forall>tr. \<exists>x tr'. m tr = (Inr x, tr'))"

lemma never_raisesE:
  assumes "never_raises m"
  obtains x tr' where "m tr = (Inr x, tr')"
  using assms unfolding never_raises_def by blast

lemma never_raises_basic [never_raises_rules]:
  "never_raises (ret x)" "never_raises (emit ev)" "never_raises (run en args)" "never_raises (get_fs en)"
  "never_raises (load_toml en p)" "never_raises (http en meth u hs pl)"
  by (simp_all add: never_raises_def io_run)

lemma never_raises_bind [never_raises_rules]:
  "never_raises m \<Longrightarrow> (\<And>x. never_raises (f x)) \<Longrightarrow> never_raises (bind_io m f)"
  unfolding never_raises_def bind_io_Inr by meson

lemma never_raises_seq [never_raises_rules]: "never_raises m \<Longrightarrow> never_raises k \<Longrightarrow> never_raises (seq m k)"
  by (simp add: seq_def never_raises_bind)

lemma never_raises_if [never_raises_rules]:
  "(b \<Longrightarrow> never_raises m) \<Longrightarrow> (\<not> b \<Longrightarrow> never_raises k) \<Longrightarrow> never_raises (if b then m else k)"
  by simp

lemma never_raises_Let [never_raises_rules]: "(\<And>x. x = v \<Longrightarrow> never_raises (f x)) \<Longrightarrow> never_raises (Let v f)"
  by simp

lemma never_raises_case_prod [never_raises_rules]: "(\<And>x y. never_raises (f x y)) \<Longrightarrow> never_raises (case_prod f p)"
  by (cases p) simp

lemma never_raises_for_each [never_raises_rules]:
  "(\<And>x. x \<in> set xs \<Longrightarrow> never_raises (f x)) \<Longrightarrow> never_raises (for_each f xs)"
  by (induction xs) (auto intro: never_raises_rules)

end
