(* ===== verification/Stubsabot_Git.thy ===== *)
theory Stubsabot_Git
  imports Stubsabot_Diff Effects
begin

section \<open>stubsabot: actions, branches and pull requests\<close>

text \<open>
  \<^verbatim>\<open>src/scripts/stubsabot.py\<close>, lines 124 to 158 and 421 to 673: the outcome of examining one
  distribution, and what is done about it in the git repository and on GitHub. The messages of most
  exceptions are left out. The \<^verbatim>\<open>asyncio\<close> lock around the git commands is not
  modelled: \<^verbatim>\<open>main\<close> awaits one suggestion at a time.
\<close>

subsection \<open>Outcomes\<close>

record Update =
  upd_distribution :: string
  upd_stub_path :: path
  old_version_spec :: string
  new_version_spec :: string
  upd_links :: "(string, string) dict"
  diff_analysis :: "DiffAnalysis option"

record Obsolete =
  obs_distribution :: string
  obs_stub_path :: path
  obsolete_since_version :: string
  obsolete_since_date :: string
  obs_links :: "(string, string) dict"

record NoUpdate =
  no_distribution :: string
  reason :: string

datatype outcome = AUpdate Update | AObsolete Obsolete | ANoUpdate NoUpdate

fun show_outcome :: "outcome \<Rightarrow> string" where
  "show_outcome (AUpdate u) =
     ''Updating '' @ upd_distribution u @ '' from '' @ repr_str (old_version_spec u) @ '' to '' @
     repr_str (new_version_spec u)"
| "show_outcome (AObsolete ob) =
     ''Marking '' @ obs_distribution ob @ '' as obsolete since '' @ repr_str (obsolete_since_version ob)"
| "show_outcome (ANoUpdate n) = ''Skipping '' @ no_distribution n @ '': '' @ reason n"

subsection \<open>Examining one distribution\<close>

text \<open>\<^verbatim>\<open>urllib.parse.quote\<close> on ASCII.\<close>

definition hex_digit :: "nat \<Rightarrow> char" where
  "hex_digit d = (if d < 10 then char_of (48 + d) else char_of (55 + d))"

definition quote_char :: "char \<Rightarrow> string" where
  "quote_char c =
     (if is_upper c \<or> is_lower c \<or> is_digit c \<or> c \<in> set ''_.-~/'' then [c]
      else let n = of_char c in [CHR ''%'', hex_digit (n div 16), hex_digit (n mod 16)])"

definition url_quote :: "string \<Rightarrow> string" where
  "url_quote s = concat (map quote_char s)"

definition pypi_root_of :: "string \<Rightarrow> string" where
  "pypi_root_of dist = ''https://pypi.org/pypi/'' @ url_quote dist"

definition fetch_pypi_info :: "web \<Rightarrow> string \<Rightarrow> PypiInfo res" where
  "fetch_pypi_info w dist =
     (let root = pypi_root_of dist; u = root @ ''/json'' in
      bind_res (raise_for_status (web_status w u)) (\<lambda>_.
        Inr ((web_pypi w u)\<lparr>pypi_distribution := dist, pypi_root := root\<rparr>)))"

text \<open>Python's \<^verbatim>\<open>a or b\<close> on values that are \<^verbatim>\<open>None\<close> or strings.\<close>

definition py_or :: "string option \<Rightarrow> string option \<Rightarrow> string option" where
  "py_or a b = (if a = None \<or> a = Some [] then b else a)"

definition keep_links :: "(string \<times> string option) list \<Rightarrow> (string, string) dict" where
  "keep_links maybe_links = List.map_filter (\<lambda>(k, v). map_option (\<lambda>x. (k, x)) v) maybe_links"

definition project_links :: "PypiInfo \<Rightarrow> string \<Rightarrow> (string, string) dict res" where
  "project_links info relevant =
     bind_res (case info_project_urls info of None \<Rightarrow> Inl (KeyError ''project_urls'')
               | Some None \<Rightarrow> Inr [] | Some (Some urls) \<Rightarrow> Inr urls) (\<lambda>urls.
       Inr (keep_links
         [(''Release'', Some (pypi_root info @ ''/'' @ relevant)),
          (''Homepage'', map_of urls ''Homepage''),
          (''Changelog'', py_or (map_of urls ''Changelog'')
             (py_or (map_of urls ''Changes'') (map_of urls ''Change Log'')))]))"

definition determine_action ::
  "('v::linorder) packaging \<Rightarrow> web \<Rightarrow> fs \<Rightarrow> toml_table \<Rightarrow> path \<Rightarrow> outcome res" where
  "determine_action pk w t meta stub_path =
     bind_res (read_typeshed_stub_metadata (path_name stub_path) meta) (\<lambda>stub_info.
     if obsolete stub_info
     then Inr (ANoUpdate \<lparr>no_distribution = distribution stub_info, reason = ''obsolete''\<rparr>)
     else if no_longer_updated stub_info
     then Inr (ANoUpdate \<lparr>no_distribution = distribution stub_info, reason = ''no longer updated''\<rparr>)
     else
     bind_res (fetch_pypi_info w (distribution stub_info)) (\<lambda>pypi_info.
     bind_res (get_latest_release pk pypi_info) (\<lambda>latest_release.
     bind_res (SpecifierSet pk (''=='' @ version_spec stub_info)) (\<lambda>spec.
     if spec (version latest_release)
     then Inr (ANoUpdate \<lparr>no_distribution = distribution stub_info, reason = ''up to date''\<rparr>)
     else
     bind_res (find_first_release_with_py_typed pk (web_names w) pypi_info) (\<lambda>obsolete_since.
     let relevant_version =
       (case obsolete_since of Some r \<Rightarrow> version r | None \<Rightarrow> version latest_release) in
     bind_res (project_links pypi_info (version_str pk relevant_version)) (\<lambda>links.
     bind_res (get_diff_info pk w stub_info pypi_info relevant_version) (\<lambda>diff_info.
     let links' = (case diff_info of None \<Rightarrow> links
                   | Some d \<Rightarrow> AList.update ''Diff'' (diff_url d) links) in
     case obsolete_since of
       Some r \<Rightarrow>
         Inr (AObsolete \<lparr>obs_distribution = distribution stub_info, obs_stub_path = stub_path,
           obsolete_since_version = version_str pk (version r), obsolete_since_date = upload_date r,
           obs_links = links'\<rparr>)
     | None \<Rightarrow>
         bind_res (case diff_info of None \<Rightarrow> Inr None
           | Some d \<Rightarrow> bind_res (analyze_diff w t (diff_repo_path d) stub_path (old_tag d) (new_tag d))
               (\<lambda>a. Inr (Some a))) (\<lambda>analysis.
         bind_res (get_updated_version_spec pk (version_spec stub_info) (version latest_release)) (\<lambda>new_spec.
           Inr (AUpdate \<lparr>upd_distribution = distribution stub_info, upd_stub_path = stub_path,
             old_version_spec = version_spec stub_info, new_version_spec = new_spec,
             upd_links = links', diff_analysis = analysis\<rparr>))))))))))"

subsection \<open>git\<close>

abbreviation TYPESHED_OWNER :: string where
  "TYPESHED_OWNER \<equiv> ''python''"

text \<open>The pattern \<^verbatim>\<open>(git@github.com:|https://github.com/)(?P<owner>[^/]+)/(?P<repo>[^/\s]+)\<close>, with the owner
  as group 2 and the repository as group 3; the dots match any character but a newline.\<close>

definition any_char :: regex where
  "any_char = Chars (\<lambda>c. c \<noteq> CHR 0x0A)"

definition origin_re :: regex where
  "origin_re =
     Seq (Group 1 (Alt (Seq (lit ''git@github'') (Seq any_char (lit ''com:'')))
                       (Seq (lit ''https://github'') (Seq any_char (lit ''com/'')))))
     (Seq (Group 2 (Plus (\<lambda>c. c \<noteq> CHR ''/'')))
     (Seq (lit ''/'') (Group 3 (Plus (\<lambda>c. c \<noteq> CHR ''/'' \<and> \<not> is_space c)))))"

definition owner_of_remote :: "string \<Rightarrow> string res" where
  "owner_of_remote output =
     (case re_match origin_re (strip output) of
        None \<Rightarrow> Inl AssertionError
      | Some (_, cs) \<Rightarrow>
          (case (map_of cs 2, map_of cs 3) of
             (Some owner, Some repo) \<Rightarrow>
               bind_res (assert_res (remove_suffix repo ''.git'' = ''typeshed'')) (\<lambda>_. Inr owner)
           | _ \<Rightarrow> Inl AssertionError))"

abbreviation origin_url_args :: "string list" where
  "origin_url_args \<equiv> [''git'', ''remote'', ''get-url'', ''origin'']"

text \<open>\<^verbatim>\<open>functools.lru_cache\<close> keeps the owner that an earlier call returned; failed calls are not kept. The trace of a run
  says whether there was one.\<close>

fun cached_owner :: "env \<Rightarrow> event list \<Rightarrow> event list \<Rightarrow> string option" where
  "cached_owner en before [] = None"
| "cached_owner en before (ev # evs) =
     (let p = env_run en before origin_url_args in
      if ev = Call origin_url_args \<and> returncode p = 0
      then (case owner_of_remote (stdout p) of
              Inr owner \<Rightarrow> Some owner
            | Inl _ \<Rightarrow> cached_owner en (before @ [ev]) evs)
      else cached_owner en (before @ [ev]) evs)"

definition get_origin_owner :: "env \<Rightarrow> string io" where
  "get_origin_owner en tr =
     (case cached_owner en [] tr of
        Some owner \<Rightarrow> ret owner tr
      | None \<Rightarrow> bind_io (check_output en origin_url_args) (\<lambda>out. lift (owner_of_remote out)) tr)"

definition log_args :: "string \<Rightarrow> string \<Rightarrow> string list" where
  "log_args fmt branch =
     [''git'', ''log'', ''--right-only'', ''--pretty='' @ fmt, ''--cherry-pick'', branch @ ''...origin/'' @ branch]"

definition on_called_process_error :: "'a io \<Rightarrow> exn \<Rightarrow> 'a io option" where
  "on_called_process_error k e = (case e of CalledProcessError _ \<Rightarrow> Some k | _ \<Rightarrow> None)"

definition debugprint :: "env \<Rightarrow> string list \<Rightarrow> unit io" where
  "debugprint en args = bind_io (check_output en args) (\<lambda>output. emit (Print (''[debugprint] '' @ repr_bytes output)))"

definition has_non_stubsabot_commits :: "env \<Rightarrow> string \<Rightarrow> bool io" where
  "has_non_stubsabot_commits en branch =
     seq (lift (assert_res (\<not> starts_with branch ''origin/'')))
     (try_except
       (seq (debugprint en (log_args ''%an %s'' branch))
       (seq (debugprint en (log_args ''%an'' branch))
       (bind_io (check_output en (log_args ''%an'' branch)) (\<lambda>output.
          ret (\<exists>a \<in> set (splitlines output). a \<noteq> ''stubsabot'')))))
       (on_called_process_error (ret False)))"

definition range_diff_args :: "string \<Rightarrow> string list" where
  "range_diff_args branch =
     [''git'', ''range-diff'', ''origin/'' @ branch @ ''~1..origin/'' @ branch, ''HEAD~1..HEAD'']"

definition latest_commit_is_different_to_last_commit_on_origin :: "env \<Rightarrow> string \<Rightarrow> bool io" where
  "latest_commit_is_different_to_last_commit_on_origin en branch =
     seq (lift (assert_res (\<not> starts_with branch ''origin/'')))
     (try_except
       (bind_io (check_run en (range_diff_args branch)) (\<lambda>p. ret (length (splitlines (stdout p)) > 1)))
       (on_called_process_error (ret True)))"

definition push_args :: "string \<Rightarrow> string list" where
  "push_args branch = [''git'', ''push'', ''origin'', branch, ''--force'']"

definition somewhat_safe_force_push :: "env \<Rightarrow> string \<Rightarrow> unit io" where
  "somewhat_safe_force_push en branch =
     bind_io (has_non_stubsabot_commits en branch) (\<lambda>b.
       if b then raise (RemoteConflict (''origin/'' @ branch @ '' has non-stubsabot changes that are not on '' @ branch @ ''!''))
       else check_call en (push_args branch))"

definition is_name_sep :: "char \<Rightarrow> bool" where
  "is_name_sep c \<longleftrightarrow> c \<in> set ''-_.''"

text \<open>PEP 503 normalization.\<close>

definition normalize :: "string \<Rightarrow> string" where
  "normalize name = lower (re_sub (Plus is_name_sep) (\<lambda>_. ''-'') name)"

abbreviation BRANCH_PREFIX :: string where
  "BRANCH_PREFIX \<equiv> ''stubsabot''"

definition branch_name :: "string \<Rightarrow> string" where
  "branch_name dist = BRANCH_PREFIX @ ''/'' @ normalize dist"

subsection \<open>Pull requests\<close>

definition pulls_url :: string where
  "pulls_url = ''https://api.github.com/repos/'' @ TYPESHED_OWNER @ ''/typeshed/pulls''"

definition create_or_update_pull_request :: "env \<Rightarrow> string \<Rightarrow> string \<Rightarrow> string \<Rightarrow> unit io" where
  "create_or_update_pull_request en title body branch =
     bind_io (get_origin_owner en) (\<lambda>fork_owner.
     let head = fork_owner @ '':'' @ branch in
     bind_io (http en ''POST'' pulls_url (get_github_api_headers (env_token en))
         [(''title'', title), (''body'', body), (''head'', head), (''base'', ''main'')]) (\<lambda>resp.
     if status resp = 422 \<and> (\<exists>m \<in> set (errors resp). contains ''A pull request already exists'' m)
     then bind_io (http en ''GET'' pulls_url (get_github_api_headers (env_token en))
            [(''state'', ''open''), (''head'', head), (''base'', ''main'')]) (\<lambda>resp2.
          seq (lift (raise_for_status (status resp2)))
          (case numbers resp2 of
             [] \<Rightarrow> raise AssertionError
           | pr_number # _ \<Rightarrow>
               bind_io (http en ''PATCH'' (pulls_url @ ''/'' @ show_int pr_number) (get_github_api_headers (env_token en))
                   [(''title'', title), (''body'', body)]) (\<lambda>resp3.
                 lift (raise_for_status (status resp3)))))
     else lift (raise_for_status (status resp))))"

abbreviation nl :: string where
  "nl \<equiv> [CHR 0x0A]"

definition links_text :: "(string, string) dict \<Rightarrow> string" where
  "links_text links = join_with nl (map (\<lambda>(k, v). k @ '': '' @ v) links)"

text \<open>\<^verbatim>\<open>metadata.get("tool", {}).get("stubtest", {}).get("skip", False)\<close>.\<close>

fun toml_table_get :: "toml \<Rightarrow> string \<Rightarrow> toml \<Rightarrow> toml res" where
  "toml_table_get (TTable d) k v0 = Inr (dict_get d k v0)"
| "toml_table_get _ k v0 = Inl AttributeError"

definition stubtest_skipped :: "toml_table \<Rightarrow> bool res" where
  "stubtest_skipped meta =
     bind_res (toml_table_get (dict_get meta ''tool'' (TTable [])) ''stubtest'' (TTable [])) (\<lambda>settings.
     bind_res (toml_table_get settings ''skip'' (TBool False)) (\<lambda>skip. Inr (truthy skip)))"

definition get_update_pr_body :: "Update \<Rightarrow> toml_table \<Rightarrow> string res" where
  "get_update_pr_body update metadata =
     (let body = links_text (upd_links update) @
            (case diff_analysis update of None \<Rightarrow> [] | Some d \<Rightarrow> nl @ nl @ show_DiffAnalysis d)
      in bind_res (stubtest_skipped metadata) (\<lambda>skip.
           Inr (body @
             (if \<not> skip
              then nl @ nl @ ''If stubtest fails for this PR:'' @ nl @
                ''- Leave this PR open (as a reminder, and to prevent stubsabot from opening another PR)'' @ nl @
                ''- Fix stubtest failures in another PR, then close this PR'' @ nl @ nl @
                ''Note that you will need to close and re-open the PR in order to trigger CI'' @ nl
              else nl @ nl @ '':warning: Review this PR manually, as stubtest is skipped in CI for '' @
                upd_distribution update @ ''! :warning:'' @ nl))))"

definition checkout_new :: "string \<Rightarrow> string list" where
  "checkout_new branch = [''git'', ''checkout'', ''-B'', branch, ''origin/main'']"

definition commit_args :: "string \<Rightarrow> string \<Rightarrow> string list" where
  "commit_args title body = [''git'', ''commit'', ''--all'', ''-m'', title @ nl @ nl @ body]"

text \<open>
  What \<^verbatim>\<open>suggest_typeshed_update\<close> and \<^verbatim>\<open>suggest_typeshed_obsolete\<close> do once the change is committed.
\<close>

definition publish :: "env \<Rightarrow> action_level \<Rightarrow> string \<Rightarrow> string \<Rightarrow> string \<Rightarrow> string \<Rightarrow> unit io" where
  "publish en level message title body branch =
     (if level \<le> Local then ret ()
      else bind_io (latest_commit_is_different_to_last_commit_on_origin en branch) (\<lambda>diff.
        if \<not> diff
        then emit (Print (message @ '' required: origin/'' @ branch @ '' exists and requires no changes!''))
        else seq (somewhat_safe_force_push en branch)
          (if level \<le> Fork then ret ()
           else create_or_update_pull_request en title body branch)))"

definition suggest_typeshed_update :: "env \<Rightarrow> Update \<Rightarrow> action_level \<Rightarrow> unit io" where
  "suggest_typeshed_update en update level =
     (if level \<le> Nothing then ret ()
      else
        let title = ''[stubsabot] Bump '' @ upd_distribution update @ '' to '' @ new_version_spec update;
            branch = branch_name (upd_distribution update);
            file = upd_stub_path update @ [''METADATA.toml'']
        in seq (check_call en (checkout_new branch))
          (bind_io (load_toml en file) (\<lambda>meta0.
           let meta = AList.update ''version'' (TStr (new_version_spec update)) meta0 in
           seq (emit (WriteToml file meta []))
           (bind_io (lift (get_update_pr_body update meta)) (\<lambda>body.
            seq (check_call en (commit_args title body))
              (publish en level ''No pushing to origin'' title body branch))))))"

definition suggest_typeshed_obsolete :: "env \<Rightarrow> Obsolete \<Rightarrow> action_level \<Rightarrow> unit io" where
  "suggest_typeshed_obsolete en ob level =
     (if level \<le> Nothing then ret ()
      else
        let title = ''[stubsabot] Mark '' @ obs_distribution ob @ '' as obsolete since '' @ obsolete_since_version ob;
            branch = branch_name (obs_distribution ob);
            file = obs_stub_path ob @ [''METADATA.toml'']
        in seq (check_call en (checkout_new branch))
          (bind_io (load_toml en file) (\<lambda>meta0.
           let meta = AList.update ''obsolete_since'' (TStr (obsolete_since_version ob)) meta0 in
           seq (emit (WriteToml file meta
             [(''obsolete_since'', ''Released on '' @ iso_date (obsolete_since_date ob))]))
           (let body = links_text (obs_links ob) in
            seq (check_call en (commit_args title body))
              (publish en level ''No PR'' title body branch)))))"

section \<open>Properties\<close>

subsection \<open>Force pushes\<close>

text \<open>C2: \<^verbatim>\<open>somewhat_safe_force_push\<close> pushes exactly when the branch is not itself a remote branch and
  either git has no remote branch to compare with (a \<^verbatim>\<open>git log\<close> fails) or every author that
  \<^verbatim>\<open>git log\<close> lists for the commits missing locally is stubsabot.\<close>

theorem somewhat_safe_force_push_guard:
  "\<exists>evs. snd (somewhat_safe_force_push en b tr) = tr @ evs \<and>
    (Call (push_args b) \<in> set evs \<longleftrightarrow>
      (let p0 = env_run en tr (log_args ''%an %s'' b);
           t1 = tr @ [Call (log_args ''%an %s'' b), Print (''[debugprint] '' @ repr_bytes (stdout p0))];
           p1 = env_run en t1 (log_args ''%an'' b);
           t2 = t1 @ [Call (log_args ''%an'' b), Print (''[debugprint] '' @ repr_bytes (stdout p1))];
           p2 = env_run en t2 (log_args ''%an'' b)
       in \<not> starts_with b ''origin/'' \<and>
          (returncode p0 \<noteq> 0 \<or> returncode p1 \<noteq> 0 \<or> returncode p2 \<noteq> 0 \<or>
           set (splitlines (stdout p2)) \<subseteq> {''stubsabot''})))"
proof -
  have "Call (push_args b) \<noteq> Call (log_args f b)" for f
    by (simp add: push_args_def log_args_def)
  then show ?thesis
    by (auto simp: somewhat_safe_force_push_def has_non_stubsabot_commits_def debugprint_def try_except_def
        on_called_process_error_def io_simps Let_def assert_res_def split: if_splits)
qed

text \<open>A remote branch with a commit by somebody else is not overwritten.\<close>

definition ex_conflict :: env where
  "ex_conflict = \<lparr>env_run = (\<lambda>tr args. \<lparr>returncode = 0,
       stdout = ''stubsabot'' @ [CHR 0x0A] @ ''alice'' @ [CHR 0x0A], stderr = []\<rparr>),
     env_http = (\<lambda>tr m u h q. \<lparr>status = 200, errors = [], numbers = []\<rparr>), env_toml = (\<lambda>tr p. []), env_fs = (\<lambda>tr. Dir []), env_token = None\<rparr>"

theorem somewhat_safe_force_push_guard_witness:
  "Call (push_args ''stubsabot/foo'') \<notin> set (snd (somewhat_safe_force_push ex_conflict ''stubsabot/foo'' []))"
proof -
  have "splitlines (''stubsabot'' @ [CHR 0x0A] @ ''alice'' @ [CHR 0x0A]) = [''stubsabot'', ''alice'']"
    by code_simp
  then show ?thesis
    using somewhat_safe_force_push_guard [of ex_conflict "''stubsabot/foo''" "[]"]
    by (auto simp: ex_conflict_def Let_def)
qed

subsection \<open>The owner of the fork\<close>

lemma cached_owner_append:
  "cached_owner en before (xs @ ys) =
     (case cached_owner en before xs of Some owner \<Rightarrow> Some owner | None \<Rightarrow> cached_owner en (before @ xs) ys)"
  by (induction xs arbitrary: before) (auto simp: Let_def split: option.splits sum.splits)

text \<open>Once the owner is known, every later call returns it without asking git.\<close>

lemma get_origin_owner_once:
  assumes "get_origin_owner en tr = (Inr owner, tr')"
  shows "get_origin_owner en (tr' @ evs) = (Inr owner, tr' @ evs)"
proof -
  have "cached_owner en [] tr' = Some owner"
    using assms
    by (auto simp: get_origin_owner_def io_simps cached_owner_append Let_def split: option.splits if_splits sum.splits)
  then show ?thesis by (simp add: get_origin_owner_def cached_owner_append io_simps)
qed

subsection \<open>Names of branches\<close>

lemma hd_greedy: "greedy P b a \<noteq> [] \<and> hd (greedy P b a) = (rev (takeWhile P a) @ b, dropWhile P a)"
  by (induction a arbitrary: b) auto

lemma runs_Plus_hd:
  "runs (Plus P) (b, x # xs) [] =
     (if P x then ((rev (x # takeWhile P xs) @ b, dropWhile P xs), []) # tl (runs (Plus P) (b, x # xs) []) else [])"
proof (cases "P x")
  case True
  then have "runs (Plus P) (b, x # xs) [] = map (\<lambda>p. (p, [])) (greedy P (x # b) xs)"
    by (simp add: Plus_def)
  then show ?thesis
    using True hd_greedy [of P "x # b" xs] by (cases "greedy P (x # b) xs") auto
qed (simp add: Plus_def)

lemma re_sub_Plus:
  "re_sub_from (Plus P) (\<lambda>_. w) b (x # xs) =
     (if P x then w @ re_sub_from (Plus P) (\<lambda>_. w) (rev (x # takeWhile P xs) @ b) (dropWhile P xs)
      else x # re_sub_from (Plus P) (\<lambda>_. w) (x # b) xs)"
proof (cases "P x")
  case True
  have len: "length (dropWhile P xs) < length (x # xs)"
    by (simp add: le_imp_less_Suc length_dropWhile_le)
  define rest where "rest = tl (runs (Plus P) (b, x # xs) [])"
  have "runs (Plus P) (b, x # xs) [] = ((rev (x # takeWhile P xs) @ b, dropWhile P xs), []) # rest"
    using True runs_Plus_hd [of P b x xs] unfolding rest_def by simp
  with True len show ?thesis by simp
next
  case False
  moreover have "runs (Plus P) (b, x # xs) [] = []" using False by (subst runs_Plus_hd) simp
  ultimately show ?thesis by simp
qed

text \<open>What normalization amounts to: every run of separators becomes one hyphen.\<close>

function squeeze :: "string \<Rightarrow> string" where
  "squeeze [] = []"
| "squeeze (x # xs) =
     (if is_name_sep x then CHR ''-'' # squeeze (dropWhile is_name_sep xs) else x # squeeze xs)"
  by pat_completeness auto
termination
  by (relation "measure length") (auto simp: le_imp_less_Suc length_dropWhile_le)

lemma normalize_squeeze: "normalize s = lower (squeeze s)"
proof -
  have "re_sub_from (Plus is_name_sep) (\<lambda>_. ''-'') b s = squeeze s" for b
  proof (induction s arbitrary: b rule: squeeze.induct)
    case (2 x xs)
    then show ?case by (subst re_sub_Plus) simp
  qed simp
  then show ?thesis by (simp add: normalize_def re_sub_def)
qed

text \<open>A normal name: separators are single hyphens and there is no upper-case letter.\<close>

fun normal_name :: "string \<Rightarrow> bool" where
  "normal_name [] = True"
| "normal_name (x # xs) =
     (\<not> is_upper x \<and> (is_name_sep x \<longrightarrow> x = CHR ''-'' \<and> (xs = [] \<or> \<not> is_name_sep (hd xs))) \<and> normal_name xs)"

lemma is_name_sep_to_lower [simp]: "is_name_sep (to_lower c) \<longleftrightarrow> is_name_sep c"
proof (cases "is_upper c")
  case True
  then have c: "65 \<le> (of_char c :: nat)" "(of_char c :: nat) \<le> 90"
    by (simp_all add: is_upper_def less_eq_char_def)
  have "of_char (to_lower c) = (of_char c + 32 :: nat)"
    using True c by (simp add: to_lower_def)
  then have "97 \<le> (of_char (to_lower c) :: nat)" using c by simp
  with c show ?thesis by (auto simp: is_name_sep_def)
qed (simp add: to_lower_def)

lemma normal_name_squeeze: "normal_name (lower (squeeze s))"
proof (induction s rule: squeeze.induct)
  case (2 x xs)
  have hd_dw: "ys = [] \<or> \<not> is_name_sep (hd ys) \<Longrightarrow> squeeze ys = [] \<or> \<not> is_name_sep (hd (squeeze ys))" for ys
    by (cases ys) auto
  have "dropWhile is_name_sep xs = [] \<or> \<not> is_name_sep (hd (dropWhile is_name_sep xs))"
    using hd_dropWhile by blast
  from hd_dw [OF this] "2" show ?case
    by (auto simp: lower_def to_lower_not_upper hd_map) (simp_all add: to_lower_def is_upper_def less_eq_char_def)
qed (simp add: lower_def)

lemma squeeze_normal: "normal_name s \<Longrightarrow> squeeze s = s"
proof (induction s)
  case (Cons x xs)
  then show ?case by (cases xs) auto
qed simp

lemma lower_normal: "normal_name s \<Longrightarrow> lower s = s"
  by (induction s) (auto simp: lower_def to_lower_def)

text \<open>C11: \<^verbatim>\<open>normalize\<close> yields a normal name as PEP 503 defines it, leaves normal names alone, and is
  therefore idempotent; two names get the same branch exactly when they have the same normal form.\<close>

theorem normalize_normal:
  "normal_name (normalize s) \<and> (normal_name s \<longleftrightarrow> normalize s = s) \<and> normalize (normalize s) = normalize s \<and>
   (branch_name s = branch_name t \<longleftrightarrow> normalize s = normalize t)"
  using normal_name_squeeze [of s]
  by (auto simp: normalize_squeeze branch_name_def squeeze_normal lower_normal)

subsection \<open>The outcome for one distribution\<close>

lemma read_metadata_version:
  "read_typeshed_stub_metadata n (AList.update ''version'' (TStr v) meta) =
     (Inr \<lparr>distribution = n, version_spec = v, obsolete = (map_of meta ''obsolete_since'' \<noteq> None),
        no_longer_updated = truthy (dict_get meta ''no_longer_updated'' (TBool False))\<rparr>)"
  by (simp add: read_typeshed_stub_metadata_def dict_item_def al.lookup_store dict_get_def)

lemma determine_action_UpdateD:
  assumes "determine_action pk w t meta p = Inr (AUpdate u)"
  shows "\<exists>v info latest spec.
    read_typeshed_stub_metadata (path_name p) meta =
      Inr \<lparr>distribution = path_name p, version_spec = v, obsolete = False, no_longer_updated = False\<rparr> \<and>
    fetch_pypi_info w (path_name p) = Inr info \<and> get_latest_release pk info = Inr latest \<and>
    specifier pk (''=='' @ v) = Some spec \<and> \<not> spec (version latest) \<and>
    find_first_release_with_py_typed pk (web_names w) info = Inr None \<and>
    old_version_spec u = v \<and> upd_stub_path u = p \<and> upd_distribution u = path_name p \<and>
    get_updated_version_spec pk v (version latest) = Inr (new_version_spec u)"
proof -
  obtain s where s: "read_typeshed_stub_metadata (path_name p) meta = Inr s"
    using assms by (auto simp: determine_action_def bind_res_eq_Inr)
  then have d: "distribution s = path_name p"
    by (auto simp: read_typeshed_stub_metadata_def bind_res_eq_Inr split: if_splits)
  have "\<not> obsolete s" "\<not> no_longer_updated s"
    using assms s by (auto simp: determine_action_def split: if_splits)
  with s d assms show ?thesis
    by (cases s)
      (auto simp: determine_action_def bind_res_eq_Inr SpecifierSet_eq Let_def
        split: if_splits option.splits)
qed

lemma get_updated_version_spec_matches:
  "get_updated_version_spec pk spec v = Inr s \<Longrightarrow> \<exists>f. specifier pk (''=='' @ s) = Some f \<and> f v"
  by (auto simp: get_updated_version_spec_def Let_def check_spec_eq_Inr split: if_splits)

lemma determine_action_ObsoleteD:
  assumes "determine_action pk w t meta p = Inr (AObsolete ob)"
  shows "obs_stub_path ob = p \<and> obs_distribution ob = path_name p \<and>
    (\<exists>s. read_typeshed_stub_metadata (path_name p) meta = Inr s)"
proof -
  obtain s where s: "read_typeshed_stub_metadata (path_name p) meta = Inr s"
    using assms by (auto simp: determine_action_def bind_res_eq_Inr)
  then have d: "distribution s = path_name p"
    by (auto simp: read_typeshed_stub_metadata_def bind_res_eq_Inr split: if_splits)
  with s assms show ?thesis
    by (auto simp: determine_action_def bind_res_eq_Inr Let_def split: if_splits option.splits)
qed

lemma determine_action_after_update:
  assumes "determine_action pk w t meta p = Inr (AUpdate u)"
  shows "determine_action pk w t (AList.update ''version'' (TStr (new_version_spec u)) meta) p =
    Inr (ANoUpdate \<lparr>no_distribution = path_name p, reason = ''up to date''\<rparr>)"
proof -
  obtain v info latest where meta: "read_typeshed_stub_metadata (path_name p) meta =
      Inr \<lparr>distribution = path_name p, version_spec = v, obsolete = False, no_longer_updated = False\<rparr>"
    and info: "fetch_pypi_info w (path_name p) = Inr info" and latest: "get_latest_release pk info = Inr latest"
    and new: "get_updated_version_spec pk v (version latest) = Inr (new_version_spec u)"
    using determine_action_UpdateD [OF assms] by blast
  obtain f where f: "specifier pk (''=='' @ new_version_spec u) = Some f" "f (version latest)"
    using get_updated_version_spec_matches [OF new] by blast
  have flags: "map_of meta ''obsolete_since'' = None"
    "\<not> truthy (dict_get meta ''no_longer_updated'' (TBool False))"
    using meta by (auto simp: read_typeshed_stub_metadata_def bind_res_eq_Inr split: if_splits)
  show ?thesis
    using info latest f flags
    by (simp add: determine_action_def read_metadata_version SpecifierSet_def)
qed

lemma determine_action_after_obsolete:
  assumes "determine_action pk w t meta p = Inr (AObsolete ob)"
  shows "determine_action pk w t (AList.update ''obsolete_since'' (TStr v) meta) p =
    Inr (ANoUpdate \<lparr>no_distribution = path_name p, reason = ''obsolete''\<rparr>)"
proof -
  obtain s where "read_typeshed_stub_metadata (path_name p) meta = Inr s"
    using determine_action_ObsoleteD [OF assms] by blast
  then show ?thesis
    by (auto simp: determine_action_def read_typeshed_stub_metadata_def bind_res_eq_Inr dict_item_def
        dict_get_def al.lookup_store split: option.splits if_splits)
qed

end
