(* ===== verification/Stubsabot_Main.thy ===== *)
theory Stubsabot_Main
  imports Stubsabot_Git
begin

section \<open>stubsabot: the main program\<close>

text \<open>
  \<^verbatim>\<open>src/scripts/stubsabot.py\<close>, lines 676 to 760. \<^verbatim>\<open>asyncio.as_completed\<close> delivers the results of
  \<^verbatim>\<open>determine_action\<close> in an unspecified order; the model takes them as a list in that order, an
  exception of a task being an \<open>Inl\<close> of the list. The properties hold for every such list.
\<close>

abbreviation denylist :: "string set" where
  "denylist \<equiv> {''gdb''}"

definition stub_tasks :: "fs \<Rightarrow> path list res" where
  "stub_tasks t =
     bind_res (listdir t [''stubs'']) (\<lambda>names.
       Inr (map (\<lambda>n. [''stubs'', n]) (filter (\<lambda>n. n \<notin> denylist) names)))"

definition suggest :: "env \<Rightarrow> outcome \<Rightarrow> action_level \<Rightarrow> unit io" where
  "suggest en oc level =
     (case oc of
        AUpdate u \<Rightarrow> suggest_typeshed_update en u level
      | AObsolete ob \<Rightarrow> suggest_typeshed_obsolete en ob level
      | ANoUpdate n \<Rightarrow> raise AssertionError)"

definition on_remote_conflict :: "exn \<Rightarrow> unit io option" where
  "on_remote_conflict e =
     (case e of RemoteConflict m \<Rightarrow> Some (emit (Print (''... but ran into RemoteConflict: '' @ m))) | _ \<Rightarrow> None)"

definition is_NoUpdate :: "outcome \<Rightarrow> bool" where
  "is_NoUpdate oc = (case oc of ANoUpdate _ \<Rightarrow> True | _ \<Rightarrow> False)"

fun main_loop :: "env \<Rightarrow> action_level \<Rightarrow> int option \<Rightarrow> outcome res list \<Rightarrow> int \<Rightarrow> unit io" where
  "main_loop en level limit [] action_count = ret ()"
| "main_loop en level limit (task # tasks) action_count =
     bind_io (lift task) (\<lambda>update.
     seq (emit (Print (show_outcome update)))
     (if is_NoUpdate update then main_loop en level limit tasks action_count
      else if limit \<noteq> None \<and> action_count \<ge> the limit
      then seq (emit (Print ''... but we've reached action count limit''))
             (main_loop en level limit tasks action_count)
      else seq (try_except (suggest en update level) on_remote_conflict)
             (main_loop en level limit tasks (action_count + 1))))"

definition uncommitted_changes_check :: "env \<Rightarrow> unit io" where
  "uncommitted_changes_check en =
     seq (run en [''git'', ''update-index'', ''--refresh''])
     (bind_io (run en [''git'', ''diff-index'', ''HEAD'', ''--name-only'']) (\<lambda>diff_result.
        if returncode diff_result \<noteq> 0
        then seq (emit (Print ''Unexpected exception!''))
             (seq (emit (Print (stdout diff_result)))
             (seq (emit (Print (stderr diff_result))) (raise (SystemExit (returncode diff_result)))))
        else if stdout diff_result \<noteq> []
        then seq (emit (Print (''Cannot run stubsabot, as uncommitted changes are present in '' @
               join_with '', '' (map repr_str (filter (\<lambda>l. l \<noteq> []) (split_on CHR 0x0A (stdout diff_result)))) @ ''!'')))
             (raise (SystemExit 1))
        else ret ()))"

definition show_current :: "string list" where
  "show_current = [''git'', ''branch'', ''--show-current'']"

definition fetch_all :: "string list" where
  "fetch_all = [''git'', ''fetch'', ''--prune'', ''--all'']"

definition main_work :: "env \<Rightarrow> action_level \<Rightarrow> int option \<Rightarrow> outcome res list res \<Rightarrow> unit io" where
  "main_work en level limit tasks = bind_io (lift tasks) (\<lambda>ts. main_loop en level limit ts 0)"

definition stubsabot_main ::
  "env \<Rightarrow> action_level \<Rightarrow> int option \<Rightarrow> outcome res list res \<Rightarrow> unit io" where
  "stubsabot_main en level limit tasks =
     seq (if level > Nothing then uncommitted_changes_check en else ret ())
     (seq (if level > Fork \<and> env_token en = None then raise ValueError else ret ())
     (bind_io (check_run en show_current) (\<lambda>p.
      let original_branch = strip (stdout p) in
      seq (if level \<ge> Fork then check_call en fetch_all else ret ())
      (try_finally (main_work en level limit tasks)
        (if level \<ge> Local then check_call en [''git'', ''checkout'', original_branch] else ret ())))))"

text \<open>
  The tasks of a run: \<^verbatim>\<open>metas\<close> gives the loaded \<^verbatim>\<open>METADATA.toml\<close> of a distribution, \<^verbatim>\<open>completed\<close> is the
  order in which \<^verbatim>\<open>asyncio.as_completed\<close> delivers.
\<close>

definition determine_all ::
  "('v::linorder) packaging \<Rightarrow> web \<Rightarrow> fs \<Rightarrow> (path \<Rightarrow> toml_table) \<Rightarrow>
     (path list \<Rightarrow> path list) \<Rightarrow> outcome res list res" where
  "determine_all pk w t metas completed =
     bind_res (stub_tasks t) (\<lambda>paths. Inr (map (\<lambda>p. determine_action pk w t (metas p) p) (completed paths)))"

section \<open>Properties\<close>

subsection \<open>What each action level permits\<close>

fun is_push :: "event \<Rightarrow> bool" where
  "is_push (Call (g # c # _)) = (g = ''git'' \<and> c = ''push'')"
| "is_push _ = False"

fun is_fetch :: "event \<Rightarrow> bool" where
  "is_fetch (Call (g # c # _)) = (g = ''git'' \<and> c = ''fetch'')"
| "is_fetch _ = False"

fun is_commit :: "event \<Rightarrow> bool" where
  "is_commit (Call (g # c # _)) = (g = ''git'' \<and> c = ''commit'')"
| "is_commit _ = False"

fun is_http :: "event \<Rightarrow> bool" where
  "is_http (Http _ _ _ _) = True"
| "is_http _ = False"

fun is_print :: "event \<Rightarrow> bool" where
  "is_print (Print _) = True"
| "is_print _ = False"

text \<open>
  \<open>allowed en level e\<close>: what the help texts of the action levels promise. At \<^verbatim>\<open>nothing\<close> the program
  prints and asks for the current branch; at \<^verbatim>\<open>local\<close> it does not reach a remote repository; at
  \<^verbatim>\<open>fork\<close> it makes no pull request. The requests by which \<^verbatim>\<open>determine_action\<close> reads from PyPI and GitHub are made at
  every level; they are not events of the trace. At every level a request that is one goes to the pull requests of
  typeshed, with the headers for the configured token.
\<close>

fun about_pulls :: "env \<Rightarrow> event \<Rightarrow> bool" where
  "about_pulls en (Http m u h q) = (starts_with u pulls_url \<and> h = get_github_api_headers (env_token en))"
| "about_pulls en _ = True"

definition allowed :: "env \<Rightarrow> action_level \<Rightarrow> event \<Rightarrow> bool" where
  "allowed en level e \<longleftrightarrow>
     (level \<le> Nothing \<longrightarrow> is_print e \<or> e = Call show_current) \<and>
     (level \<le> Local \<longrightarrow> \<not> is_push e \<and> \<not> is_fetch e) \<and>
     (level \<le> Fork \<longrightarrow> \<not> is_http e) \<and> about_pulls en e"

lemmas level_defs = less_eq_action_level_def less_action_level_def

text \<open>
  The contract between the main loop and the two kinds of suggestion: a suggestion stays within the
  action level and commits at most once.
\<close>

definition at_most :: "nat \<Rightarrow> (event \<Rightarrow> bool) \<Rightarrow> 'a io \<Rightarrow> bool" where
  "at_most n A m \<longleftrightarrow> (\<forall>tr. \<exists>evs. snd (m tr) = tr @ evs \<and> length (filter A evs) \<le> n)"

lemma at_mostI:
  "(\<And>tr r tr'. m tr = (r, tr') \<Longrightarrow> \<exists>evs. tr' = tr @ evs \<and> length (filter A evs) \<le> n) \<Longrightarrow> at_most n A m"
  unfolding at_most_def by (metis prod.collapse)

lemma at_mostD:
  "at_most n A m \<Longrightarrow> m tr = (r, tr') \<Longrightarrow> \<exists>evs. tr' = tr @ evs \<and> length (filter A evs) \<le> n"
  unfolding at_most_def by (metis snd_conv)

lemma at_most_none: "emits (\<lambda>e. \<not> A e) m \<Longrightarrow> at_most n A m"
  unfolding at_most_def emits_def
  by (metis (mono_tags, lifting) filter_False le0 length_0_conv list_all_iff)

lemma at_most_mono: "at_most k A m \<Longrightarrow> k \<le> n \<Longrightarrow> at_most n A m"
  unfolding at_most_def by (meson le_trans)

lemma at_most_bind:
  assumes "at_most i A m" and "\<And>x. at_most j A (f x)"
  shows "at_most (i + j) A (bind_io m f)"
proof (rule at_mostI)
  fix tr r tr' assume eq: "bind_io m f tr = (r, tr')"
  obtain q t where m: "m tr = (q, t)" by (cases "m tr")
  from at_mostD [OF assms(1) m] obtain evs where t: "t = tr @ evs" "length (filter A evs) \<le> i" by blast
  show "\<exists>evs. tr' = tr @ evs \<and> length (filter A evs) \<le> i + j"
  proof (cases q)
    case (Inl e)
    with eq m t show ?thesis by (auto simp: io_simps)
  next
    case (Inr x)
    with eq m have "f x t = (r, tr')" by (simp add: io_simps)
    from at_mostD [OF assms(2) this] obtain evs' where
      "tr' = t @ evs'" "length (filter A evs') \<le> j" by blast
    with t show ?thesis by (intro exI [of _ "evs @ evs'"]) simp
  qed
qed

lemma at_most_seq: "at_most i A m \<Longrightarrow> at_most j A k \<Longrightarrow> at_most (i + j) A (seq m k)"
  by (simp add: seq_def at_most_bind)

lemma at_most_seq_free: "emits (\<lambda>e. \<not> A e) m \<Longrightarrow> at_most j A k \<Longrightarrow> at_most j A (seq m k)"
  using at_most_seq [OF at_most_none] by (metis add_0)

lemma at_most_bind_free: "emits (\<lambda>e. \<not> A e) m \<Longrightarrow> (\<And>x. at_most j A (f x)) \<Longrightarrow> at_most j A (bind_io m f)"
  using at_most_bind [OF at_most_none] by (metis add_0)

lemma at_most_if: "(b \<Longrightarrow> at_most n A m) \<Longrightarrow> (\<not> b \<Longrightarrow> at_most n A k) \<Longrightarrow> at_most n A (if b then m else k)"
  by simp

lemma at_most_try_except:
  assumes "at_most n A m" and "\<And>e k. h e = Some k \<Longrightarrow> emits (\<lambda>e. \<not> A e) k"
  shows "at_most n A (try_except m h)"
proof (rule at_mostI)
  fix tr r tr' assume eq: "try_except m h tr = (r, tr')"
  obtain q t where m: "m tr = (q, t)" by (cases "m tr")
  from at_mostD [OF assms(1) m] obtain evs where t: "t = tr @ evs" "length (filter A evs) \<le> n" by blast
  show "\<exists>evs. tr' = tr @ evs \<and> length (filter A evs) \<le> n"
  proof (cases "\<exists>e k. q = Inl e \<and> h e = Some k")
    case True
    then obtain e k where q: "q = Inl e" and k: "h e = Some k" by blast
    with eq m have "k t = (r, tr')" by (simp add: try_except_def)
    from emitsD [OF assms(2) [OF k] this] obtain evs' where
      "tr' = t @ evs'" "list_all (\<lambda>e. \<not> A e) evs'" by blast
    with t show ?thesis by (intro exI [of _ "evs @ evs'"]) (simp add: list_all_iff)
  next
    case False
    with eq m have "tr' = t" by (auto simp: try_except_def split: sum.splits option.splits)
    with t show ?thesis by blast
  qed
qed

locale suggestion =
  fixes en :: env and sug :: "'a \<Rightarrow> action_level \<Rightarrow> unit io"
  assumes within_level: "emits (allowed en level) (sug x level)"
    and one_commit: "at_most 1 is_commit (sug x level)"
begin

text \<open>A sequence of suggestions stays within the level and commits at most as often as it is long.\<close>

lemma many_within_level: "emits (allowed en level) (for_each (\<lambda>x. sug x level) xs)"
  by (auto intro: emits_rules within_level)

lemma many_commits: "at_most (length xs) is_commit (for_each (\<lambda>x. sug x level) xs)"
proof (induction xs)
  case (Cons x xs)
  then show ?case
    using at_most_seq [OF one_commit Cons.IH] by simp
qed (simp add: at_most_none emits_ret)

lemma guarded_commits:
  "at_most 1 is_commit (try_except (sug x level) on_remote_conflict)"
  by (rule at_most_try_except [OF one_commit])
    (auto simp: on_remote_conflict_def intro!: emits_rules split: exn.splits)

lemma guarded_within_level:
  "emits (allowed en level) (try_except (sug x level) on_remote_conflict)"
  by (rule emits_try_except [OF within_level])
    (auto simp: on_remote_conflict_def allowed_def intro!: emits_rules split: exn.splits)

end

subsection \<open>The two kinds of suggestion meet the contract\<close>

lemma on_called_process_error_emits:
  "on_called_process_error (ret x) e = Some k \<Longrightarrow> emits A k"
  by (auto simp: on_called_process_error_def intro: emits_ret split: exn.splits)

lemmas git_args = log_args_def range_diff_args_def push_args_def checkout_new_def commit_args_def
  show_current_def fetch_all_def

lemma has_non_stubsabot_commits_emits:
  "(\<And>fmt. A (Call (log_args fmt b))) \<Longrightarrow> (\<And>m. A (Print m)) \<Longrightarrow> emits A (has_non_stubsabot_commits en b)"
  unfolding has_non_stubsabot_commits_def debugprint_def by (intro emits_rules) (auto intro: on_called_process_error_emits)

lemma latest_commit_is_different_emits:
  "A (Call (range_diff_args b)) \<Longrightarrow> emits A (latest_commit_is_different_to_last_commit_on_origin en b)"
  unfolding latest_commit_is_different_to_last_commit_on_origin_def
  by (intro emits_rules) (auto intro: on_called_process_error_emits)

lemma somewhat_safe_force_push_emits:
  "(\<And>fmt. A (Call (log_args fmt b))) \<Longrightarrow> (\<And>m. A (Print m)) \<Longrightarrow> A (Call (push_args b)) \<Longrightarrow> emits A (somewhat_safe_force_push en b)"
  unfolding somewhat_safe_force_push_def
  by (intro emits_rules has_non_stubsabot_commits_emits) auto

lemma get_origin_owner_emits: "A (Call origin_url_args) \<Longrightarrow> emits A (get_origin_owner en)"
  by (auto simp: emits_def get_origin_owner_def io_simps Let_def split: option.splits)

lemma create_or_update_pull_request_emits:
  "A (Call origin_url_args) \<Longrightarrow> (\<And>m u p. starts_with u pulls_url \<Longrightarrow> A (Http m u (get_github_api_headers (env_token en)) p)) \<Longrightarrow>
     emits A (create_or_update_pull_request en title body b)"
  unfolding create_or_update_pull_request_def
  by (intro emits_rules get_origin_owner_emits) (auto simp: starts_with_prefix)

lemma publish_emits:
  assumes "\<And>m. A (Print m)"
    and "level > Local \<Longrightarrow> A (Call (range_diff_args b))"
    and "\<And>fmt. level > Local \<Longrightarrow> A (Call (log_args fmt b))"
    and "level > Local \<Longrightarrow> A (Call (push_args b))"
    and "level > Fork \<Longrightarrow> A (Call origin_url_args)"
    and "\<And>m u p. level > Fork \<Longrightarrow> starts_with u pulls_url \<Longrightarrow> A (Http m u (get_github_api_headers (env_token en)) p)"
  shows "emits A (publish en level msg title body b)"
  unfolding publish_def
  by (intro emits_rules latest_commit_is_different_emits somewhat_safe_force_push_emits
      create_or_update_pull_request_emits assms)
    (simp_all add: not_le)

lemma suggest_typeshed_update_emits:
  assumes "\<And>m. A (Print m)" "\<And>p t c. level > Nothing \<Longrightarrow> A (WriteToml p t c)"
    and "\<And>b. level > Nothing \<Longrightarrow> A (Call (checkout_new b))"
    and "\<And>t b. level > Nothing \<Longrightarrow> A (Call (commit_args t b))"
    and "\<And>b. level > Local \<Longrightarrow> A (Call (range_diff_args b))"
    and "\<And>fmt b. level > Local \<Longrightarrow> A (Call (log_args fmt b))"
    and "\<And>b. level > Local \<Longrightarrow> A (Call (push_args b))"
    and "level > Fork \<Longrightarrow> A (Call origin_url_args)"
    and "\<And>m u p. level > Fork \<Longrightarrow> starts_with u pulls_url \<Longrightarrow> A (Http m u (get_github_api_headers (env_token en)) p)"
  shows "emits A (suggest_typeshed_update en u level)" "emits A (suggest_typeshed_obsolete en ob level)"
  unfolding suggest_typeshed_update_def suggest_typeshed_obsolete_def
  by (intro emits_rules publish_emits assms; simp add: not_le)+

lemma suggest_at_most_one_commit:
  "at_most 1 is_commit (suggest_typeshed_update en u level)"
  "at_most 1 is_commit (suggest_typeshed_obsolete en ob level)"
proof -
  have pub: "emits (\<lambda>e. \<not> is_commit e) (publish en level msg title body b)" for msg title body b
    by (rule publish_emits) (simp_all add: git_args)
  have commit: "at_most 1 is_commit (seq (check_call en (commit_args t b)) (publish en level msg title body br))"
    for t b msg title body br
  proof -
    have "at_most 1 is_commit (check_call en (commit_args t b))"
      by (auto simp: at_most_def io_simps Let_def git_args)
    from at_most_seq [OF this at_most_none [OF pub, of 0]] show ?thesis by simp
  qed
  show "at_most 1 is_commit (suggest_typeshed_update en u level)"
    unfolding suggest_typeshed_update_def Let_def
    by (intro at_most_if at_most_seq_free at_most_bind_free commit at_most_none emits_rules)
      (simp_all add: git_args)
  show "at_most 1 is_commit (suggest_typeshed_obsolete en ob level)"
    unfolding suggest_typeshed_obsolete_def Let_def
    by (intro at_most_if at_most_seq_free at_most_bind_free commit at_most_none emits_rules)
      (simp_all add: git_args)
qed

lemma allowed_intros:
  "allowed en level (Print m)"
  "level > Nothing \<Longrightarrow> allowed en level (WriteToml p t c)"
  "level > Nothing \<Longrightarrow> allowed en level (Call (checkout_new b))"
  "level > Nothing \<Longrightarrow> allowed en level (Call (commit_args t' b))"
  "level > Local \<Longrightarrow> allowed en level (Call (range_diff_args b))"
  "level > Local \<Longrightarrow> allowed en level (Call (log_args fmt b))"
  "level > Local \<Longrightarrow> allowed en level (Call (push_args b))"
  "level > Fork \<Longrightarrow> allowed en level (Call origin_url_args)"
  "level > Fork \<Longrightarrow> starts_with u pulls_url \<Longrightarrow> allowed en level (Http m u (get_github_api_headers (env_token en)) q)"
  by (cases level; simp add: allowed_def level_defs git_args)+

interpretation upd: suggestion en "suggest_typeshed_update en"
  by unfold_locales
    (intro suggest_typeshed_update_emits suggest_at_most_one_commit allowed_intros; assumption)+

interpretation obs: suggestion en "suggest_typeshed_obsolete en"
  by unfold_locales
    (intro suggest_typeshed_update_emits suggest_at_most_one_commit allowed_intros; assumption)+

interpretation sug: suggestion en "suggest en"
proof unfold_locales
  fix level oc
  show "emits (allowed en level) (suggest en oc level)"
    by (cases oc) (simp_all add: suggest_def upd.within_level obs.within_level emits_raise)
  show "at_most 1 is_commit (suggest en oc level)"
    by (cases oc) (auto simp: suggest_def simp del: One_nat_def
        intro: upd.one_commit obs.one_commit at_most_none emits_raise)
qed

subsection \<open>The main loop\<close>

lemma main_loop_within_level: "emits (allowed en level) (main_loop en level limit tasks n)"
proof (induction tasks arbitrary: n)
  case (Cons task tasks)
  then show ?case
    unfolding main_loop.simps
    by (intro emits_bind emits_lift emits_seq emits_emit emits_if allowed_intros
        sug.guarded_within_level Cons.IH)
qed (simp add: emits_ret)

lemma main_loop_commits:
  assumes "0 \<le> n"
  shows "at_most (nat (k - n)) is_commit (main_loop en level (Some k) tasks n)"
  using assms
proof (induction tasks arbitrary: n)
  case Nil
  then show ?case by (simp add: at_most_none emits_ret)
next
  case (Cons task tasks)
  have step: "at_most (nat (k - n)) is_commit
      (seq (try_except (suggest en oc level) on_remote_conflict) (main_loop en level (Some k) tasks (n + 1)))"
    if "n < k" for oc
  proof -
    have "nat (k - n) = 1 + nat (k - (n + 1))" using that by simp
    then show ?thesis
      using at_most_seq [OF sug.guarded_commits Cons.IH [of "n + 1"]] Cons.prems by simp
  qed
  show ?case
    unfolding main_loop.simps
    by (intro at_most_bind_free at_most_seq_free at_most_if emits_rules Cons step)
      (simp_all add: Cons.prems)
qed

subsection \<open>The whole run\<close>

lemma main_work_within_level: "emits (allowed en level) (main_work en level limit tasks)"
  unfolding main_work_def by (intro emits_rules main_loop_within_level)

lemma main_work_commits: "at_most (nat k) is_commit (main_work en level (Some k) tasks)"
  unfolding main_work_def using main_loop_commits [of 0 k]
  by (intro at_most_bind_free emits_rules) simp

lemma uncommitted_changes_check_emits:
  "A (Call [''git'', ''update-index'', ''--refresh'']) \<Longrightarrow>
   A (Call [''git'', ''diff-index'', ''HEAD'', ''--name-only'']) \<Longrightarrow> (\<And>m. A (Print m)) \<Longrightarrow>
     emits A (uncommitted_changes_check en)"
  unfolding uncommitted_changes_check_def by (intro emits_rules) auto

text \<open>A request that carries the token of the environment, so there is one.\<close>

fun authenticated :: "env \<Rightarrow> event \<Rightarrow> bool" where
  "authenticated en (Http m u h q) = (\<exists>secret. env_token en = Some secret \<and> h = get_github_api_headers (Some secret))"
| "authenticated en _ = True"

lemma stubsabot_allowed: "emits (allowed en level) (stubsabot_main en level limit tasks)"
  unfolding stubsabot_main_def
  by (intro emits_rules uncommitted_changes_check_emits main_work_within_level;
      cases level; simp add: allowed_def level_defs git_args)

lemma allowed_authenticated:
  "level \<le> Fork \<or> env_token en \<noteq> None \<Longrightarrow> allowed en level e \<Longrightarrow> authenticated en e"
  by (cases e) (auto simp: allowed_def)

lemma no_token_authenticated:
  assumes "level > Fork" "env_token en = None"
  shows "emits (authenticated en) (stubsabot_main en level limit tasks)"
proof -
  have "stubsabot_main en level limit tasks =
      seq (if level > Nothing then uncommitted_changes_check en else ret ()) (raise ValueError)"
    using assms by (simp add: stubsabot_main_def seq_def)
  then show ?thesis
    by (simp only:) (intro emits_rules uncommitted_changes_check_emits; simp)
qed

text \<open>C1: Whatever \<^verbatim>\<open>determine_action\<close> found by looking at PyPI and GitHub, a run of stubsabot keeps to its action level in
  acting on it: with \<^verbatim>\<open>--action-level nothing\<close> it only prints
  and asks for the current branch, with \<^verbatim>\<open>local\<close> it neither pushes nor fetches, and below
  \<^verbatim>\<open>everything\<close> it makes no pull request. Every request it does send then is about typeshed's
  pull requests and carries the token of \<^verbatim>\<open>GITHUB_TOKEN\<close>, so none is sent without one. This holds
  whatever git and GitHub answer and whichever tasks fail.\<close>

theorem stubsabot_within_level:
  "emits (\<lambda>e. allowed en level e \<and> authenticated en e) (stubsabot_main en level limit tasks)"
proof (cases "level \<le> Fork \<or> env_token en \<noteq> None")
  case True
  then show ?thesis
    by (intro emits_mono [OF stubsabot_allowed]) (blast intro: allowed_authenticated)
next
  case False
  then have "emits (authenticated en) (stubsabot_main en level limit tasks)"
    by (intro no_token_authenticated) auto
  with stubsabot_allowed show ?thesis by (rule emits_conj)
qed

text \<open>C3: With \<^verbatim>\<open>--action-count-limit k\<close> a run makes at most \<open>k\<close> commits.\<close>

theorem stubsabot_commit_limit:
  "at_most (nat k) is_commit (stubsabot_main en level (Some k) tasks)"
proof -
  let ?restore = "\<lambda>p :: proc. if level \<ge> Local then check_call en [''git'', ''checkout'', strip (stdout p)] else ret ()"
  have "at_most (nat k) is_commit (try_finally (main_work en level (Some k) tasks) (?restore p))" for p
  proof (rule at_mostI)
    fix tr r tr'
    assume eq: "try_finally (main_work en level (Some k) tasks) (?restore p) tr = (r, tr')"
    obtain q t where m: "main_work en level (Some k) tasks tr = (q, t)"
      by (cases "main_work en level (Some k) tasks tr")
    obtain q' t' where b: "?restore p t = (q', t')" by (cases "?restore p t")
    have "tr' = t'" using eq m b by (auto simp: try_finally_def split: sum.splits)
    moreover obtain evs where "t = tr @ evs" "length (filter is_commit evs) \<le> nat k"
      using at_mostD [OF main_work_commits m] by auto
    moreover have "emits (\<lambda>e. \<not> is_commit e) (?restore p)"
      by (intro emits_rules) simp
    then obtain evs' where "t' = t @ evs'" "list_all (\<lambda>e. \<not> is_commit e) evs'"
      using emitsD b by blast
    ultimately show "\<exists>evs. tr' = tr @ evs \<and> length (filter is_commit evs) \<le> nat k"
      by (intro exI [of _ "evs @ evs'"]) (simp add: list_all_iff)
  qed
  then show ?thesis
    unfolding stubsabot_main_def Let_def
    by (intro at_most_seq_free at_most_bind_free emits_rules uncommitted_changes_check_emits)
      (simp_all add: git_args)
qed

fun is_checkout_new :: "event \<Rightarrow> bool" where
  "is_checkout_new (Call (g # c # b # _)) = (g = ''git'' \<and> c = ''checkout'' \<and> b = ''-B'')"
| "is_checkout_new _ = False"

lemma try_finally_check_call_last:
  "try_finally m (check_call en args) tr = (r, tr') \<Longrightarrow> \<exists>t. tr' = t @ [Call args]"
  by (cases "m tr") (auto simp: try_finally_def io_simps Let_def split: if_splits)

text \<open>An event that the first part of a program cannot emit comes from the rest of it.\<close>

lemma bind_skip:
  assumes "bind_io m f tr = (r, tr @ evs)" and "emits (\<lambda>e. \<not> P e) m"
    and "\<And>x. emits (\<lambda>_. True) (f x)" and "\<exists>e \<in> set evs. P e"
  obtains x e1 e2 where "m tr = (Inr x, tr @ e1)" "f x (tr @ e1) = (r, (tr @ e1) @ e2)"
    "evs = e1 @ e2" "\<exists>e \<in> set e2. P e"
proof -
  obtain q t where m: "m tr = (q, t)" by (cases "m tr")
  obtain e1 where t: "t = tr @ e1" "list_all (\<lambda>e. \<not> P e) e1" using emitsD [OF assms(2) m] by blast
  obtain x where q: "q = Inr x"
    using assms(1,4) m t by (cases q) (auto simp: io_simps list_all_iff)
  with assms(1) m t have f: "f x (tr @ e1) = (r, tr @ evs)" by (simp add: io_simps)
  from emitsD [OF assms(3) this] obtain e2 where e2: "tr @ evs = (tr @ e1) @ e2" by blast
  then have evs: "evs = e1 @ e2" by simp
  with assms(4) t have "\<exists>e \<in> set e2. P e" by (auto simp: list_all_iff)
  with that m t q f evs show thesis by simp
qed

lemmas seq_skip = bind_skip [of _ "\<lambda>_. k" for k, folded seq_def]

text \<open>The parts of the main program: two checks, the current branch, and then the fetch and the work with its finally clause.\<close>

abbreviation first_check :: "env \<Rightarrow> action_level \<Rightarrow> unit io" where
  "first_check en level \<equiv> if level > Nothing then uncommitted_changes_check en else ret ()"

abbreviation token_check :: "env \<Rightarrow> action_level \<Rightarrow> unit io" where
  "token_check en level \<equiv> if level > Fork \<and> env_token en = None then raise ValueError else ret ()"

abbreviation fetch_first :: "env \<Rightarrow> action_level \<Rightarrow> unit io" where
  "fetch_first en level \<equiv> if level \<ge> Fork then check_call en fetch_all else ret ()"

abbreviation guarded_work :: "env \<Rightarrow> action_level \<Rightarrow> int option \<Rightarrow> outcome res list res \<Rightarrow> proc \<Rightarrow> unit io" where
  "guarded_work en level limit tasks p \<equiv>
     try_finally (main_work en level limit tasks) (check_call en [''git'', ''checkout'', strip (stdout p)])"

lemma stages_emit:
  "emits (\<lambda>e. \<not> is_checkout_new e) (first_check en level)"
  "emits (\<lambda>e. \<not> is_checkout_new e) (token_check en level)"
  "emits (\<lambda>e. \<not> is_checkout_new e) (check_run en show_current)"
  "emits (\<lambda>e. \<not> is_checkout_new e) (fetch_first en level)"
  by (intro emits_rules uncommitted_changes_check_emits; simp add: git_args)+

lemma guarded_work_emits: "emits (\<lambda>_. True) (guarded_work en level limit tasks p)"
  by (intro emits_rules emits_mono [OF main_work_within_level]) simp_all

lemma remaining_stages_emit:
  "emits (\<lambda>_. True) (seq (fetch_first en level) (guarded_work en level limit tasks p))"
  "emits (\<lambda>_. True) (bind_io (check_run en show_current) (\<lambda>p. seq (fetch_first en level) (guarded_work en level limit tasks p)))"
  "emits (\<lambda>_. True) (seq (token_check en level)
     (bind_io (check_run en show_current) (\<lambda>p. seq (fetch_first en level) (guarded_work en level limit tasks p))))"
  by (intro emits_rules guarded_work_emits uncommitted_changes_check_emits; simp)+

text \<open>C4: A run that has switched to a branch of its own ends by checking out the branch that was
  current when it started, also when it ends in an exception.\<close>

theorem stubsabot_restores_branch:
  assumes "stubsabot_main en level limit tasks tr = (r, tr @ evs)"
    and "level \<ge> Local" and "\<exists>e \<in> set evs. is_checkout_new e"
  shows "\<exists>pre post. evs = pre @ Call show_current # post \<and> post \<noteq> [] \<and>
    last evs = Call [''git'', ''checkout'', strip (stdout (env_run en (tr @ pre) show_current))]"
proof -
  let ?T = "guarded_work en level limit tasks"
  let ?D = "fetch_first en level"
  let ?C = "bind_io (check_run en show_current) (\<lambda>p. seq ?D (?T p))"
  note no = stages_emit and rest = remaining_stages_emit
  have main: "seq (first_check en level) (seq (token_check en level) ?C) tr = (r, tr @ evs)"
    using assms(1,2) by (simp add: stubsabot_main_def Let_def)
  obtain e1 es1 where 1: "evs = e1 @ es1" "\<exists>e \<in> set es1. is_checkout_new e"
    and k1: "seq (token_check en level) ?C (tr @ e1) = (r, (tr @ e1) @ es1)"
    by (rule seq_skip [OF main no(1) rest(3) assms(3)])
  obtain e2 es2 where 2: "es1 = e2 @ es2" "\<exists>e \<in> set es2. is_checkout_new e"
    and k2: "?C ((tr @ e1) @ e2) = (r, ((tr @ e1) @ e2) @ es2)"
    by (rule seq_skip [OF k1 no(2) rest(2) 1(2)])
  obtain p e3 es3 where 3: "es2 = e3 @ es3" "\<exists>e \<in> set es3. is_checkout_new e"
    and p: "check_run en show_current ((tr @ e1) @ e2) = (Inr p, ((tr @ e1) @ e2) @ e3)"
    and k3: "seq ?D (?T p) (((tr @ e1) @ e2) @ e3) = (r, (((tr @ e1) @ e2) @ e3) @ es3)"
    by (rule bind_skip [OF k2 no(3) rest(1) 2(2)])
  obtain e4 es4 where 4: "es3 = e4 @ es4" "\<exists>e \<in> set es4. is_checkout_new e"
    and k4: "?T p ((((tr @ e1) @ e2) @ e3) @ e4) = (r, ((((tr @ e1) @ e2) @ e3) @ e4) @ es4)"
    by (rule seq_skip [OF k3 no(4) guarded_work_emits 3(2)])
  have p': "p = env_run en (tr @ e1 @ e2) show_current" "e3 = [Call show_current]"
    using p by (auto simp: io_simps Let_def split: if_splits)
  have "es4 \<noteq> []" using 4(2) by auto
  moreover have "last (tr @ evs) = Call [''git'', ''checkout'', strip (stdout p)]"
    using try_finally_check_call_last [OF k4] 1 2 3 4 by (metis append.assoc last_snoc)
  ultimately show ?thesis
    using 1 2 3 4 p' by (intro exI [of _ "e1 @ e2"] exI [of _ "e4 @ es4"]) auto
qed

subsection \<open>A suggestion settles the matter\<close>

definition settled :: "('v::linorder) packaging \<Rightarrow> web \<Rightarrow> fs \<Rightarrow> path \<Rightarrow> event \<Rightarrow> bool" where
  "settled pk w t p e =
     (case e of WriteToml file meta _ \<Rightarrow>
        file = p @ [''METADATA.toml''] \<and>
        (case determine_action pk w t meta p of Inr oc \<Rightarrow> is_NoUpdate oc | Inl _ \<Rightarrow> False)
      | _ \<Rightarrow> True)"

lemma settled_other [simp]:
  "settled pk w t p (Call args)" "settled pk w t p (Http m u h q)" "settled pk w t p (Print s)"
  by (simp_all add: settled_def)

text \<open>C5: What a suggestion writes to \<^verbatim>\<open>METADATA.toml\<close> settles the matter: if \<^verbatim>\<open>determine_action\<close>
  proposed an update or an obsoletion and the metadata on \<^verbatim>\<open>origin/main\<close> is what it looked at, then
  it proposes nothing for the metadata written, so a second run after the merge skips the
  distribution.\<close>

theorem suggestion_settles:
  assumes "determine_action pk w t meta p = Inr oc"
    and "\<And>tr. env_toml en tr (p @ [''METADATA.toml'']) = meta"
  shows "emits (settled pk w t p) (suggest en oc level)"
proof (cases oc)
  case (AUpdate u)
  have u: "upd_stub_path u = p"
    and after: "determine_action pk w t (AList.update ''version'' (TStr (new_version_spec u)) meta) p =
      Inr (ANoUpdate \<lparr>no_distribution = path_name p, reason = ''up to date''\<rparr>)"
    using assms(1) AUpdate determine_action_UpdateD determine_action_after_update by blast+
  have "settled pk w t p (WriteToml (p @ [''METADATA.toml''])
      (AList.update ''version'' (TStr (new_version_spec u)) meta) c)" for c
    using after by (simp add: settled_def is_NoUpdate_def)
  then show ?thesis
    unfolding AUpdate suggest_def outcome.case suggest_typeshed_update_def Let_def u
    by (intro emits_if emits_seq emits_bind_load_toml emits_bind emits_rules publish_emits)
      (simp_all add: assms(2))
next
  case (AObsolete ob)
  have ob: "obs_stub_path ob = p"
    and after: "determine_action pk w t (AList.update ''obsolete_since'' (TStr v) meta) p =
      Inr (ANoUpdate \<lparr>no_distribution = path_name p, reason = ''obsolete''\<rparr>)" for v
    using assms(1) AObsolete determine_action_ObsoleteD determine_action_after_obsolete by blast+
  have "settled pk w t p (WriteToml (p @ [''METADATA.toml''])
      (AList.update ''obsolete_since'' (TStr v) meta) c)" for v c
    using after by (simp add: settled_def is_NoUpdate_def)
  then show ?thesis
    unfolding AObsolete suggest_def outcome.case suggest_typeshed_obsolete_def Let_def ob
    by (intro emits_if emits_seq emits_bind_load_toml emits_bind emits_rules publish_emits)
      (simp_all add: assms(2))
next
  case (ANoUpdate n)
  then show ?thesis by (simp add: suggest_def emits_raise)
qed

subsection \<open>Witnesses\<close>

definition ex_meta :: toml_table where
  "ex_meta = [(''version'', TStr ''1.*'')]"

definition ex_env :: env where
  "ex_env = \<lparr>env_run = (\<lambda>tr args. \<lparr>returncode = 0,
       stdout = (if args = show_current then ''work'' @ [CHR 0x0A] else []), stderr = []\<rparr>),
     env_http = (\<lambda>tr m u h q. \<lparr>status = 201, errors = [], numbers = []\<rparr>),
     env_toml = (\<lambda>tr p. ex_meta), env_fs = (\<lambda>tr. ex_tree), env_token = None\<rparr>"

definition ex_obsolete :: Obsolete where
  "ex_obsolete = \<lparr>obs_distribution = ''foo'', obs_stub_path = [''stubs'', ''foo''],
     obsolete_since_version = ''2.0'', obsolete_since_date = ''2023-05-01T10:00:00'',
     obs_links = [(''Release'', ''https://pypi.org/pypi/foo/2.0''), (''Homepage'', ''https://github.com/o/foo/''),
       (''Diff'', ''https://github.com/o/foo/compare/1.5...2.0'')]\<rparr>"

definition ex_run :: "event list" where
  "ex_run = [Call [''git'', ''update-index'', ''--refresh''],
     Call [''git'', ''diff-index'', ''HEAD'', ''--name-only''],
     Call show_current,
     Print (''Marking foo as obsolete since '' @ repr_str ''2.0''),
     Call (checkout_new ''stubsabot/foo''),
     WriteToml [''stubs'', ''foo'', ''METADATA.toml''] (ex_meta @ [(''obsolete_since'', TStr ''2.0'')])
       [(''obsolete_since'', ''Released on 2023-05-01'')],
     Call (commit_args ''[stubsabot] Mark foo as obsolete since 2.0'' (links_text (obs_links ex_obsolete))),
     Call [''git'', ''checkout'', ''work'']]"

lemma ex_determine_action:
  "determine_action simple_packaging ex_web ex_tree ex_meta [''stubs'', ''foo''] = Inr (AObsolete ex_obsolete)"
  by code_simp

lemma ex_stubsabot_main:
  "stubsabot_main ex_env Local None
     (determine_all simple_packaging ex_web ex_tree (\<lambda>_. ex_meta) rev) [] = (Inr (), [] @ ex_run)"
  by code_simp

theorem stubsabot_restores_branch_witness:
  "\<exists>pre post. ex_run = pre @ Call show_current # post \<and> post \<noteq> [] \<and>
    last ex_run = Call [''git'', ''checkout'', strip (stdout (env_run ex_env ([] @ pre) show_current))]"
  by (rule stubsabot_restores_branch [OF ex_stubsabot_main])
    (simp_all add: level_defs ex_run_def checkout_new_def)

theorem suggestion_settles_witness:
  "emits (settled simple_packaging ex_web ex_tree [''stubs'', ''foo'']) (suggest ex_env (AObsolete ex_obsolete) Local) \<and>
   WriteToml [''stubs'', ''foo'', ''METADATA.toml''] (ex_meta @ [(''obsolete_since'', TStr ''2.0'')])
       [(''obsolete_since'', ''Released on 2023-05-01'')] \<in> set (snd (suggest ex_env (AObsolete ex_obsolete) Local []))"
proof
  show "emits (settled simple_packaging ex_web ex_tree [''stubs'', ''foo'']) (suggest ex_env (AObsolete ex_obsolete) Local)"
    by (rule suggestion_settles [OF ex_determine_action]) (simp add: ex_env_def)
qed code_simp


definition ex_null_web :: web where
  "ex_null_web = ex_web\<lparr>web_pypi := (\<lambda>u. ex_info)\<rparr>"

lemma ex_null_facts:
  "read_typeshed_stub_metadata (path_name [''stubs'', ''foo'']) ex_meta = Inr ex_stub"
  "fetch_pypi_info ex_null_web (distribution ex_stub) =
     Inr (ex_info\<lparr>pypi_distribution := ''foo'', pypi_root := ''https://pypi.org/pypi/foo''\<rparr>)"
  "get_latest_release simple_packaging
     (ex_info\<lparr>pypi_distribution := ''foo'', pypi_root := ''https://pypi.org/pypi/foo''\<rparr>) =
     Inr (ex_release ''bdist_wheel'' ''u3w'' 3)"
  "find_first_release_with_py_typed simple_packaging (web_names ex_null_web)
     (ex_info\<lparr>pypi_distribution := ''foo'', pypi_root := ''https://pypi.org/pypi/foo''\<rparr>) =
     Inr (Some (ex_release ''sdist'' ''u2'' 2))"
  by code_simp+

lemma ex_wildcard_1: "simple_specifier (''=='' @ version_spec ex_stub) = Some (\<lambda>v. take 1 (v @ replicate 1 0) = [1])"
proof -
  have "simple_version (remove_suffix (drop 2 (''=='' @ version_spec ex_stub)) ''.*'') = Some [1]"
    "starts_with (''=='' @ version_spec ex_stub) ''=='' \<and> ends_with (drop 2 (''=='' @ version_spec ex_stub)) ''.*''"
    by code_simp+
  then show ?thesis by (simp add: simple_specifier_def Let_def del: replicate.simps)
qed


end
