(* ===== verification/Py_Text.thy ===== *)
theory Py_Text
  imports Py_Path
begin

section \<open>Lists by index and text by line\<close>

text \<open>
  Python's indexing with negative indices, \<^verbatim>\<open>list.insert\<close>, \<^verbatim>\<open>readlines\<close>, \<^verbatim>\<open>str.split()\<close> and
  \<^verbatim>\<open>os.path.join\<close>, as the scripts use them on configuration files.
\<close>

subsection \<open>Indexing\<close>

definition py_pos :: "'a list \<Rightarrow> int \<Rightarrow> nat option" where
  "py_pos xs i =
     (if 0 \<le> i \<and> i < int (length xs) then Some (nat i)
      else if - int (length xs) \<le> i \<and> i < 0 then Some (nat (i + int (length xs)))
      else None)"

definition py_index :: "'a list \<Rightarrow> int \<Rightarrow> 'a res" where
  "py_index xs i = (case py_pos xs i of Some n \<Rightarrow> Inr (xs ! n) | None \<Rightarrow> Inl IndexError)"

definition py_store :: "'a list \<Rightarrow> int \<Rightarrow> 'a \<Rightarrow> 'a list res" where
  "py_store xs i x = (case py_pos xs i of Some n \<Rightarrow> Inr (xs[n := x]) | None \<Rightarrow> Inl IndexError)"

definition py_insert :: "'a list \<Rightarrow> int \<Rightarrow> 'a \<Rightarrow> 'a list" where
  "py_insert xs i x =
     (let n = (if i < 0 then nat (i + int (length xs)) else nat i) in take n xs @ x # drop n xs)"

lemma py_pos_nat [simp]: "n < length xs \<Longrightarrow> py_pos xs (int n) = Some n"
  by (simp add: py_pos_def)

lemma py_index_nat: "n < length xs \<Longrightarrow> py_index xs (int n) = Inr (xs ! n)"
  by (simp add: py_index_def)

lemma py_index_Inr_iff: "(\<exists>x. py_index xs i = Inr x) \<longleftrightarrow> - int (length xs) \<le> i \<and> i < int (length xs)"
  by (auto simp: py_index_def py_pos_def split: option.splits if_splits)

lemma py_store_nat: "n < length xs \<Longrightarrow> py_store xs (int n) x = Inr (xs[n := x])"
  by (simp add: py_store_def)

lemma py_insert_nat: "py_insert xs (int n) x = take n xs @ x # drop n xs"
  by (simp add: py_insert_def)

lemma set_py_insert [simp]: "set (py_insert xs i x) = insert x (set xs)"
proof -
  have "set (take n xs) \<union> set (drop n xs) = set xs" for n
    by (metis append_take_drop_id set_append)
  then show ?thesis by (auto simp: py_insert_def Let_def)
qed

subsection \<open>Lines\<close>

fun readlines :: "string \<Rightarrow> string list" where
  "readlines [] = []"
| "readlines (c # cs) =
     (if c = CHR 0x0A then [c] # readlines cs
      else case readlines cs of [] \<Rightarrow> [[c]] | l # ls \<Rightarrow> (c # l) # ls)"

lemma concat_readlines [simp]: "concat (readlines s) = s"
  by (induction s) (auto split: list.splits)

definition is_line :: "string \<Rightarrow> bool" where
  "is_line l \<longleftrightarrow> l \<noteq> [] \<and> last l = CHR 0x0A \<and> CHR 0x0A \<notin> set (butlast l)"

lemma readlines_line: "is_line l \<Longrightarrow> readlines (l @ s) = l # readlines s"
proof (induction l)
  case (Cons c l)
  show ?case
  proof (cases l)
    case Nil
    with Cons.prems show ?thesis by (simp add: is_line_def)
  next
    case (Cons d l')
    with Cons.prems have "is_line l" "c \<noteq> CHR 0x0A" by (auto simp: is_line_def)
    with Cons.IH show ?thesis by simp
  qed
qed (simp add: is_line_def)

lemma readlines_concat: "list_all is_line ls \<Longrightarrow> readlines (concat ls) = ls"
  by (induction ls) (auto simp: readlines_line)

subsection \<open>Words and paths\<close>

fun split_at :: "(char \<Rightarrow> bool) \<Rightarrow> string \<Rightarrow> string list" where
  "split_at P [] = [[]]"
| "split_at P (c # cs) =
     (if P c then [] # split_at P cs else (c # hd (split_at P cs)) # tl (split_at P cs))"

definition split_ws :: "string \<Rightarrow> string list" where
  "split_ws s = filter (\<lambda>w. w \<noteq> []) (split_at is_space s)"

lemma split_at_neq_Nil [simp]: "split_at P s \<noteq> []"
  by (cases s) auto

lemma split_at_words: "w \<in> set (split_at P s) \<Longrightarrow> list_all (\<lambda>c. \<not> P c) w"
proof (induction s arbitrary: w)
  case (Cons c s)
  then have "\<And>v. v \<in> set (split_at P s) \<Longrightarrow> list_all (\<lambda>c. \<not> P c) v" by blast
  with Cons.prems show ?case
    by (cases "split_at P s") (auto split: if_splits)
qed simp

lemma split_ws_words: "w \<in> set (split_ws s) \<Longrightarrow> w \<noteq> [] \<and> list_all (\<lambda>c. \<not> is_space c) w"
  using split_at_words [of w is_space s] by (auto simp: split_ws_def)

definition os_path_join :: "string \<Rightarrow> string \<Rightarrow> string" where
  "os_path_join a b =
     (if starts_with b ''/'' then b
      else if a = [] \<or> ends_with a ''/'' then a @ b else a @ ''/'' @ b)"

end
