(* ===== verification/Create_Baseline.thy ===== *)
theory Create_Baseline
  imports Stubsabot_Git Py_Text
begin

section \<open>create_baseline_stubs: generating stubs for a project\<close>

text \<open>
  \<^verbatim>\<open>src/scripts/create_baseline_stubs.py\<close>. The commands it runs and the files it writes are events; the
  file tree before each step is part of the environment. \<^verbatim>\<open>distribution(p).read_text("top_level.txt")\<close>
  is the parameter \<open>top_level\<close>. The project name becomes part of a regular expression; the model
  reads it as the main program restricts it, to letters, digits, hyphens, underscores and dots.
\<close>

subsection \<open>pip freeze\<close>

definition fuzzy_char :: "char \<Rightarrow> char \<Rightarrow> bool" where
  "fuzzy_char c x \<longleftrightarrow>
     (if c \<in> set ''-_'' then x \<in> set ''-_''
      else if c = CHR ''.'' then x \<noteq> CHR 0x0A
      else to_lower x = to_lower c)"

primrec project_re :: "string \<Rightarrow> regex" where
  "project_re [] = Eps"
| "project_re (c # cs) = Seq (Chars (fuzzy_char c)) (project_re cs)"

definition freeze_re :: "string \<Rightarrow> regex" where
  "freeze_re project =
     Seq LineStart (Seq (Group 1 (project_re project)) (Seq (lit ''=='') (Group 2 (Many (\<lambda>c. c \<noteq> CHR 0x0A)))))"

definition search_pip_freeze_output :: "string \<Rightarrow> string \<Rightarrow> (string \<times> string) option" where
  "search_pip_freeze_output project output =
     (case re_search (freeze_re project) output of
        None \<Rightarrow> None
      | Some cs \<Rightarrow> Some (dict_get cs 1 [], dict_get cs 2 []))"

definition get_installed_package_info :: "env \<Rightarrow> string \<Rightarrow> (string \<times> string) option io" where
  "get_installed_package_info en project =
     bind_io (check_run en [''pip'', ''freeze'']) (\<lambda>r. ret (search_pip_freeze_output project (stdout r)))"

subsection \<open>Generating and formatting\<close>

definition run_stubgen :: "env \<Rightarrow> string \<Rightarrow> string \<Rightarrow> unit io" where
  "run_stubgen en package output =
     seq (emit (Print (''Running stubgen: stubgen -o '' @ output @ '' -p '' @ package)))
       (check_call en [''stubgen'', ''-o'', output, ''-p'', package, ''--export-less''])"

definition run_black :: "env \<Rightarrow> string \<Rightarrow> unit io" where
  "run_black en stub_dir =
     seq (emit (Print (''Running black: black '' @ stub_dir)))
       (seq (run en [''black'', stub_dir]) (ret ()))"

definition run_isort :: "env \<Rightarrow> string \<Rightarrow> unit io" where
  "run_isort en stub_dir =
     seq (emit (Print (''Running isort: isort '' @ stub_dir)))
       (seq (run en [''python3'', ''-m'', ''isort'', stub_dir]) (ret ()))"

text \<open>The pattern \<^verbatim>\<open>[0-9]+.[0-9]+\<close>, whose dot matches any character.\<close>

definition version_re :: regex where
  "version_re = Seq (Plus is_digit) (Seq any_char (Plus is_digit))"

definition create_metadata :: "env \<Rightarrow> string \<Rightarrow> string \<Rightarrow> unit io" where
  "create_metadata en stub_dir ver =
     (case re_match version_re ver of
        None \<Rightarrow> sys_exit (''Error: Cannot parse version number: '' @ ver)
      | Some (v, _) \<Rightarrow>
          let filename = os_path_join stub_dir ''METADATA.toml'' in
          bind_io (get_fs en) (\<lambda>t.
            if fs_exists t (path_of filename) then ret ()
            else seq (emit (Print (''Writing '' @ filename)))
              (emit (WriteFile (path_of filename) (''version = \"'' @ v @ ''.*\"'')))))"

subsection \<open>The exclusion list of the strict pyright configuration\<close>

abbreviation PYRIGHT_CONFIG :: string where
  "PYRIGHT_CONFIG \<equiv> ''pyrightconfig.stricter.json''"

function seek_exclude :: "string list \<Rightarrow> nat \<Rightarrow> nat" where
  "seek_exclude lines i =
     (if i < length lines \<and> \<not> starts_with (strip (lines ! i)) ''\"exclude\": [''
      then seek_exclude lines (i + 1) else i)"
  by auto
termination
  by (relation "measure (\<lambda>(lines, i). length lines - i)") auto

function seek_close :: "string list \<Rightarrow> nat \<Rightarrow> nat res" where
  "seek_close lines i =
     (if i < length lines
      then if starts_with (strip (lines ! i)) '']'' then Inr i else seek_close lines (i + 1)
      else Inl IndexError)"
  by auto
termination
  by (relation "measure (\<lambda>(lines, i). length lines - i)") auto

text \<open>The index may become negative, and then counts from the end of the list.\<close>

function seek_place :: "string list \<Rightarrow> string \<Rightarrow> int \<Rightarrow> int res" where
  "seek_place lines line i =
     (case py_index lines i of
        Inl e \<Rightarrow> Inl e
      | Inr l \<Rightarrow> if lower l > lower line then seek_place lines line (i - 1) else Inr i)"
  by auto
termination
proof (relation "measure (\<lambda>(lines, line, i). nat (i + int (length lines) + 1))")
  fix lines :: "string list" and line i l
  assume "py_index lines i = Inr l"
  then have "- int (length lines) \<le> i" using py_index_Inr_iff [of lines i] by blast
  then show "((lines, line, i - 1), lines, line, i) \<in> measure (\<lambda>(lines, line, i). nat (i + int (length lines) + 1))"
    by simp
qed simp

declare seek_exclude.simps [simp del] seek_close.simps [simp del] seek_place.simps [simp del]

definition bare :: "string \<Rightarrow> string" where
  "bare l = rstrip_char CHR '','' (strip l)"

definition exclusion_line :: "string \<Rightarrow> string" where
  "exclusion_line stub_dir = replace_all [CHR 0x5C] ''/'' (''        \"'' @ stub_dir @ ''\",'')"

text \<open>The new lines of the file, or \<open>None\<close> when it is up to date.\<close>

definition exclude_in :: "string list \<Rightarrow> string \<Rightarrow> string list option res" where
  "exclude_in lines stub_dir =
     (let i = seek_exclude lines 0 in
      bind_res (assert_res (i < length lines)) (\<lambda>_.
      bind_res (seek_close lines i) (\<lambda>i.
      let line_to_add = exclusion_line stub_dir; initial = int i - 1 in
      bind_res (seek_place lines line_to_add (int i)) (\<lambda>i.
      bind_res (py_index lines (i + 1)) (\<lambda>next_line.
      if bare next_line = bare line_to_add then Inr None
      else if i = initial
      then bind_res (py_index lines i) (\<lambda>l.
           bind_res (py_store lines i (rstrip l @ '','' @ [CHR 0x0A])) (\<lambda>lines'.
             Inr (Some (py_insert lines' (i + 1) (rstrip_char CHR '','' line_to_add @ [CHR 0x0A])))))
      else Inr (Some (py_insert lines (i + 1) (line_to_add @ [CHR 0x0A]))))))))"

definition add_pyright_exclusion :: "env \<Rightarrow> string \<Rightarrow> unit io" where
  "add_pyright_exclusion en stub_dir =
     bind_io (read_text en [PYRIGHT_CONFIG]) (\<lambda>text.
     bind_io (lift (exclude_in (readlines text) stub_dir)) (\<lambda>r.
     case r of
       None \<Rightarrow> emit (Print (PYRIGHT_CONFIG @ '' already up-to-date''))
     | Some lines \<Rightarrow>
         seq (emit (Print (''Updating '' @ PYRIGHT_CONFIG)))
           (emit (WriteFile [PYRIGHT_CONFIG] (concat lines)))))"

subsection \<open>The main program\<close>

definition is_project_char :: "char \<Rightarrow> bool" where
  "is_project_char c \<longleftrightarrow> is_upper c \<or> is_lower c \<or> is_digit c \<or> c \<in> set ''-_.''"

definition valid_project :: "string \<Rightarrow> bool" where
  "valid_project project \<longleftrightarrow> re_match (Seq (Plus is_project_char) EndAnchor) project \<noteq> None"

definition detect_package :: "(string \<Rightarrow> string option res) \<Rightarrow> string \<Rightarrow> string res" where
  "detect_package top_level project =
     bind_res (top_level project) (\<lambda>dist.
     case dist of
       None \<Rightarrow> Inr project
     | Some text \<Rightarrow>
         (case filter (\<lambda>n. \<not> starts_with n ''_'') (split_ws text) of
            [p] \<Rightarrow> Inr p
          | _ \<Rightarrow> Inr project))"

definition chosen_package :: "(string \<Rightarrow> string option res) \<Rightarrow> string \<Rightarrow> string option \<Rightarrow> string io" where
  "chosen_package top_level project package =
     (if package = None \<or> package = Some []
      then bind_io (lift (detect_package top_level project)) (\<lambda>p.
           seq (emit (Print (''Using detected package \"'' @ p @ ''\" for project \"'' @ project @ ''\"'')))
           (seq (emit (Print ''Suggestion: Try again with --package argument if that's not what you wanted''))
             (ret p)))
      else ret (the package))"

definition create_baseline_main :: "env \<Rightarrow> (string \<Rightarrow> string option res) \<Rightarrow> string \<Rightarrow> string option \<Rightarrow> unit io" where
  "create_baseline_main en top_level project0 package0 =
     seq (if valid_project project0 then ret () else sys_exit (''Invalid character in project name: '' @ repr_str project0))
     (bind_io (chosen_package top_level project0 package0) (\<lambda>package.
     bind_io (get_fs en) (\<lambda>t.
     if \<not> fs_is_dir t [''stubs''] \<or> \<not> fs_is_dir t [''stdlib'']
     then sys_exit ''Error: Current working directory must be the root of typeshed repository''
     else
     bind_io (get_installed_package_info en project0) (\<lambda>info.
     case info of
       None \<Rightarrow>
         seq (emit (Print (''Error: \"'' @ project0 @ ''\" is not installed'')))
         (seq (emit (Print []))
         (seq (emit (Print (''Suggestion: Run \"python3 -m pip install '' @ project0 @ ''\" and try again'')))
           (raise (SystemExit 1))))
     | Some (project, ver) \<Rightarrow>
         let stub_dir = os_path_join ''stubs'' project; package_dir = os_path_join stub_dir package in
         bind_io (get_fs en) (\<lambda>t.
         if fs_exists t (path_of package_dir) then sys_exit (''Error: '' @ package_dir @ '' already exists (delete it first)'')
         else seq (run_stubgen en package stub_dir)
           (seq (run_isort en stub_dir)
           (seq (run_black en stub_dir)
           (seq (create_metadata en stub_dir ver)
           (seq (add_pyright_exclusion en stub_dir)
           (seq (emit (Print (nl @ ''Done!'' @ nl @ nl @ ''Suggested next steps:'')))
           (seq (emit (Print ('' 1. Manually review the generated stubs in '' @ stub_dir)))
           (seq (emit (Print '' 2. Optionally run tests and autofixes (see tests/README.md for details)''))
             (emit (Print '' 3. Commit the changes on a new branch and create a typeshed PR (don't force-push!)''))))))))))))))"

section \<open>Properties\<close>

subsection \<open>pip freeze, line by line\<close>

text \<open>
  What \<^verbatim>\<open>search_pip_freeze_output\<close> means for one line: the project name up to case, hyphens and
  underscores, two equals signs and the version.
\<close>

definition freeze_line :: "string \<Rightarrow> string \<Rightarrow> (string \<times> string) option" where
  "freeze_line project l =
     (let n = length project in
      if list_all2 fuzzy_char project (take n l) \<and> starts_with (drop n l) ''==''
      then Some (take n l, drop (n + 2) l) else None)"

lemma runs_project_re:
  "runs (project_re p) (b, a) cs =
     (if list_all2 fuzzy_char p (take (length p) a)
      then [((rev (take (length p) a) @ b, drop (length p) a), cs)] else [])"
  by (induction p arbitrary: b a) (auto split: list.splits)

lemma fuzzy_char_newline: "c \<noteq> CHR 0x0A \<Longrightarrow> \<not> fuzzy_char c (CHR 0x0A)"
proof -
  have "to_lower c = CHR 0x0A \<Longrightarrow> c = CHR 0x0A"
  proof (cases "is_upper c")
    case True
    then have "65 \<le> (of_char c :: nat)" "(of_char c :: nat) \<le> 90"
      by (simp_all add: is_upper_def less_eq_char_def)
    moreover from True this have "of_char (to_lower c) = (of_char c + 32 :: nat)"
      by (simp add: to_lower_def)
    moreover assume "to_lower c = CHR 0x0A"
    ultimately show ?thesis by simp
  qed (simp add: to_lower_def)
  moreover have "to_lower CHR 0x0A = CHR 0x0A" by code_simp
  moreover assume "c \<noteq> CHR 0x0A"
  ultimately show ?thesis by (auto simp: fuzzy_char_def)
qed

lemma fuzzy_take_line:
  assumes "CHR 0x0A \<notin> set p"
  shows "list_all2 fuzzy_char p (take (length p) a) \<longleftrightarrow>
         list_all2 fuzzy_char p (take (length p) (takeWhile (\<lambda>c. c \<noteq> CHR 0x0A) a))"
  using assms
proof (induction p arbitrary: a)
  case (Cons c p)
  then show ?case by (cases a) (auto simp: fuzzy_char_newline)
qed simp

lemma fuzzy_no_newline: "list_all2 fuzzy_char p l \<Longrightarrow> CHR 0x0A \<notin> set p \<Longrightarrow> CHR 0x0A \<notin> set l"
  by (induction rule: list_all2_induct) (auto simp: fuzzy_char_newline)

lemma takeWhile_prefix: "\<forall>x \<in> set (take n a). P x \<Longrightarrow> drop n (takeWhile P a) = takeWhile P (drop n a) \<and> take n (takeWhile P a) = take n a"
proof (induction a arbitrary: n)
  case (Cons x a)
  then show ?case by (cases n) auto
qed simp

text \<open>A line that starts with the project: what the pattern and the line still have to agree on.\<close>

lemma runs_freeze_start:
  assumes "list_all2 fuzzy_char p (take (length p) a)"
  shows "runs (freeze_re p) (b, a) [] =
      (if b = [] \<or> hd b = CHR 0x0A
       then runs (Seq (lit ''=='') (Group 2 (Many (\<lambda>c. c \<noteq> CHR 0x0A)))) (rev (take (length p) a) @ b, drop (length p) a) [(1, take (length p) a)]
       else [])"
proof -
  have "length (take (length p) a) = length p" using list_all2_lengthD [OF assms] by (rule sym)
  then have "length a - length (drop (length p) a) = length p" by simp
  then have "runs (Seq LineStart (Seq (Group 1 (project_re p)) S)) (b, a) [] =
    (if b = [] \<or> hd b = CHR 0x0A
     then runs S (rev (take (length p) a) @ b, drop (length p) a) [(1, take (length p) a)] else [])" for S
    using assms by (simp add: runs_project_re del: length_drop)
  then show ?thesis by (simp only: freeze_re_def)
qed

lemma freeze_line_start:
  assumes "CHR 0x0A \<notin> set p" and fuzzy: "list_all2 fuzzy_char p (take (length p) a)"
  shows "freeze_line p (takeWhile (\<lambda>c. c \<noteq> CHR 0x0A) a) =
      (let l = takeWhile (\<lambda>c. c \<noteq> CHR 0x0A) (drop (length p) a) in
       if starts_with l ''=='' then Some (take (length p) a, drop 2 l) else None)"
proof -
  let ?P = "\<lambda>c. c \<noteq> CHR 0x0A"
  from fuzzy_no_newline [OF fuzzy assms(1)] have "\<forall>x \<in> set (take (length p) a). ?P x" by auto
  note tw = takeWhile_prefix [OF this]
  have r: "drop (length p) (takeWhile ?P a) = takeWhile ?P (drop (length p) a)" using tw by simp
  have drop2: "drop (length p + 2) (takeWhile ?P a) = drop 2 (takeWhile ?P (drop (length p) a))"
    unfolding r [symmetric] drop_drop by (simp only: add.commute)
  show ?thesis unfolding freeze_line_def Let_def r drop2 conjunct2 [OF tw] using fuzzy by simp
qed

lemma runs_freeze_re:
  assumes "CHR 0x0A \<notin> set p"
  shows "case freeze_line p (takeWhile (\<lambda>c. c \<noteq> CHR 0x0A) a) of
      None \<Rightarrow> runs (freeze_re p) (b, a) [] = []
    | Some (n, v) \<Rightarrow> if b = [] \<or> hd b = CHR 0x0A
        then runs (freeze_re p) (b, a) [] \<noteq> [] \<and> snd (hd (runs (freeze_re p) (b, a) [])) = [(1, n), (2, v)]
        else runs (freeze_re p) (b, a) [] = []"
proof (cases "list_all2 fuzzy_char p (take (length p) a)")
  case True
  let ?P = "\<lambda>c. c \<noteq> CHR 0x0A"
  note start = runs_freeze_start [OF True] freeze_line_start [OF assms True] Let_def
  define r where "r = drop (length p) a"
  show ?thesis
  proof (cases "\<exists>s. r = ''=='' @ s")
    case True
    then obtain s where s: "drop (length p) a = ''=='' @ s" by (auto simp: r_def)
    obtain q qs where "greedy ?P (''=='' @ rev (take (length p) a) @ b) s = q # qs" "snd q = dropWhile ?P s"
      using hd_greedy [of ?P "''=='' @ rev (take (length p) a) @ b" s]
      by (cases "greedy ?P (''=='' @ rev (take (length p) a) @ b) s") auto
    moreover have "take (length s - length (dropWhile ?P s)) s = takeWhile ?P s"
      by (metis add_diff_cancel_right' append_eq_conv_conj length_append takeWhile_dropWhile_id)
    ultimately show ?thesis by (simp add: start s starts_with_def)
  next
    case False
    then have "runs (lit ''=='') (b', r) cs = []" for b' cs
      by (auto split: list.splits)
    moreover have "\<not> starts_with (takeWhile ?P r) ''==''"
      using False takeWhile_dropWhile_id [of ?P r] unfolding starts_with_prefix prefix_def by (metis append.assoc)
    ultimately show ?thesis unfolding start r_def by simp
  qed
next
  case False
  moreover have "freeze_line p (takeWhile (\<lambda>c. c \<noteq> CHR 0x0A) a) = None"
    using False fuzzy_take_line [OF assms] by (simp add: freeze_line_def Let_def)
  ultimately show ?thesis by (simp add: freeze_re_def runs_project_re)
qed

lemma re_search_no_start:
  assumes "b \<noteq> []" "hd b \<noteq> CHR 0x0A"
  shows "re_search_from (freeze_re p) b a =
    (case dropWhile (\<lambda>c. c \<noteq> CHR 0x0A) a of [] \<Rightarrow> None
     | _ # rest \<Rightarrow> re_search_from (freeze_re p) (CHR 0x0A # rev (takeWhile (\<lambda>c. c \<noteq> CHR 0x0A) a) @ b) rest)"
  using assms
proof (induction a arbitrary: b)
  case Nil
  then show ?case by (subst re_search_from.simps) (simp add: freeze_re_def)
next
  case (Cons x a)
  have "re_search_from (freeze_re p) b (x # a) = re_search_from (freeze_re p) (x # b) a"
    using Cons.prems by (subst re_search_from.simps) (simp add: freeze_re_def)
  then show ?case using Cons.IH [of "x # b"]
    by (cases "x = CHR 0x0A"; cases "dropWhile (\<lambda>c. c \<noteq> CHR 0x0A) a")
      (simp_all del: dropWhile_eq_Nil_conv)
qed

lemma re_search_line:
  assumes "CHR 0x0A \<notin> set p" "b = [] \<or> hd b = CHR 0x0A"
  shows "re_search_from (freeze_re p) b a =
    (case freeze_line p (takeWhile (\<lambda>c. c \<noteq> CHR 0x0A) a) of
       Some (n, v) \<Rightarrow> Some [(1, n), (2, v)]
     | None \<Rightarrow> (case dropWhile (\<lambda>c. c \<noteq> CHR 0x0A) a of [] \<Rightarrow> None
         | _ # rest \<Rightarrow> re_search_from (freeze_re p) (CHR 0x0A # rev (takeWhile (\<lambda>c. c \<noteq> CHR 0x0A) a) @ b) rest))"
proof (cases "freeze_line p (takeWhile (\<lambda>c. c \<noteq> CHR 0x0A) a)")
  case None
  then have "runs (freeze_re p) (b, a) [] = []" using runs_freeze_re [OF assms(1), of b a] by simp
  then have "re_search_from (freeze_re p) b a = (case a of [] \<Rightarrow> None | x # xs \<Rightarrow> re_search_from (freeze_re p) (x # b) xs)"
    by (subst re_search_from.simps) simp
  moreover have "a = x # xs \<Longrightarrow> x \<noteq> CHR 0x0A \<Longrightarrow> ?thesis" for x xs
    using calculation None re_search_no_start [of "x # b" p xs]
    by (cases "dropWhile (\<lambda>c. c \<noteq> CHR 0x0A) xs") (simp_all del: dropWhile_eq_Nil_conv)
  ultimately show ?thesis using None by (cases a; cases "hd a = CHR 0x0A") simp_all
next
  case (Some nv)
  then obtain q qs where "runs (freeze_re p) (b, a) [] = q # qs" "snd q = [(1, fst nv), (2, snd nv)]"
    using runs_freeze_re [OF assms(1), of b a] assms(2)
    by (cases nv; cases "runs (freeze_re p) (b, a) []") auto
  then have "re_search_from (freeze_re p) b a = Some [(1, fst nv), (2, snd nv)]"
    by (subst re_search_from.simps) (auto split: prod.splits)
  with Some show ?thesis by (cases nv) simp
qed

lemma split_on_takeWhile:
  "split_on c s = takeWhile (\<lambda>x. x \<noteq> c) s #
     (case dropWhile (\<lambda>x. x \<noteq> c) s of [] \<Rightarrow> [] | _ # rest \<Rightarrow> split_on c rest)"
proof (cases "c \<in> set s")
  case True
  then obtain rest where d: "dropWhile (\<lambda>x. x \<noteq> c) s = c # rest"
    by (metis (mono_tags, lifting) dropWhile_eq_Nil_conv hd_dropWhile list.collapse)
  have "c \<notin> set (takeWhile (\<lambda>x. x \<noteq> c) s)" by (auto dest: set_takeWhileD)
  moreover have "s = takeWhile (\<lambda>x. x \<noteq> c) s @ c # rest" using d by (metis takeWhile_dropWhile_id)
  ultimately have "split_on c s = takeWhile (\<lambda>x. x \<noteq> c) s # split_on c rest"
    by (metis split_on_append_sep)
  with d show ?thesis by simp
next
  case False
  then have t: "takeWhile (\<lambda>x. x \<noteq> c) s = s" and d: "dropWhile (\<lambda>x. x \<noteq> c) s = []" by auto
  show ?thesis using False by (simp add: t d)
qed

lemma re_search_lines:
  assumes "CHR 0x0A \<notin> set p" "b = [] \<or> hd b = CHR 0x0A"
  shows "re_search_from (freeze_re p) b a =
    (case filter (\<lambda>l. freeze_line p l \<noteq> None) (split_on CHR 0x0A a) of
       [] \<Rightarrow> None
     | l # _ \<Rightarrow> map_option (\<lambda>(n, v). [(1, n), (2, v)]) (freeze_line p l))"
  using assms(2)
proof (induction "length a" arbitrary: a b rule: less_induct)
  case less
  let ?P = "\<lambda>c. c \<noteq> CHR 0x0A"
  show ?case
  proof (cases "dropWhile ?P a")
    case Nil
    then have "split_on CHR 0x0A a = [takeWhile ?P a]"
      by (subst split_on_takeWhile) (simp del: dropWhile_eq_Nil_conv)
    with Nil show ?thesis
      using re_search_line [OF assms(1) less.prems, of a]
      by (cases "freeze_line p (takeWhile ?P a)") (simp_all del: dropWhile_eq_Nil_conv split: prod.splits)
  next
    case (Cons x rest)
    then have "length rest < length a"
      by (metis length_Cons length_dropWhile_le less_eq_Suc_le)
    note IH = less.hyps [OF this, of "CHR 0x0A # rev (takeWhile ?P a) @ b"]
    have "split_on CHR 0x0A a = takeWhile ?P a # split_on CHR 0x0A rest"
      using Cons by (subst split_on_takeWhile) simp
    with Cons IH show ?thesis
      using re_search_line [OF assms(1) less.prems, of a]
      by (cases "freeze_line p (takeWhile ?P a)") (simp_all split: prod.splits)
  qed
qed


subsection \<open>The version in the metadata\<close>

lemma runs_Seq_hd: "runs r p cs = (p', cs') # rs \<Longrightarrow> runs s p' cs' = q # qs \<Longrightarrow> \<exists>qs'. runs (Seq r s) p cs = q # qs'"
  by simp

lemma runs_Plus_digits:
  assumes "a \<noteq> []" "list_all P a" "rest = [] \<or> \<not> P (hd rest)"
  shows "\<exists>qs. runs (Plus P) (b, a @ rest) cs = ((rev a @ b, rest), cs) # qs"
proof -
  obtain x xs where a: "a = x # xs" using assms(1) by (cases a) auto
  have tw: "takeWhile P (xs @ rest) = xs" "dropWhile P (xs @ rest) = rest"
    using assms a by (auto simp: list_all_iff takeWhile_append dropWhile_append) (cases rest; auto)+
  obtain g gs where "greedy P (x # b) (xs @ rest) = g # gs" "g = (rev xs @ x # b, rest)"
    using hd_greedy [of P "x # b" "xs @ rest"] tw by (cases "greedy P (x # b) (xs @ rest)") auto
  then show ?thesis using assms(2) a by (simp add: Plus_def)
qed

lemma version_re_match:
  assumes "a \<noteq> []" "list_all is_digit a" "b \<noteq> []" "list_all is_digit b" "rest = [] \<or> \<not> is_digit (hd rest)"
  shows "re_match version_re (a @ CHR ''.'' # b @ rest) = Some (a @ CHR ''.'' # b, [])"
proof -
  have dot: "\<not> is_digit CHR ''.''" by code_simp
  obtain q1 where 1: "runs (Plus is_digit) ([], a @ CHR ''.'' # b @ rest) [] = ((rev a, CHR ''.'' # b @ rest), []) # q1"
    using runs_Plus_digits [of a is_digit "CHR ''.'' # b @ rest" "[]" "[]"] assms(1,2) dot by auto
  have 2: "runs any_char (rev a, CHR ''.'' # b @ rest) [] = [((CHR ''.'' # rev a, b @ rest), [])]"
    by (simp add: any_char_def)
  obtain q3 where 3: "runs (Plus is_digit) (CHR ''.'' # rev a, b @ rest) [] =
      ((rev b @ CHR ''.'' # rev a, rest), []) # q3"
    using runs_Plus_digits [OF assms(3-5)] by blast
  obtain q4 where 4: "runs (Seq any_char (Plus is_digit)) (rev a, CHR ''.'' # b @ rest) [] =
      ((rev b @ CHR ''.'' # rev a, rest), []) # q4"
    using runs_Seq_hd [OF 2 3] by blast
  obtain q5 where "runs version_re ([], a @ CHR ''.'' # b @ rest) [] = ((rev b @ CHR ''.'' # rev a, rest), []) # q5"
    unfolding version_re_def using runs_Seq_hd [OF 1 4] by blast
  then show ?thesis by (simp add: re_match_def)
qed

lemma version_re_short:
  assumes "length v < 3"
  shows "re_match version_re v = None"
proof -
  have "accepts version_re [] v [] b' a' cs' \<Longrightarrow> False" for b' a' cs'
    using assms unfolding version_re_def Plus_def any_char_def
    by (auto elim!: accepts.cases)
  then show ?thesis unfolding re_match_None_iff by blast
qed

text \<open>C16: For a version of two or more numeric components \<^verbatim>\<open>create_metadata\<close> writes a
  \<^verbatim>\<open>METADATA.toml\<close> with the first two and a wildcard, unless the file exists already.\<close>

theorem create_metadata_writes:
  assumes "a \<noteq> []" "list_all is_digit a" "b \<noteq> []" "list_all is_digit b" "rest = [] \<or> \<not> is_digit (hd rest)"
  shows "create_metadata en stub_dir (a @ ''.'' @ b @ rest) tr =
    (let file = os_path_join stub_dir ''METADATA.toml'' in
     (Inr (), tr @ (if fs_exists (env_fs en tr) (path_of file) then []
       else [Print (''Writing '' @ file), WriteFile (path_of file) (''version = \"'' @ a @ ''.'' @ b @ ''.*\"'')])))"
  using version_re_match [OF assms]
  by (simp add: create_metadata_def io_simps Let_def)

text \<open>A version of at most two characters, such as \<^verbatim>\<open>7\<close> or \<^verbatim>\<open>12\<close>, is refused: the unescaped dot of
  the pattern needs a character between two digits.\<close>

theorem create_metadata_short_version:
  assumes "length ver < 3"
  shows "create_metadata en stub_dir ver tr =
    (Inl (SystemExit 1), tr @ [Print (''Error: Cannot parse version number: '' @ ver)])"
  using version_re_short [OF assms] by (simp add: create_metadata_def io_simps)

subsection \<open>The exclusion list\<close>

abbreviation opens_exclude :: "string \<Rightarrow> bool" where
  "opens_exclude l \<equiv> starts_with (strip l) ''\"exclude\": [''"

abbreviation closes_list :: "string \<Rightarrow> bool" where
  "closes_list l \<equiv> starts_with (strip l) '']''"

lemma seek_exclude_found:
  "list_all (\<lambda>l. \<not> opens_exclude l) pre \<Longrightarrow> opens_exclude ex \<Longrightarrow>
     seek_exclude (xs @ pre @ ex # rest) (length xs) = length xs + length pre"
proof (induction pre arbitrary: xs)
  case Nil
  then show ?case by (subst seek_exclude.simps) simp
next
  case (Cons l pre)
  then show ?case
    using Cons.IH [of "xs @ [l]"] by (subst seek_exclude.simps) simp
qed

lemma seek_close_found:
  "list_all (\<lambda>l. \<not> closes_list l) es \<Longrightarrow> closes_list cl \<Longrightarrow>
     seek_close (xs @ es @ cl # rest) (length xs) = Inr (length xs + length es)"
proof (induction es arbitrary: xs)
  case Nil
  then show ?case by (subst seek_close.simps) simp
next
  case (Cons l es)
  then show ?case
    using Cons.IH [of "xs @ [l]"] by (subst seek_close.simps) simp
qed

lemma seek_place_found:
  assumes "xs \<noteq> []" "lower (last xs) \<le> lower line" "\<forall>b \<in> set bs. lower line < lower b"
  shows "seek_place (xs @ bs @ rest) line (int (length xs + length bs) - 1) = Inr (int (length xs) - 1)"
  using assms(3)
proof (induction bs arbitrary: rest rule: rev_induct)
  case Nil
  obtain ys y where xs: "xs = ys @ [y]" using assms(1) by (cases xs rule: rev_cases) auto
  have "py_index (ys @ y # rest) (int (length ys)) = Inr y" by (subst py_index_nat) simp_all
  then have "seek_place (ys @ y # rest) line (int (length ys)) = Inr (int (length ys))"
    using assms(2) xs by (subst seek_place.simps) (auto dest: leD)
  then show ?case by (simp add: xs)
next
  case (snoc b bs)
  have "py_index (xs @ (bs @ [b]) @ rest) (int (length xs + length bs)) = Inr b"
    by (subst py_index_nat) (simp_all add: nth_append)
  moreover have "int (length xs + length (bs @ [b])) - 1 = int (length xs + length bs)" by simp
  ultimately show ?case
    using snoc.IH [of "b # rest"] snoc.prems by (subst seek_place.simps) simp
qed

subsection \<open>The whole program\<close>


subsection \<open>Witnesses\<close>

definition ex_config :: "string list" where
  "ex_config = [''{'' @ nl, ''    \"exclude\": ['' @ nl, ''        \"stubs/tqdm\",'' @ nl,
     ''        \"stubs/vobject\",'' @ nl, ''    ],'' @ nl, ''}'' @ nl]"


definition ex_checkout :: env where
  "ex_checkout = \<lparr>env_run = (\<lambda>tr args. \<lparr>returncode = 0, stdout = ''six==1.16.0'' @ nl, stderr = []\<rparr>),
     env_http = (\<lambda>tr m u h q. \<lparr>status = 200, errors = [], numbers = []\<rparr>), env_toml = (\<lambda>tr p. []),
     env_fs = (\<lambda>tr. Dir [(''stdlib'', Dir []), (''stubs'', Dir [(''six'', Dir [(''six'', Dir [])])])]), env_token = None\<rparr>"

lemma ex_checkout_facts:
  "search_pip_freeze_output ''six'' (stdout (env_run ex_checkout tr [''pip'', ''freeze''])) = Some (''six'', ''1.16.0'')"
  "fs_exists (env_fs ex_checkout tr) (path_of (os_path_join (os_path_join ''stubs'' ''six'') ''six''))"
proof -
  have "search_pip_freeze_output ''six'' (''six==1.16.0'' @ nl) = Some (''six'', ''1.16.0'')" by code_simp
  then show "search_pip_freeze_output ''six'' (stdout (env_run ex_checkout tr [''pip'', ''freeze''])) = Some (''six'', ''1.16.0'')"
    by (simp add: ex_checkout_def)
  have "path_of (os_path_join (os_path_join ''stubs'' ''six'') ''six'') = [''stubs'', ''six'', ''six'']" by code_simp
  then show "fs_exists (env_fs ex_checkout tr) (path_of (os_path_join (os_path_join ''stubs'' ''six'') ''six''))"
    by (simp add: ex_checkout_def fs_exists_def)
qed


theorem create_metadata_writes_witness:
  "create_metadata ex_checkout ''stubs/six'' (''1'' @ ''.'' @ ''16'' @ ''.0'') [] =
    (Inr (), [Print ''Writing stubs/six/METADATA.toml'',
       WriteFile [''stubs'', ''six'', ''METADATA.toml''] ''version = \"1.16.*\"''])"
proof -
  have "create_metadata ex_checkout ''stubs/six'' (''1'' @ ''.'' @ ''16'' @ ''.0'') [] =
    (let file = os_path_join ''stubs/six'' ''METADATA.toml'' in
     (Inr (), [] @ (if fs_exists (env_fs ex_checkout []) (path_of file) then []
       else [Print (''Writing '' @ file), WriteFile (path_of file) (''version = \"'' @ ''1'' @ ''.'' @ ''16'' @ ''.*\"'')])))"
    by (rule create_metadata_writes) code_simp+
  moreover have "os_path_join ''stubs/six'' ''METADATA.toml'' = ''stubs/six/METADATA.toml''"
    "path_of ''stubs/six/METADATA.toml'' = [''stubs'', ''six'', ''METADATA.toml'']"
    "\<not> fs_exists (env_fs ex_checkout []) [''stubs'', ''six'', ''METADATA.toml'']"
    by code_simp+
  ultimately show ?thesis by simp
qed

theorem create_metadata_short_version_witness:
  "create_metadata ex_checkout ''stubs/foo'' ''12'' [] =
    (Inl (SystemExit 1), [] @ [Print (''Error: Cannot parse version number: '' @ ''12'')])"
  by (rule create_metadata_short_version) simp

end
