(* ===== verification/Py_Json.thy ===== *)
theory Py_Json
  imports Py_Regex
begin

section \<open>json.loads\<close>

text \<open>
  The part of Python's \<^verbatim>\<open>json\<close> module that the scripts rely on: a recursive descent parser for JSON text.
  A number is kept as its text, a character escape beyond Latin-1 is refused, and a decoding error is a
  \<open>ValueError\<close>. The recursion is bounded by twice the length of the text, which is enough: more fuel
  does not change the result (\<open>json_loads_fuel_enough\<close>).
\<close>

datatype json =
    JNull
  | JBool bool
  | JNum string
  | JStr string
  | JArr "json list"
  | JObj "(string \<times> json) list"

definition is_json_space :: "char \<Rightarrow> bool" where
  "is_json_space c \<longleftrightarrow> c \<in> {CHR '' '', CHR 0x09, CHR 0x0A, CHR 0x0D}"

definition skip_ws :: "string \<Rightarrow> string" where
  "skip_ws s = dropWhile is_json_space s"

definition json_number_re :: regex where
  "json_number_re =
     Seq (Opt (lit ''-''))
     (Seq (Alt (lit ''0'') (Seq (Chars (\<lambda>c. is_digit c \<and> c \<noteq> CHR ''0'')) (Many is_digit)))
     (Seq (Opt (Seq (lit ''.'') (Plus is_digit)))
          (Opt (Seq (Chars (\<lambda>c. c \<in> set ''eE''))
               (Seq (Opt (Chars (\<lambda>c. c \<in> set ''+-''))) (Plus is_digit))))))"

definition hex_val :: "char \<Rightarrow> nat option" where
  "hex_val c =
     (let n = of_char c in
      if is_digit c then Some (n - 48)
      else if 97 \<le> n \<and> n \<le> 102 then Some (n - 87)
      else if 65 \<le> n \<and> n \<le> 70 then Some (n - 55) else None)"

definition simple_escape :: "char \<Rightarrow> char option" where
  "simple_escape c =
     map_of [(CHR 0x22, CHR 0x22), (CHR 0x5C, CHR 0x5C), (CHR ''/'', CHR ''/''), (CHR ''b'', CHR 0x08),
       (CHR ''f'', CHR 0x0C), (CHR ''n'', CHR 0x0A), (CHR ''r'', CHR 0x0D), (CHR ''t'', CHR 0x09)] c"

text \<open>The rest of a string literal after its opening quote.\<close>

fun json_string :: "string \<Rightarrow> (string \<times> string) option" where
  "json_string [] = None"
| "json_string (c # cs) =
     (if c = CHR 0x22 then Some ([], cs)
      else if c = CHR 0x5C then
        (case cs of
           [] \<Rightarrow> None
         | e # es \<Rightarrow>
             if e = CHR ''u'' then
               (case es of
                  h1 # h2 # h3 # h4 # rest \<Rightarrow>
                    (case (hex_val h1, hex_val h2, hex_val h3, hex_val h4) of
                       (Some 0, Some 0, Some a, Some b) \<Rightarrow>
                         map_option (\<lambda>(s, r). (char_of (16 * a + b) # s, r)) (json_string rest)
                     | _ \<Rightarrow> None)
                | _ \<Rightarrow> None)
             else
               (case simple_escape e of
                  None \<Rightarrow> None
                | Some x \<Rightarrow> map_option (\<lambda>(s, r). (x # s, r)) (json_string es)))
      else if of_char c < (32 :: nat) then None
      else map_option (\<lambda>(s, r). (c # s, r)) (json_string cs))"

definition is_number_char :: "char \<Rightarrow> bool" where
  "is_number_char c \<longleftrightarrow> is_digit c \<or> c \<in> set ''+-.eE''"

text \<open>
  The three mutually recursive parsers: a value; the elements of an array after its bracket or a comma;
  the members of an object after its brace or a comma.
\<close>

fun json_value :: "nat \<Rightarrow> string \<Rightarrow> (json \<times> string) option"
  and json_elements :: "nat \<Rightarrow> string \<Rightarrow> (json list \<times> string) option"
  and json_members :: "nat \<Rightarrow> string \<Rightarrow> ((string \<times> json) list \<times> string) option" where
  "json_value 0 s = None"
| "json_value (Suc k) s =
     (case s of
        [] \<Rightarrow> None
      | c # cs \<Rightarrow>
          if c = CHR 0x22 then map_option (\<lambda>(t, r). (JStr t, r)) (json_string cs)
          else if c = CHR ''['' then
            (if starts_with (skip_ws cs) '']'' then Some (JArr [], tl (skip_ws cs))
             else map_option (\<lambda>(es, r). (JArr es, r)) (json_elements k (skip_ws cs)))
          else if c = CHR ''{'' then
            (if starts_with (skip_ws cs) ''}'' then Some (JObj [], tl (skip_ws cs))
             else map_option (\<lambda>(ms, r). (JObj ms, r)) (json_members k (skip_ws cs)))
          else if starts_with s ''null'' then Some (JNull, drop 4 s)
          else if starts_with s ''true'' then Some (JBool True, drop 4 s)
          else if starts_with s ''false'' then Some (JBool False, drop 5 s)
          else if re_fullmatch json_number_re (takeWhile is_number_char s) \<noteq> None
          then Some (JNum (takeWhile is_number_char s), dropWhile is_number_char s)
          else None)"
| "json_elements 0 s = None"
| "json_elements (Suc k) s =
     (case json_value k s of
        None \<Rightarrow> None
      | Some (v, r) \<Rightarrow>
          (case skip_ws r of
             [] \<Rightarrow> None
           | d # ds \<Rightarrow>
               if d = CHR '']'' then Some ([v], ds)
               else if d = CHR '','' then map_option (\<lambda>(vs, r'). (v # vs, r')) (json_elements k (skip_ws ds))
               else None))"
| "json_members 0 s = None"
| "json_members (Suc k) s =
     (case s of
        [] \<Rightarrow> None
      | q # qs \<Rightarrow>
          if q \<noteq> CHR 0x22 then None
          else (case json_string qs of
             None \<Rightarrow> None
           | Some (key, r) \<Rightarrow>
               if \<not> starts_with (skip_ws r) '':'' then None
               else (case json_value k (skip_ws (tl (skip_ws r))) of
                  None \<Rightarrow> None
                | Some (v, r2) \<Rightarrow>
                    (case skip_ws r2 of
                       [] \<Rightarrow> None
                     | d # ds \<Rightarrow>
                         if d = CHR ''}'' then Some ([(key, v)], ds)
                         else if d = CHR '','' then
                           map_option (\<lambda>(ms, r'). ((key, v) # ms, r')) (json_members k (skip_ws ds))
                         else None))))"

definition json_loads_fuel :: "nat \<Rightarrow> string \<Rightarrow> json res" where
  "json_loads_fuel k s =
     (case json_value k (skip_ws s) of
        Some (v, r) \<Rightarrow> if skip_ws r = [] then Inr v else Inl ValueError
      | None \<Rightarrow> Inl ValueError)"

definition json_loads :: "string \<Rightarrow> json res" where
  "json_loads s = json_loads_fuel (2 * length s + 1) s"

text \<open>\<^verbatim>\<open>data[key]\<close> on a parsed object (the last of equal keys counts) and the strings of a list.\<close>

fun json_item :: "json \<Rightarrow> string \<Rightarrow> json res" where
  "json_item (JObj ms) k = (case map_of (rev ms) k of None \<Rightarrow> Inl (KeyError k) | Some v \<Rightarrow> Inr v)"
| "json_item _ k = Inl TypeError"

subsection \<open>Enough fuel\<close>

lemma length_skip_ws: "length (skip_ws s) \<le> length s"
  by (simp add: skip_ws_def length_dropWhile_le)

lemma json_string_shorter: "json_string s = Some (t, r) \<Longrightarrow> length r < length s"
proof (induction s arbitrary: t r rule: json_string.induct)
  case (2 c cs)
  then show ?case
    by (auto split: if_splits list.splits option.splits nat.splits) fastforce+
qed simp

text \<open>Each parser consumes its input, if those it calls do.\<close>

lemma json_value_shorter:
  assumes "\<And>t vs r. json_elements k t = Some (vs, r) \<Longrightarrow> length r \<le> length t"
    and "\<And>t ms r. json_members k t = Some (ms, r) \<Longrightarrow> length r \<le> length t"
    and "json_value (Suc k) s = Some (v, r)"
  shows "length r \<le> length s"
proof (cases s)
  case (Cons c cs)
  have sw: "length (skip_ws cs) \<le> length cs" "length (tl (skip_ws cs)) \<le> length cs"
    using length_skip_ws [of cs] by simp_all
  have nw: "length (dropWhile is_number_char (c # cs)) \<le> length (c # cs)" by (rule length_dropWhile_le)
  show ?thesis
    using assms(3) assms(1) [of "skip_ws cs" _ r] assms(2) [of "skip_ws cs" _ r] Cons sw nw
    by (auto dest!: json_string_shorter split: if_splits simp del: dropWhile.simps)
qed (use assms(3) in simp)

lemma json_elements_shorter:
  assumes "\<And>t v r. json_value k t = Some (v, r) \<Longrightarrow> length r \<le> length t"
    and rest: "\<And>t vs r. json_elements k t = Some (vs, r) \<Longrightarrow> length r \<le> length t"
    and run: "json_elements (Suc k) s = Some (vs, r)"
  shows "length r \<le> length s"
proof -
  obtain v1 r1 d ds where v: "json_value k s = Some (v1, r1)" and d: "skip_ws r1 = d # ds"
      and "r = ds \<or> (\<exists>ws. json_elements k (skip_ws ds) = Some (ws, r))"
    using run by (auto split: option.splits prod.splits list.splits if_splits)
  then have "length r \<le> length ds" using rest length_skip_ws [of ds] le_trans by blast
  moreover have "length ds < length r1" using length_skip_ws [of r1] d by simp
  ultimately show ?thesis using assms(1) [OF v] by linarith
qed

lemma json_members_shorter:
  assumes "\<And>t v r. json_value k t = Some (v, r) \<Longrightarrow> length r \<le> length t"
    and rest: "\<And>t ms r. json_members k t = Some (ms, r) \<Longrightarrow> length r \<le> length t"
    and run: "json_members (Suc k) s = Some (ms, r)"
  shows "length r \<le> length s"
proof -
  obtain q qs key r0 v1 r1 d ds where s: "s = q # qs" and str: "json_string qs = Some (key, r0)"
    and v: "json_value k (skip_ws (tl (skip_ws r0))) = Some (v1, r1)" and d: "skip_ws r1 = d # ds"
    and "r = ds \<or> (\<exists>ws. json_members k (skip_ws ds) = Some (ws, r))"
    using run by (auto split: option.splits prod.splits list.splits if_splits)
  then have "length r \<le> length ds" using rest length_skip_ws [of ds] le_trans by blast
  moreover have "length ds < length r1" using length_skip_ws [of r1] d by simp
  moreover have "length (skip_ws (tl (skip_ws r0))) \<le> length r0"
    using length_skip_ws [of r0] length_skip_ws [of "tl (skip_ws r0)"] by simp
  ultimately show ?thesis using assms(1) [OF v] json_string_shorter [OF str] s by simp
qed

lemma json_shorter:
  "json_value k s = Some (v, r) \<Longrightarrow> length r \<le> length s"
  "json_elements k s = Some (vs, r) \<Longrightarrow> length r \<le> length s"
  "json_members k s = Some (ms, r) \<Longrightarrow> length r \<le> length s"
proof (induction k arbitrary: s v r vs ms)
  case (Suc k)
  note IH = Suc.IH
  {
    case 1
    show ?case by (rule json_value_shorter [OF _ _ 1]) (erule IH)+
  next
    case 2
    show ?case by (rule json_elements_shorter [OF _ _ 2]) (erule IH)+
  next
    case 3
    show ?case by (rule json_members_shorter [OF _ _ 3]) (erule IH)+
  }
qed simp_all

text \<open>Two amounts of fuel give the same result, if they do for the texts that the parsers are called on.\<close>

lemma json_value_fuel:
  assumes "\<And>t. length t < length s \<Longrightarrow> json_elements k t = json_elements j t"
    and "\<And>t. length t < length s \<Longrightarrow> json_members k t = json_members j t"
  shows "json_value (Suc k) s = json_value (Suc j) s"
proof (cases s)
  case (Cons c cs)
  have "length (skip_ws cs) < length s" using Cons length_skip_ws [of cs] by simp
  from assms(1) [OF this] assms(2) [OF this] show ?thesis unfolding Cons json_value.simps list.case by (simp only:)
qed simp

lemma json_elements_fuel:
  assumes "json_value k s = json_value j s"
    and rest: "\<And>t. length t < length s \<Longrightarrow> json_elements k t = json_elements j t"
  shows "json_elements (Suc k) s = json_elements (Suc j) s"
proof (cases "json_value k s")
  case (Some vr)
  obtain v r where v: "json_value k s = Some (v, r)" "json_value j s = Some (v, r)" using Some assms(1) by (cases vr) simp
  have "json_elements k (skip_ws ds) = json_elements j (skip_ws ds)" if "skip_ws r = d # ds" for d ds
    using rest [of "skip_ws ds"] that length_skip_ws [of ds] length_skip_ws [of r] json_shorter(1) [OF v(1)] by simp
  with v show ?thesis by (cases "skip_ws r") simp_all
qed (use assms(1) in simp)

lemma json_members_fuel:
  assumes val: "\<And>t. length t < length s \<Longrightarrow> json_value k t = json_value j t"
    and rest: "\<And>t. length t < length s \<Longrightarrow> json_members k t = json_members j t"
  shows "json_members (Suc k) s = json_members (Suc j) s"
proof (cases "\<exists>q qs key r0. s = q # qs \<and> json_string qs = Some (key, r0)")
  case True
  then obtain q qs key r0 where s: "s = q # qs" and str: "json_string qs = Some (key, r0)" by blast
  let ?t = "skip_ws (tl (skip_ws r0))"
  have t: "length ?t < length s"
    using json_string_shorter [OF str] s length_skip_ws [of r0] length_skip_ws [of "tl (skip_ws r0)"] by simp
  have "json_members k (skip_ws ds) = json_members j (skip_ws ds)" if "json_value j ?t = Some (v, r)" "skip_ws r = d # ds" for v r d ds
    using rest [of "skip_ws ds"] that(2) length_skip_ws [of ds] length_skip_ws [of r] json_shorter(1) [OF that(1)] t by simp
  then show ?thesis
    unfolding s by (auto simp: str val [OF t] split: list.splits option.splits)
next
  case False
  then show ?thesis by (auto split: list.splits option.splits)
qed

lemma json_fuel:
  "2 * length s + 1 \<le> k \<Longrightarrow> 2 * length s + 1 \<le> k' \<Longrightarrow> json_value k s = json_value k' s"
  "2 * length s + 2 \<le> k \<Longrightarrow> 2 * length s + 2 \<le> k' \<Longrightarrow> json_elements k s = json_elements k' s"
  "2 * length s + 2 \<le> k \<Longrightarrow> 2 * length s + 2 \<le> k' \<Longrightarrow> json_members k s = json_members k' s"
proof (induction "length s" arbitrary: s k k' rule: less_induct)
  case less
  note IH = less.hyps
  have val: "json_value k s = json_value k' s" if "2 * length s + 1 \<le> k" "2 * length s + 1 \<le> k'" for k k'
    using that by (cases k; cases k') (auto intro!: json_value_fuel IH(2,3) simp del: json_value.simps)
  {
    case 1
    then show ?case by (rule val)
  next
    case 2
    then show ?case by (cases k; cases k') (auto intro!: json_elements_fuel val IH(2) simp del: json_elements.simps)
  next
    case 3
    then show ?case by (cases k; cases k') (auto intro!: json_members_fuel IH(1,3) simp del: json_members.simps)
  }
qed

lemma json_loads_fuel_enough: "2 * length s + 1 \<le> k \<Longrightarrow> json_loads_fuel k s = json_loads s"
proof -
  assume k: "2 * length s + 1 \<le> k"
  have "json_value k (skip_ws s) = json_value (2 * length s + 1) (skip_ws s)"
    using k length_skip_ws [of s] by (intro json_fuel) linarith+
  then show ?thesis by (simp only: json_loads_def json_loads_fuel_def)
qed

end
