(* ===== verification/Outcomes.thy ===== *)
theory Outcomes
  imports Effects
begin

section \<open>What a run has established\<close>

text \<open>
  \<open>has_run en tr evs args P\<close>: among the events \<open>evs\<close> after \<open>tr\<close> there is a call of \<open>args\<close> whose outcome
  satisfies \<open>P\<close>. \<open>ensures m Q\<close>: if \<open>m\<close> returns, its result and its events satisfy \<open>Q\<close>.
\<close>

definition has_run :: "env \<Rightarrow> event list \<Rightarrow> event list \<Rightarrow> string list \<Rightarrow> (proc \<Rightarrow> bool) \<Rightarrow> bool" where
  "has_run en tr evs args P \<longleftrightarrow> (\<exists>pre post. evs = pre @ Call args # post \<and> P (env_run en (tr @ pre) args))"

definition ensures :: "'a io \<Rightarrow> (event list \<Rightarrow> 'a \<Rightarrow> event list \<Rightarrow> bool) \<Rightarrow> bool" where
  "ensures m Q \<longleftrightarrow> (\<forall>tr y tr'. m tr = (Inr y, tr') \<longrightarrow> (\<exists>evs. tr' = tr @ evs \<and> Q tr y evs))"

lemma ensuresI: "(\<And>tr y tr'. m tr = (Inr y, tr') \<Longrightarrow> \<exists>evs. tr' = tr @ evs \<and> Q tr y evs) \<Longrightarrow> ensures m Q"
  by (simp add: ensures_def)

lemma ensuresD: "ensures m Q \<Longrightarrow> m tr = (Inr y, tr') \<Longrightarrow> \<exists>evs. tr' = tr @ evs \<and> Q tr y evs"
  by (simp add: ensures_def)

lemma has_run_left: "has_run en tr e1 args P \<Longrightarrow> has_run en tr (e1 @ e2) args P"
  unfolding has_run_def by fastforce

lemma has_run_right: "has_run en (tr @ e1) e2 args P \<Longrightarrow> has_run en tr (e1 @ e2) args P"
  unfolding has_run_def by (metis append.assoc)

lemma has_run_mono: "has_run en tr evs args P \<Longrightarrow> (\<And>p. P p \<Longrightarrow> P' p) \<Longrightarrow> has_run en tr evs args P'"
  unfolding has_run_def by blast

lemma ensures_bind:
  assumes "ensures m Q" and "\<And>x. ensures (f x) (R x)"
    and "\<And>tr x e1 y e2. Q tr x e1 \<Longrightarrow> R x (tr @ e1) y e2 \<Longrightarrow> S tr y (e1 @ e2)"
  shows "ensures (bind_io m f) S"
proof (rule ensuresI)
  fix tr y tr' assume "bind_io m f tr = (Inr y, tr')"
  then obtain x t where m: "m tr = (Inr x, t)" and f: "f x t = (Inr y, tr')"
    by (auto simp: io_simps split: prod.splits sum.splits)
  obtain e1 where 1: "t = tr @ e1" "Q tr x e1" using ensuresD [OF assms(1) m] by blast
  obtain e2 where 2: "tr' = t @ e2" "R x t y e2" using ensuresD [OF assms(2) f] by blast
  show "\<exists>evs. tr' = tr @ evs \<and> S tr y evs" using assms(3) 1 2 by (intro exI [of _ "e1 @ e2"]) simp
qed

lemma ensures_seq:
  assumes "ensures m Q" "ensures k R" "\<And>tr x e1 y e2. Q tr x e1 \<Longrightarrow> R (tr @ e1) y e2 \<Longrightarrow> S tr y (e1 @ e2)"
  shows "ensures (seq m k) S"
  unfolding seq_def using assms by (rule ensures_bind)

lemma ensures_ret: "Q [] \<Longrightarrow> ensures (ret x) (\<lambda>tr y evs. y = x \<and> Q evs)"
  by (auto simp: ensures_def io_simps)

lemma ensures_emits: "emits A m \<Longrightarrow> ensures m (\<lambda>tr y evs. True)"
  unfolding ensures_def by (metis emitsD)

lemma has_run_append:
  "has_run en tr (e1 @ e2) args P \<longleftrightarrow> has_run en tr e1 args P \<or> has_run en (tr @ e1) e2 args P"
proof
  assume "has_run en tr (e1 @ e2) args P"
  then obtain pre post where eq: "e1 @ e2 = pre @ Call args # post" and P: "P (env_run en (tr @ pre) args)"
    by (auto simp: has_run_def)
  from eq consider us where "e1 = pre @ Call args # us" | us where "pre = e1 @ us" "e2 = us @ Call args # post"
    by (auto simp: append_eq_append_conv2 append_eq_Cons_conv)
  then show "has_run en tr e1 args P \<or> has_run en (tr @ e1) e2 args P"
    using P by cases (auto simp: has_run_def)
qed (auto intro: has_run_left has_run_right)

lemma ensures_mono: "ensures m Q \<Longrightarrow> (\<And>tr y evs. Q tr y evs \<Longrightarrow> Q' tr y evs) \<Longrightarrow> ensures m Q'"
  unfolding ensures_def by meson

lemma ensures_bind_strongest:
  "ensures m Q \<Longrightarrow> (\<And>x. ensures (f x) (R x)) \<Longrightarrow>
     ensures (bind_io m f) (\<lambda>tr y evs. \<exists>x e1 e2. evs = e1 @ e2 \<and> Q tr x e1 \<and> R x (tr @ e1) y e2)"
  by (erule ensures_bind) blast+

lemma ensures_ret_eq: "ensures (ret x) (\<lambda>tr y evs. y = x)"
  by (auto simp: ensures_def io_simps)

lemma ensures_lift: "ensures (lift r) (\<lambda>tr y evs. r = Inr y)"
  by (simp add: ensures_def io_simps)

text \<open>
  \<open>has_call en tr evs C P\<close> is the same for a command that is only described: among the events there is a call of a command
  that satisfies \<open>C\<close> in the state in which it is run.
\<close>

definition has_call ::
  "env \<Rightarrow> event list \<Rightarrow> event list \<Rightarrow> (event list \<Rightarrow> string list \<Rightarrow> bool) \<Rightarrow> (proc \<Rightarrow> bool) \<Rightarrow> bool" where
  "has_call en tr evs C P \<longleftrightarrow>
     (\<exists>pre args post. evs = pre @ Call args # post \<and> C (tr @ pre) args \<and> P (env_run en (tr @ pre) args))"

lemma has_run_call: "has_run en tr evs args P \<longleftrightarrow> has_call en tr evs (\<lambda>_ a. a = args) P"
  by (auto simp: has_run_def has_call_def)

lemma has_call_left: "has_call en tr e1 C P \<Longrightarrow> has_call en tr (e1 @ e2) C P"
  unfolding has_call_def by fastforce

lemma has_call_right: "has_call en (tr @ e1) e2 C P \<Longrightarrow> has_call en tr (e1 @ e2) C P"
  unfolding has_call_def by (metis append.assoc)

lemma has_call_mono:
  "has_call en tr evs C P \<Longrightarrow> (\<And>t a. C t a \<Longrightarrow> C' t a) \<Longrightarrow> (\<And>p. P p \<Longrightarrow> P' p) \<Longrightarrow> has_call en tr evs C' P'"
  unfolding has_call_def by blast

lemma has_call_le: "has_call en tr evs C (\<lambda>p. returncode p \<le> c) \<Longrightarrow> c \<le> d \<Longrightarrow> has_call en tr evs C (\<lambda>p. returncode p \<le> d)"
  by (erule has_call_mono) auto

lemma ensures_run: "ensures (run en args) (\<lambda>tr p evs. has_run en tr evs args (\<lambda>q. q = p))"
  unfolding ensures_def io_run has_run_def by (metis Pair_inject append_Nil append_Nil2 sum.inject(2))

text \<open>What holds after the first of two steps and survives the second, and what the second establishes.\<close>

lemma ensures_seq_right:
  "emits A m \<Longrightarrow> ensures k Q \<Longrightarrow> (\<And>tr y e1 e2. Q (tr @ e1) y e2 \<Longrightarrow> Q tr y (e1 @ e2)) \<Longrightarrow> ensures (seq m k) Q"
  by (rule ensures_seq [OF ensures_emits])

lemma ensures_after_emit:
  "ensures k Q \<Longrightarrow> (\<And>tr y e1 e2. Q (tr @ e1) y e2 \<Longrightarrow> Q tr y (e1 @ e2)) \<Longrightarrow> ensures (seq (emit ev) k) Q"
  by (rule ensures_seq_right [where A = "\<lambda>_. True"]) (simp_all add: emits_emit)

lemma ensures_if: "(b \<Longrightarrow> ensures m Q) \<Longrightarrow> (\<not> b \<Longrightarrow> ensures k Q) \<Longrightarrow> ensures (if b then m else k) Q"
  by simp

lemma ensures_then_raise: "ensures (seq m (raise e)) Q"
  by (simp add: ensures_def seq_Inr io_run(2))

text \<open>A report that ends in returning a value.\<close>

lemma ensures_report: "emits (\<lambda>_. True) m \<Longrightarrow> ensures (seq m (ret c)) (\<lambda>tr d evs. d = c)"
  by (erule ensures_seq_right) (simp_all add: ensures_ret_eq)

end
