(* ===== verification/Runtests.thy ===== *)
theory Runtests
  imports Stubsabot_Git Py_Json Outcomes
begin

section \<open>runtests: every check of one stub\<close>

text \<open>
  \<^verbatim>\<open>src/scripts/runtests.py\<close>. The tools are commands in the trace; \<open>exe\<close> is \<^verbatim>\<open>sys.executable\<close>, and
  \<open>win32\<close> says whether the platform is Windows. Colours of the output are left out
  (\<^verbatim>\<open>colored\<close> is the identity, as without the \<^verbatim>\<open>termcolor\<close> package).
\<close>

subsection \<open>The strict configuration of pyright\<close>

abbreviation STRICTER_CONFIG_FILE :: string where
  "STRICTER_CONFIG_FILE \<equiv> ''pyrightconfig.stricter.json''"

abbreviation PYTHON_VERSION :: string where
  "PYTHON_VERSION \<equiv> ''3.7''"

text \<open>The pattern \<^verbatim>\<open>,(\s*?[\}\]])\<close>, replaced by its group.\<close>

definition is_closing :: "char \<Rightarrow> bool" where
  "is_closing c \<longleftrightarrow> c \<in> set ''}]''"

definition trailing_comma_re :: regex where
  "trailing_comma_re = Seq (lit '','') (Group 1 (Seq (ManyLazy is_space) (Chars is_closing)))"

definition parse_jsonc :: "string \<Rightarrow> string" where
  "parse_jsonc json_text =
     (let lines = filter (\<lambda>line. \<not> starts_with (strip line) ''//'') (split_on CHR 0x0A json_text)
      in re_sub trailing_comma_re (\<lambda>cs. dict_get cs 1 []) (join_with nl lines))"

text \<open>The strings of \<^verbatim>\<open>data["exclude"]\<close>; iteration and \<^verbatim>\<open>lower\<close> fail on anything else.\<close>

fun json_strings :: "json \<Rightarrow> string list res" where
  "json_strings (JArr xs) =
     map_res (\<lambda>x. case x of JStr s \<Rightarrow> Inr s | _ \<Rightarrow> Inl AttributeError) xs"
| "json_strings _ = Inl TypeError"

definition strict_params_of :: "string \<Rightarrow> string \<Rightarrow> string list res" where
  "strict_params_of config stub_path =
     bind_res (json_loads (parse_jsonc config)) (\<lambda>data.
     bind_res (json_item data ''exclude'') (\<lambda>ex.
     bind_res (json_strings ex) (\<lambda>stubs.
       Inr (if \<exists>stub \<in> set stubs. lower stub_path = lower stub then []
            else [''-p'', STRICTER_CONFIG_FILE]))))"

definition get_strict_params :: "env \<Rightarrow> string \<Rightarrow> string list io" where
  "get_strict_params en stub_path =
     bind_io (read_text en [STRICTER_CONFIG_FILE]) (\<lambda>config. lift (strict_params_of config stub_path))"

subsection \<open>The main program\<close>

definition npx_re :: regex where
  "npx_re = Seq (lit ''error '') (Seq (Group 1 (Alt (lit ''runn'') (lit ''find''))) (lit ''ing npx''))"

definition say :: "string \<Rightarrow> unit io" where
  "say s = emit (Print s)"

definition tool :: "env \<Rightarrow> string \<Rightarrow> string \<Rightarrow> string list \<Rightarrow> proc io" where
  "tool en exe title args = seq (say (nl @ ''Running '' @ title @ ''...'')) (run en (exe # args))"

text \<open>\<^verbatim>\<open>parser.error\<close> prints and exits with status 2.\<close>

definition check_path :: "env \<Rightarrow> string \<Rightarrow> (string \<times> string) io" where
  "check_path en path =
     bind_io (get_fs en) (\<lambda>t.
     case path_of path of
       [folder, stub] \<Rightarrow>
         if folder \<notin> {''stdlib'', ''stubs''} then raise (SystemExit 2)
         else if \<not> fs_exists t (path_of path) then raise (SystemExit 2)
         else ret (folder, stub)
     | _ \<Rightarrow> raise (SystemExit 2))"

definition run_formatters :: "env \<Rightarrow> string \<Rightarrow> string \<Rightarrow> unit io" where
  "run_formatters en exe path =
     seq (tool en exe ''pycln'' [''-m'', ''pycln'', path, ''--config=pyproject.toml''])
     (seq (tool en exe ''isort'' [''-m'', ''isort'', path])
     (bind_io (tool en exe ''Black'' [''-m'', ''black'', path]) (\<lambda>black_result.
        if returncode black_result = 123
        then seq (say ''Could not run tests due to an internal error with Black. See above for details.'')
               (raise (SystemExit (returncode black_result)))
        else ret ())))"

text \<open>The return code of pyright, or \<open>None\<close> when it is skipped.\<close>

definition run_pyright :: "env \<Rightarrow> string \<Rightarrow> string \<Rightarrow> int option io" where
  "run_pyright en exe path =
     seq (say (nl @ ''Running Pyright on Python '' @ PYTHON_VERSION @ ''...''))
     (bind_io (get_strict_params en path) (\<lambda>params.
      bind_io (run en ([exe, ''tests/pyright_test.py'', path, ''--pythonversion'', PYTHON_VERSION] @ params)) (\<lambda>p.
        if re_match npx_re (stderr p) \<noteq> None
        then seq (say (nl @ ''Skipping Pyright tests: npx is not installed or can't be run!'')) (ret None)
        else seq (say (stderr p)) (ret (Some (returncode p))))))"

definition run_stubtest_step :: "env \<Rightarrow> string \<Rightarrow> bool \<Rightarrow> string \<Rightarrow> string \<Rightarrow> int \<Rightarrow> int option io" where
  "run_stubtest_step en exe run_stubtest folder stub mypy_code =
     (if mypy_code = 0
      then if folder = ''stdlib''
        then bind_io (tool en exe ''stubtest'' [''tests/stubtest_stdlib.py'', stub]) (\<lambda>p. ret (Some (returncode p)))
        else if run_stubtest
        then bind_io (tool en exe ''stubtest'' [''tests/stubtest_third_party.py'', stub])
               (\<lambda>p. ret (Some (returncode p)))
        else seq (say (nl @ ''Skipping stubtest for '' @ repr_str stub @ ''...'' @ nl @
               ''NOTE: Running third-party stubtest involves downloading and executing arbitrary code from PyPI.'' @ nl @
               ''Only run stubtest if you trust the '' @ repr_str stub @ '' package.'')) (ret None)
      else seq (say (nl @ ''Skipping stubtest since mypy failed.'')) (ret None))"

definition run_pytype :: "env \<Rightarrow> string \<Rightarrow> bool \<Rightarrow> string \<Rightarrow> int option io" where
  "run_pytype en exe win32 path =
     (if win32 then seq (say (nl @ ''Skipping pytype on Windows. You can run the test with WSL.'')) (ret None)
      else bind_io (tool en exe ''pytype'' [''tests/pytype_test.py'', path]) (\<lambda>p. ret (Some (returncode p))))"

definition run_regr_test :: "env \<Rightarrow> string \<Rightarrow> string \<Rightarrow> string \<Rightarrow> int io" where
  "run_regr_test en exe folder stub =
     bind_io (tool en exe (''regression tests for Python '' @ PYTHON_VERSION)
       [''tests/regr_test.py'', if folder = ''stdlib'' then ''stdlib'' else stub, ''--python-version'', PYTHON_VERSION])
     (\<lambda>p. if contains ''No test cases found'' (stderr p)
          then seq (say (nl @ ''No test cases found for '' @ repr_str stub @ ''!'')) (ret 0)
          else seq (say (stderr p)) (ret (returncode p)))"

record codes =
  flake8_code :: int
  consistent_code :: int
  new_syntax_code :: int
  pyright_code :: "int option"
  mypy_code :: int
  stubtest_code :: "int option"
  pytype_code :: "int option"
  regr_code :: int

definition run_tools :: "env \<Rightarrow> string \<Rightarrow> bool \<Rightarrow> bool \<Rightarrow> string \<Rightarrow> string \<Rightarrow> string \<Rightarrow> codes io" where
  "run_tools en exe win32 run_stubtest path folder stub =
     bind_io (tool en exe ''Flake8'' [''-m'', ''flake8'', path]) (\<lambda>flake8.
     bind_io (tool en exe ''check_consistent.py'' [''tests/check_consistent.py'']) (\<lambda>consistent.
     bind_io (tool en exe ''check_new_syntax.py'' [''tests/check_new_syntax.py'']) (\<lambda>syntax.
     bind_io (run_pyright en exe path) (\<lambda>pyright.
     bind_io (tool en exe (''mypy for Python '' @ PYTHON_VERSION)
       [''tests/mypy_test.py'', path, ''--python-version'', PYTHON_VERSION]) (\<lambda>mypy.
     bind_io (run_stubtest_step en exe run_stubtest folder stub (returncode mypy)) (\<lambda>stubtest.
     bind_io (run_pytype en exe win32 path) (\<lambda>pytype.
     bind_io (run_regr_test en exe folder stub) (\<lambda>regr.
       ret \<lparr>flake8_code = returncode flake8, consistent_code = returncode consistent,
            new_syntax_code = returncode syntax, pyright_code = pyright, mypy_code = returncode mypy,
            stubtest_code = stubtest, pytype_code = pytype, regr_code = regr\<rparr>))))))))"

definition code_or_0 :: "int option \<Rightarrow> int" where
  "code_or_0 c = (case c of None \<Rightarrow> 0 | Some n \<Rightarrow> n)"

definition any_failure :: "codes \<Rightarrow> bool" where
  "any_failure c \<longleftrightarrow>
     (\<exists>n \<in> set [flake8_code c, consistent_code c, new_syntax_code c, code_or_0 (pyright_code c), mypy_code c,
        code_or_0 (stubtest_code c), code_or_0 (pytype_code c), regr_code c]. n \<noteq> 0)"

definition verdict :: "int option \<Rightarrow> string" where
  "verdict c = (case c of None \<Rightarrow> ''Skipped'' | Some n \<Rightarrow> if n = 0 then ''Success'' else ''Failed'')"

definition summary :: "codes \<Rightarrow> string list" where
  "summary c =
     [if any_failure c
      then nl @ nl @ ''--- TEST SUMMARY: One or more tests failed. See above for details. ---'' @ nl
      else nl @ nl @ ''--- TEST SUMMARY: All tests passed! ---'' @ nl,
      ''Flake8: '' @ verdict (Some (flake8_code c)),
      ''Check consistent: '' @ verdict (Some (consistent_code c)),
      ''Check new syntax: '' @ verdict (Some (new_syntax_code c)),
      ''Pyright: '' @ verdict (pyright_code c),
      ''mypy: '' @ verdict (Some (mypy_code c)),
      ''stubtest: '' @ verdict (stubtest_code c),
      ''pytype: '' @ verdict (pytype_code c),
      ''Regression test: '' @ verdict (Some (regr_code c))]"

definition runtests_main :: "env \<Rightarrow> string \<Rightarrow> bool \<Rightarrow> bool \<Rightarrow> string \<Rightarrow> unit io" where
  "runtests_main en exe win32 run_stubtest path =
     bind_io (check_path en path) (\<lambda>(folder, stub).
     seq (run_formatters en exe path)
     (bind_io (run_tools en exe win32 run_stubtest path folder stub) (\<lambda>c.
      seq (for_each say (summary c))
        (raise (SystemExit (if any_failure c then 1 else 0))))))"

section \<open>Properties\<close>

subsection \<open>Comments and trailing commas\<close>

fun drop_trailing_commas :: "string \<Rightarrow> string" where
  "drop_trailing_commas [] = []"
| "drop_trailing_commas (c # cs) =
     (if c = CHR '','' \<and> (case dropWhile is_space cs of d # _ \<Rightarrow> is_closing d | [] \<Rightarrow> False)
      then drop_trailing_commas cs else c # drop_trailing_commas cs)"

lemma closing_not_space: "is_closing c \<Longrightarrow> \<not> is_space c"
  by (auto simp: is_closing_def is_space_def)

lemma comma_not_space: "\<not> is_space CHR '',''" "\<not> is_closing CHR '',''"
  by code_simp+

lemma runs_lazy_closing:
  "runs (Seq (ManyLazy is_space) (Chars is_closing)) (b, s) cs =
     (case dropWhile is_space s of
        [] \<Rightarrow> []
      | d # ds \<Rightarrow> if is_closing d then [((d # rev (takeWhile is_space s) @ b, ds), cs)] else [])"
proof (induction s arbitrary: b)
  case (Cons x s)
  have step: "runs (Seq (ManyLazy is_space) (Chars is_closing)) (b, x # s) cs =
      (if is_closing x then [((x # b, s), cs)] else []) @
      (if is_space x then runs (Seq (ManyLazy is_space) (Chars is_closing)) (x # b, s) cs else [])"
    by simp
  show ?case
    unfolding step Cons.IH using closing_not_space [of x]
    by (cases "dropWhile is_space s") (simp_all del: dropWhile_eq_Nil_conv)
qed simp

lemma runs_trailing_comma:
  "runs trailing_comma_re (b, c # s) [] =
     (if c = CHR '','' then
       (case dropWhile is_space s of
          [] \<Rightarrow> []
        | d # ds \<Rightarrow> if is_closing d
            then [((d # rev (takeWhile is_space s) @ c # b, ds), [(1, takeWhile is_space s @ [d])])] else [])
      else [])"
proof (cases "c = CHR '',''")
  case True
  have step: "runs (Seq (lit '','') (Group 1 G)) (b, c # s) [] =
      map (\<lambda>(p', cs'). (p', AList.update 1 (take (length s - length (snd p')) s) cs')) (runs G (c # b, s) [])" for G
    using True by simp
  show ?thesis
  proof (cases "dropWhile is_space s")
    case Nil
    then show ?thesis
      unfolding trailing_comma_re_def step runs_lazy_closing by (simp del: dropWhile_eq_Nil_conv)
  next
    case (Cons d ds)
    have s: "s = takeWhile is_space s @ d # ds" using Cons by (metis takeWhile_dropWhile_id)
    then have "length s - length ds = Suc (length (takeWhile is_space s))"
      by (metis add_diff_cancel_right' length_Cons length_append add_Suc_right add_Suc)
    moreover have "take (Suc (length (takeWhile is_space s))) s = takeWhile is_space s @ [d]"
      by (subst (2) s) simp
    ultimately have "take (length s - length ds) s = takeWhile is_space s @ [d]" by simp
    then show ?thesis
      unfolding trailing_comma_re_def step runs_lazy_closing using True Cons by simp
  qed
qed (simp add: trailing_comma_re_def)

lemma drop_trailing_commas_spaces:
  assumes "list_all is_space w"
  shows "drop_trailing_commas (w @ s) = w @ drop_trailing_commas s"
  using assms by (induction w) (auto simp: comma_not_space)

lemma re_sub_trailing_comma:
  "re_sub_from trailing_comma_re (\<lambda>cs. dict_get cs 1 []) b s = drop_trailing_commas s"
proof (induction "length s" arbitrary: b s rule: less_induct)
  case less
  show ?case
  proof (cases s)
    case (Cons c cs)
    have plain: "re_sub_from trailing_comma_re (\<lambda>cs. dict_get cs 1 []) b' cs = drop_trailing_commas cs" for b'
      using less.hyps [of cs b'] Cons by simp
    show ?thesis
    proof (cases "c = CHR '','' \<and> (case dropWhile is_space cs of d # _ \<Rightarrow> is_closing d | [] \<Rightarrow> False)")
      case True
      then obtain d ds where d: "dropWhile is_space cs = d # ds" "is_closing d" by (auto split: list.splits)
      have cs: "cs = takeWhile is_space cs @ d # ds" using d by (metis takeWhile_dropWhile_id)
      have len: "length ds < length (c # cs)" by (subst cs) simp
      have ws: "list_all is_space (takeWhile is_space cs)" by (auto simp: list_all_iff dest: set_takeWhileD)
      have "d \<noteq> CHR '',''" using d(2) comma_not_space by auto
      then have "drop_trailing_commas cs = takeWhile is_space cs @ d # drop_trailing_commas ds"
        using drop_trailing_commas_spaces [OF ws, of "d # ds"] cs by simp
      moreover have "re_sub_from trailing_comma_re (\<lambda>cs. dict_get cs 1 []) b' ds = drop_trailing_commas ds" for b'
        using less.hyps [of ds b'] len Cons by simp
      ultimately show ?thesis
        using True d len Cons runs_trailing_comma [of b c cs] by (simp add: dict_get_def)
    next
      case False
      then have "runs trailing_comma_re (b, c # cs) [] = []"
        by (auto simp: runs_trailing_comma simp del: dropWhile_eq_Nil_conv split: list.splits)
      then have "re_sub_from trailing_comma_re (\<lambda>cs. dict_get cs 1 []) b (c # cs) = c # drop_trailing_commas cs"
        using plain by simp
      moreover have "drop_trailing_commas (c # cs) = c # drop_trailing_commas cs"
        using False by (simp only: drop_trailing_commas.simps if_False)
      ultimately show ?thesis using Cons by simp
    qed
  qed simp
qed

text \<open>C19: \<^verbatim>\<open>_parse_jsonc\<close> removes the lines that start with \<^verbatim>\<open>//\<close> and, from what is left, exactly those
  commas that only white space separates from a closing bracket or brace.\<close>

theorem parse_jsonc_spec:
  "parse_jsonc text =
     drop_trailing_commas (join_with nl (filter (\<lambda>line. \<not> starts_with (strip line) ''//'') (split_on CHR 0x0A text)))"
  unfolding parse_jsonc_def re_sub_def Let_def re_sub_trailing_comma ..
subsection \<open>What a run has established\<close>

lemma ensures_tool:
  "ensures (tool en exe title args) (\<lambda>tr p evs. has_run en tr evs (exe # args) (\<lambda>q. q = p))"
  by (auto simp: ensures_def tool_def say_def io_simps has_run_def) (metis append.assoc append_Cons append_Nil)

definition pyright_cmd :: "string \<Rightarrow> string \<Rightarrow> string list \<Rightarrow> string list" where
  "pyright_cmd exe path params = [exe, ''tests/pyright_test.py'', path, ''--pythonversion'', PYTHON_VERSION] @ params"

text \<open>
  The commands that have to succeed for a stub, with the outcomes that count as success.
\<close>

definition required :: "string \<Rightarrow> bool \<Rightarrow> bool \<Rightarrow> string \<Rightarrow> string \<Rightarrow> string \<Rightarrow> (string list \<times> (proc \<Rightarrow> bool)) list" where
  "required exe win32 run_stubtest path folder stub =
     [([exe, ''-m'', ''flake8'', path], \<lambda>p. returncode p = 0),
      ([exe, ''tests/check_consistent.py''], \<lambda>p. returncode p = 0),
      ([exe, ''tests/check_new_syntax.py''], \<lambda>p. returncode p = 0),
      ([exe, ''tests/mypy_test.py'', path, ''--python-version'', PYTHON_VERSION], \<lambda>p. returncode p = 0),
      ([exe, ''tests/regr_test.py'', if folder = ''stdlib'' then ''stdlib'' else stub, ''--python-version'', PYTHON_VERSION],
         \<lambda>p. returncode p = 0 \<or> contains ''No test cases found'' (stderr p))] @
     (if folder = ''stdlib'' then [([exe, ''tests/stubtest_stdlib.py'', stub], \<lambda>p. returncode p = 0)]
      else if run_stubtest then [([exe, ''tests/stubtest_third_party.py'', stub], \<lambda>p. returncode p = 0)] else []) @
     (if win32 then [] else [([exe, ''tests/pytype_test.py'', path], \<lambda>p. returncode p = 0)])"

lemma ensures_pyright:
  "ensures (run_pyright en exe path) (\<lambda>tr c evs. \<exists>params. has_run en tr evs (pyright_cmd exe path params)
     (\<lambda>p. case c of None \<Rightarrow> re_match npx_re (stderr p) \<noteq> None | Some n \<Rightarrow> returncode p = n))"
proof -
  let ?ok = "\<lambda>c p. case c of None \<Rightarrow> re_match npx_re (stderr p) \<noteq> None | Some n \<Rightarrow> returncode p = n"
  have g: "ensures (get_strict_params en path) (\<lambda>tr y evs. True)"
    by (rule ensures_emits [where A = "\<lambda>_. True"]) (unfold get_strict_params_def, intro emits_rules)
  have r: "ensures (bind_io (run en (pyright_cmd exe path params)) (\<lambda>p.
        if re_match npx_re (stderr p) \<noteq> None
        then seq (say (nl @ ''Skipping Pyright tests: npx is not installed or can't be run!'')) (ret None)
        else seq (say (stderr p)) (ret (Some (returncode p)))))
      (\<lambda>tr c evs. has_run en tr evs (pyright_cmd exe path params) (?ok c))" for params
    by (auto simp: ensures_def say_def io_simps has_run_def split: if_splits) (metis append_Nil append_Nil2)+
  have s: "ensures (say m) (\<lambda>tr y evs. True)" for m
    by (rule ensures_emits [where A = "\<lambda>_. True"]) (simp add: say_def emits_emit)
  have "ensures (bind_io (get_strict_params en path) (\<lambda>params. bind_io (run en (pyright_cmd exe path params)) (\<lambda>p.
        if re_match npx_re (stderr p) \<noteq> None
        then seq (say (nl @ ''Skipping Pyright tests: npx is not installed or can't be run!'')) (ret None)
        else seq (say (stderr p)) (ret (Some (returncode p))))))
      (\<lambda>tr c evs. \<exists>params. has_run en tr evs (pyright_cmd exe path params) (?ok c))"
    by (rule ensures_bind [OF g r]) (blast intro: has_run_right)
  then show ?thesis
    unfolding run_pyright_def pyright_cmd_def
    by (rule ensures_seq [OF s]) (blast intro: has_run_right)
qed

lemma ensures_stubtest:
  "ensures (run_stubtest_step en exe run_stubtest folder stub code) (\<lambda>tr c evs. code = 0 \<longrightarrow>
     (folder = ''stdlib'' \<longrightarrow> has_run en tr evs [exe, ''tests/stubtest_stdlib.py'', stub] (\<lambda>p. c = Some (returncode p))) \<and>
     (folder \<noteq> ''stdlib'' \<and> run_stubtest \<longrightarrow>
        has_run en tr evs [exe, ''tests/stubtest_third_party.py'', stub] (\<lambda>p. c = Some (returncode p))))"
  by (auto simp: ensures_def run_stubtest_step_def tool_def say_def io_simps has_run_def split: if_splits)
    (metis append_Cons append_Nil)+

lemma ensures_pytype:
  "ensures (run_pytype en exe win32 path) (\<lambda>tr c evs. \<not> win32 \<longrightarrow>
     has_run en tr evs [exe, ''tests/pytype_test.py'', path] (\<lambda>p. c = Some (returncode p)))"
  by (auto simp: ensures_def run_pytype_def tool_def say_def io_simps has_run_def split: if_splits)
    (metis append_Cons append_Nil)+

lemma ensures_regr:
  "ensures (run_regr_test en exe folder stub) (\<lambda>tr c evs. has_run en tr evs
     [exe, ''tests/regr_test.py'', if folder = ''stdlib'' then ''stdlib'' else stub, ''--python-version'', PYTHON_VERSION]
     (\<lambda>p. c = 0 \<longrightarrow> returncode p = 0 \<or> contains ''No test cases found'' (stderr p)))"
  unfolding run_regr_test_def
  by (rule ensures_bind [OF ensures_tool, where R = "\<lambda>p tr c evs. c = 0 \<longrightarrow> returncode p = 0 \<or> contains ''No test cases found'' (stderr p)"])
    (auto simp: ensures_def say_def io_simps intro: has_run_left has_run_mono split: if_splits)

definition established :: "env \<Rightarrow> event list \<Rightarrow> event list \<Rightarrow> string \<Rightarrow> bool \<Rightarrow> bool \<Rightarrow> string \<Rightarrow> string \<Rightarrow> string \<Rightarrow> bool" where
  "established en tr evs exe win32 run_stubtest path folder stub \<longleftrightarrow>
     list_all (\<lambda>(args, P). has_run en tr evs args P) (required exe win32 run_stubtest path folder stub) \<and>
     (\<exists>params. has_run en tr evs (pyright_cmd exe path params)
        (\<lambda>p. returncode p = 0 \<or> re_match npx_re (stderr p) \<noteq> None))"

lemma ensures_tool_ok:
  "ensures (tool en exe title args) (\<lambda>tr p evs. returncode p = 0 \<longrightarrow> has_run en tr evs (exe # args) (\<lambda>q. returncode q = 0))"
  by (rule ensures_mono [OF ensures_tool]) (auto elim: has_run_mono)

lemma ensures_pyright_ok:
  "ensures (run_pyright en exe path) (\<lambda>tr c evs. code_or_0 c = 0 \<longrightarrow> (\<exists>params. has_run en tr evs (pyright_cmd exe path params)
     (\<lambda>p. returncode p = 0 \<or> re_match npx_re (stderr p) \<noteq> None)))"
  by (rule ensures_mono [OF ensures_pyright]) (fastforce simp: code_or_0_def elim: has_run_mono split: option.splits)

lemma ensures_stubtest_ok:
  "ensures (run_stubtest_step en exe run_stubtest folder stub code) (\<lambda>tr c evs. code = 0 \<and> code_or_0 c = 0 \<longrightarrow>
     (if folder = ''stdlib'' then has_run en tr evs [exe, ''tests/stubtest_stdlib.py'', stub] (\<lambda>p. returncode p = 0)
      else run_stubtest \<longrightarrow> has_run en tr evs [exe, ''tests/stubtest_third_party.py'', stub] (\<lambda>p. returncode p = 0)))"
  by (rule ensures_mono [OF ensures_stubtest]) (auto simp: code_or_0_def elim: has_run_mono)

lemma ensures_pytype_ok:
  "ensures (run_pytype en exe win32 path) (\<lambda>tr c evs. code_or_0 c = 0 \<and> \<not> win32 \<longrightarrow>
     has_run en tr evs [exe, ''tests/pytype_test.py'', path] (\<lambda>p. returncode p = 0))"
  by (rule ensures_mono [OF ensures_pytype]) (auto simp: code_or_0_def elim: has_run_mono)

lemma ensures_regr_ok:
  "ensures (run_regr_test en exe folder stub) (\<lambda>tr c evs. c = 0 \<longrightarrow> has_run en tr evs
     [exe, ''tests/regr_test.py'', if folder = ''stdlib'' then ''stdlib'' else stub, ''--python-version'', PYTHON_VERSION]
     (\<lambda>p. returncode p = 0 \<or> contains ''No test cases found'' (stderr p)))"
  by (rule ensures_mono [OF ensures_regr]) (auto elim: has_run_mono)

lemma ensures_run_tools:
  "ensures (run_tools en exe win32 run_stubtest path folder stub)
     (\<lambda>tr c evs. \<not> any_failure c \<longrightarrow> established en tr evs exe win32 run_stubtest path folder stub)"
proof -
  note steps = ensures_bind_strongest [OF ensures_tool_ok] ensures_bind_strongest [OF ensures_pyright_ok]
    ensures_bind_strongest [OF ensures_stubtest_ok] ensures_bind_strongest [OF ensures_pytype_ok]
    ensures_bind_strongest [OF ensures_regr_ok] ensures_ret_eq
  show ?thesis
    unfolding run_tools_def
    by (rule ensures_mono, (rule steps)+, elim exE conjE)
      (cases "folder = ''stdlib''"; cases run_stubtest;
        simp add: any_failure_def established_def required_def has_run_append ex_disj_distrib)
qed

text \<open>\<open>raises E m\<close>: whatever \<open>m\<close> raises satisfies \<open>E\<close>.\<close>

definition raises :: "(exn \<Rightarrow> bool) \<Rightarrow> 'a io \<Rightarrow> bool" where
  "raises E m \<longleftrightarrow> (\<forall>tr e tr'. m tr = (Inl e, tr') \<longrightarrow> E e)"

lemma raises_basic:
  "raises E (ret x)" "raises E (emit ev)" "raises E (say s)" "raises E (run en args)" "raises E (get_fs en)"
  "raises E (tool en exe title args)" "E e \<Longrightarrow> raises E (raise e)" "raises E (lift (Inr x))"
  by (simp_all add: raises_def say_def tool_def io_simps)

lemma raises_bind: "raises E m \<Longrightarrow> (\<And>x. raises E (f x)) \<Longrightarrow> raises E (bind_io m f)"
  unfolding raises_def io_simps by (auto split: prod.splits sum.splits)

lemma raises_seq: "raises E m \<Longrightarrow> raises E k \<Longrightarrow> raises E (seq m k)"
  unfolding seq_def by (intro raises_bind)

lemma raises_if: "raises E m \<Longrightarrow> raises E k \<Longrightarrow> raises E (if b then m else k)"
  by simp

lemmas raises_rules = raises_basic raises_bind raises_seq raises_if

lemma strict_params_of_errors: "strict_params_of config p = Inl e \<Longrightarrow> e \<noteq> SystemExit n"
proof -
  have strs: "json_strings j = Inl e' \<Longrightarrow> e' \<noteq> SystemExit n" for j e'
  proof (cases j)
    case (JArr xs)
    have "map_res (\<lambda>x. case x of JStr s \<Rightarrow> Inr s | _ \<Rightarrow> Inl AttributeError) ys = Inl e' \<Longrightarrow> e' \<noteq> SystemExit n" for ys :: "json list"
      by (induction ys) (auto simp: bind_res_eq_Inl split: json.splits)
    then show "json_strings j = Inl e' \<Longrightarrow> e' \<noteq> SystemExit n" using JArr by simp
  qed auto
  have item: "json_item j k = Inl e' \<Longrightarrow> e' \<noteq> SystemExit n" for j k e'
    by (cases j) (auto split: option.splits)
  have loads: "json_loads t = Inl e' \<Longrightarrow> e' \<noteq> SystemExit n" for t e'
    by (auto simp: json_loads_def json_loads_fuel_def split: option.splits prod.splits if_splits)
  assume "strict_params_of config p = Inl e"
  then show ?thesis
    by (auto simp: strict_params_of_def bind_res_eq_Inl dest: strs item loads)
qed

lemma run_tools_no_exit: "raises (\<lambda>e. e \<noteq> SystemExit n) (run_tools en exe win32 run_stubtest path folder stub)"
proof -
  have "raises (\<lambda>e. e \<noteq> SystemExit n) (read_text en p)" for p
    by (auto simp: raises_def read_text_def io_simps split: option.splits fs.splits)
  moreover have "raises (\<lambda>e. e \<noteq> SystemExit n) (lift (strict_params_of c p))" for c p
    using strict_params_of_errors by (auto simp: raises_def io_simps)
  ultimately show ?thesis
    unfolding run_tools_def run_pyright_def get_strict_params_def run_stubtest_step_def run_pytype_def run_regr_test_def
    by (intro raises_rules)
qed

lemma run_formatters_exit: "raises (\<lambda>e. e = SystemExit 123) (run_formatters en exe path)"
  by (auto simp: raises_def run_formatters_def tool_def say_def io_simps split: if_splits)

lemma check_path_result:
  "check_path en path tr = (r, tr') \<Longrightarrow>
     tr' = tr \<and> (r = Inl (SystemExit 2) \<or> (\<exists>folder stub. path_of path = [folder, stub] \<and> r = Inr (folder, stub)))"
  by (auto simp: check_path_def io_simps split: list.splits if_splits)

lemma for_each_say: "\<exists>evs. for_each say xs tr = (Inr (), tr @ evs)"
proof (induction xs arbitrary: tr)
  case (Cons x xs)
  obtain evs where "for_each say xs (tr @ [Print x]) = (Inr (), (tr @ [Print x]) @ evs)" using Cons by blast
  moreover have "say x tr = (Inr (), tr @ [Print x])" by (simp add: say_def io_simps)
  ultimately show ?case by (simp add: io_simps)
qed (simp add: io_simps)

text \<open>C17: A run of \<^verbatim>\<open>runtests.py\<close> that exits with status 0 has run flake8, both consistency checks, mypy and the
  regression tests on the stub, stubtest where it applies, and pytype except on Windows, and each of them
  succeeded (the regression tests may have found no test case); pyright succeeded or could not be
  started for want of npx.\<close>

theorem runtests_success_sound:
  assumes "runtests_main en exe win32 run_stubtest path tr = (Inl (SystemExit 0), tr @ evs)"
  shows "\<exists>folder stub. path_of path = [folder, stub] \<and> established en tr evs exe win32 run_stubtest path folder stub"
proof -
  obtain r t where c: "check_path en path tr = (r, t)" by (cases "check_path en path tr")
  from check_path_result [OF c] assms c obtain folder stub where
    t: "t = tr" and p: "path_of path = [folder, stub]" and r: "r = Inr (folder, stub)"
    by (auto simp: runtests_main_def io_simps)
  obtain rf tf where f: "run_formatters en exe path tr = (rf, tf)" by (cases "run_formatters en exe path tr")
  have rf: "rf = Inr ()"
  proof (cases rf)
    case (Inl e)
    with run_formatters_exit [of en exe path] f have "e = SystemExit 123" by (auto simp: raises_def)
    with assms c t r f Inl show ?thesis by (simp add: runtests_main_def io_simps)
  qed simp
  have "emits (\<lambda>_. True) (run_formatters en exe path)"
    unfolding run_formatters_def tool_def say_def by (intro emits_rules TrueI)
  from emitsD [OF this f] obtain e1 where tf: "tf = tr @ e1" by blast
  let ?tools = "run_tools en exe win32 run_stubtest path folder stub"
  obtain rt tt where rt: "?tools tf = (rt, tt)" by (cases "?tools tf")
  obtain cs where cs: "rt = Inr cs"
  proof (cases rt)
    case (Inl e)
    with run_tools_no_exit [of 0 en exe win32 run_stubtest path folder stub] rt have "e \<noteq> SystemExit 0"
      by (auto simp: raises_def)
    with assms c t r f rf rt Inl show ?thesis by (simp add: runtests_main_def io_simps)
  qed
  obtain e2 where tt: "tt = tf @ e2"
    and e2: "\<not> any_failure cs \<longrightarrow> established en tf e2 exe win32 run_stubtest path folder stub"
    using ensuresD [OF ensures_run_tools rt [unfolded cs]] by blast
  obtain e3 where "for_each say (summary cs) tt = (Inr (), tt @ e3)" using for_each_say by blast
  then have "\<not> any_failure cs" and "tr @ evs = tt @ e3"
    using assms c t r f rf rt cs by (auto simp: runtests_main_def io_simps split: if_splits)
  then have evs: "evs = e1 @ e2 @ e3" and "established en tf e2 exe win32 run_stubtest path folder stub"
    using tt tf e2 by auto
  then have "established en tr evs exe win32 run_stubtest path folder stub"
    using tf by (auto simp: established_def list_all_iff has_run_append split: prod.splits)
  with p show ?thesis by blast
qed

fun third_party_stubtest :: "event \<Rightarrow> bool" where
  "third_party_stubtest (Call (_ # script # _)) = (script = ''tests/stubtest_third_party.py'')"
| "third_party_stubtest _ = False"

text \<open>C18: Without \<^verbatim>\<open>--run-stubtest\<close> a run never starts stubtest on a third-party distribution, which would
  download and execute code from PyPI.\<close>

theorem runtests_third_party_stubtest:
  "emits (\<lambda>e. \<not> third_party_stubtest e) (runtests_main en exe win32 False path)"
proof -
  have "emits (\<lambda>e. \<not> third_party_stubtest e) (tool en exe title args)"
    if "args \<noteq> []" "hd args \<noteq> ''tests/stubtest_third_party.py''" for title args
    using that unfolding tool_def say_def by (intro emits_rules) (cases args; simp)+
  then show ?thesis
    unfolding runtests_main_def check_path_def run_formatters_def run_tools_def run_pyright_def get_strict_params_def
      run_stubtest_step_def run_pytype_def run_regr_test_def say_def split_def
    by (intro emits_rules) simp_all
qed
subsection \<open>Witness\<close>

definition ex_strict_config :: string where
  "ex_strict_config = ''{'' @ nl @ ''    // comment'' @ nl @ ''    \"exclude\": ['' @ nl @
     ''        \"stubs/tqdm\",'' @ nl @ ''        \"stubs/vobject\",'' @ nl @ ''    ],'' @ nl @ ''}'' @ nl"

definition ex_green :: env where
  "ex_green = \<lparr>env_run = (\<lambda>tr args. \<lparr>returncode = 0, stdout = [], stderr = []\<rparr>),
     env_http = (\<lambda>tr m u h q. \<lparr>status = 200, errors = [], numbers = []\<rparr>), env_toml = (\<lambda>tr p. []),
     env_fs = (\<lambda>tr. Dir [(''stdlib'', Dir []), (''stubs'', Dir [(''tqdm'', Dir [])]),
       (STRICTER_CONFIG_FILE, File False ex_strict_config)]), env_token = None\<rparr>"

lemma ex_strict_params:
  "strict_params_of ex_strict_config ''stubs/TQDM'' = Inr []"
  "strict_params_of ex_strict_config ''stubs/six'' = Inr [''-p'', STRICTER_CONFIG_FILE]"
  by code_simp+

lemma ex_green_run:
  "fst (runtests_main ex_green ''python'' False False ''stubs/tqdm'' []) = Inl (SystemExit 0)"
  by code_simp

theorem runtests_success_sound_witness:
  "\<exists>folder stub. path_of ''stubs/tqdm'' = [folder, stub] \<and>
     established ex_green [] (snd (runtests_main ex_green ''python'' False False ''stubs/tqdm'' []))
       ''python'' False False ''stubs/tqdm'' folder stub"
  by (rule runtests_success_sound) (simp add: ex_green_run prod_eq_iff)

end
