(* ===== verification/Test_Utils.thy ===== *)
theory Test_Utils
  imports Effects Py_Regex Py_Text
begin

section \<open>Utilities of the tests\<close>

text \<open>
  \<^verbatim>\<open>src/tests/utils.py\<close>. The pattern set built by \<^verbatim>\<open>pathspec\<close> from \<^verbatim>\<open>.gitignore\<close> is a predicate on
  normalized paths, a parameter of whatever uses it. \<^verbatim>\<open>venv.create\<close> is a command of the trace, whose
  failure is that of \<^verbatim>\<open>ensurepip\<close>. Colours and the \<^verbatim>\<open>end\<close> argument of \<^verbatim>\<open>print\<close> are left out.
\<close>

definition strip_comments :: "string \<Rightarrow> string" where
  "strip_comments text = strip (hd (split_on CHR ''#'' text))"

definition print_error :: "string \<Rightarrow> string \<times> string \<Rightarrow> unit io" where
  "print_error error fix_path =
     (let error_split = split_on CHR 0x0A error in
      seq (for_each (\<lambda>line. emit (Print (replace_all (fst fix_path) (snd fix_path) line))) (butlast error_split))
        (emit (Print (last error_split))))"

definition print_success_msg :: "unit io" where
  "print_success_msg = emit (Print ''success'')"

subsection \<open>Virtual environments\<close>

record VenvInfo =
  pip_exe :: string
  python_exe :: string

definition of_existing_venv :: "bool \<Rightarrow> path \<Rightarrow> VenvInfo" where
  "of_existing_venv win32 venv_dir =
     (if win32
      then \<lparr>pip_exe = as_posix (venv_dir @ [''Scripts'', ''pip.exe'']),
            python_exe = as_posix (venv_dir @ [''Scripts'', ''python.exe''])\<rparr>
      else \<lparr>pip_exe = as_posix (venv_dir @ [''bin'', ''pip'']),
            python_exe = as_posix (venv_dir @ [''bin'', ''python''])\<rparr>)"

definition make_venv :: "env \<Rightarrow> bool \<Rightarrow> path \<Rightarrow> VenvInfo io" where
  "make_venv en win32 venv_dir =
     bind_io (run en [''venv.create'', as_posix venv_dir]) (\<lambda>p.
     if returncode p = 0 then ret (of_existing_venv win32 venv_dir)
     else seq (if ''KeyboardInterrupt'' \<notin> set (splitlines (stdout p))
               then print_error (''stubtest requires a Python installation with ensurepip. '' @
                 ''If on Linux, you may need to install the python3-venv package.'') ([], [])
               else ret ())
          (raise (CalledProcessError (returncode p))))"

text \<open>\<^verbatim>\<open>next\<close> over the lines of \<^verbatim>\<open>requirements-tests.txt\<close> that mention mypy.\<close>

definition mypy_req_in :: "string \<Rightarrow> string res" where
  "mypy_req_in text =
     (case find (contains ''mypy'') (readlines text) of
        None \<Rightarrow> Inl StopIteration
      | Some line \<Rightarrow> Inr (strip_comments line))"

definition get_mypy_req :: "env \<Rightarrow> string io" where
  "get_mypy_req en = bind_io (read_text en [''requirements-tests.txt'']) (\<lambda>text. lift (mypy_req_in text))"

subsection \<open>Lines of stdlib/VERSIONS\<close>

definition is_module_char :: "char \<Rightarrow> bool" where
  "is_module_char c \<longleftrightarrow> is_ident_start c \<or> is_digit c \<or> c = CHR ''.''"

definition python_version_re :: regex where
  "python_version_re =
     Seq (Chars (\<lambda>c. c \<in> set ''23'')) (Seq (lit ''.'') (Seq (Chars is_digit) (Opt (Chars is_digit))))"

definition VERSIONS_RE :: regex where
  "VERSIONS_RE =
     Seq (Group 1 (Seq (Chars is_ident_start) (Many is_module_char)))
     (Seq (lit '': '') (Seq (Group 2 python_version_re)
     (Seq (lit ''-'') (Seq (Opt (Group 3 python_version_re)) EndAnchor))))"

subsection \<open>Test cases\<close>

record PackageInfo =
  pkg_name :: string
  test_case_directory :: path

definition is_stdlib :: "PackageInfo \<Rightarrow> bool" where
  "is_stdlib p \<longleftrightarrow> pkg_name p = ''stdlib''"

definition testcase_dir_from_package_name :: "string \<Rightarrow> path" where
  "testcase_dir_from_package_name package_name = [''stubs'', package_name, ''@tests'', ''test_cases'']"

text \<open>\<^verbatim>\<open>sorted\<close> on named tuples: by name, then by the parts of the path.\<close>

definition get_all_testcase_directories :: "fs \<Rightarrow> PackageInfo list res" where
  "get_all_testcase_directories t =
     bind_res (listdir t [''stubs'']) (\<lambda>names.
       let found = filter (\<lambda>n. fs_is_dir t (testcase_dir_from_package_name n)) names;
           dirs = \<lparr>pkg_name = ''stdlib'', test_case_directory = [''test_cases'']\<rparr> #
             map (\<lambda>n. \<lparr>pkg_name = n, test_case_directory = testcase_dir_from_package_name n\<rparr>) found
       in Inr (sort_key (\<lambda>p. (pkg_name p, test_case_directory p)) dirs))"

subsection \<open>.gitignore\<close>

definition spec_matches_path :: "(string \<Rightarrow> bool) \<Rightarrow> fs \<Rightarrow> path \<Rightarrow> bool" where
  "spec_matches_path spec t p = spec (as_posix p @ (if fs_is_dir t p then ''/'' else []))"

section \<open>Properties\<close>

lemma strip_comments_no_comment: "CHR ''#'' \<notin> set (strip_comments s)"
proof -
  have "hd (split_on CHR ''#'' s) \<in> set (split_on CHR ''#'' s)" by simp
  then have "CHR ''#'' \<notin> set (hd (split_on CHR ''#'' s))" by (rule sep_notin_split_on)
  then show ?thesis using set_strip [of "hd (split_on CHR ''#'' s)"] by (auto simp: strip_comments_def)
qed

lemma strip_comments_idem: "strip_comments (strip_comments s) = strip_comments s"
  using strip_comments_no_comment [of s] by (simp add: strip_comments_def)

lemma print_error_emits [emits_rules]: "(\<And>m. A (Print m)) \<Longrightarrow> emits A (print_error error fix_path)"
  unfolding print_error_def by (intro emits_rules) auto

lemma print_error_never_raises [never_raises_rules]: "never_raises (print_error error fix_path)"
  unfolding print_error_def by (intro never_raises_rules)

lemma testcase_directories_set:
  assumes "get_all_testcase_directories t = Inr ds" "fs_lookup t [''stubs''] = Some (Dir es)"
  shows "set ds = {\<lparr>pkg_name = ''stdlib'', test_case_directory = [''test_cases'']\<rparr>} \<union>
    {\<lparr>pkg_name = n, test_case_directory = testcase_dir_from_package_name n\<rparr> |n.
       n \<in> set (map fst es) \<and> fs_is_dir t (testcase_dir_from_package_name n)}"
proof -
  let ?g = "\<lambda>n. \<lparr>pkg_name = n, test_case_directory = testcase_dir_from_package_name n\<rparr>"
  let ?d = "\<lparr>pkg_name = ''stdlib'', test_case_directory = [''test_cases'']\<rparr>"
  let ?P = "\<lambda>n. fs_is_dir t (testcase_dir_from_package_name n)"
  have "ds = sort_key (\<lambda>p. (pkg_name p, test_case_directory p)) (?d # map ?g (filter ?P (map fst es)))"
    using assms by (simp add: get_all_testcase_directories_def listdir_def Let_def del: sort_key_simps)
  then have "set ds = set (?d # map ?g (filter ?P (map fst es)))" by (simp only: set_sort)
  also have "\<dots> = {?d} \<union> {?g n |n. n \<in> set (map fst es) \<and> ?P n}"
    unfolding list.set(2) set_map [of ?g] set_filter by blast
  finally show ?thesis .
qed

subsection \<open>The grammar of a version range\<close>

definition is_python_version :: "string \<Rightarrow> bool" where
  "is_python_version v \<longleftrightarrow> lang python_version_re v"

lemma is_python_version_iff:
  "is_python_version v \<longleftrightarrow>
     (\<exists>a d. v = [a, CHR ''.'', d] \<and> a \<in> set ''23'' \<and> is_digit d) \<or>
     (\<exists>a d e. v = [a, CHR ''.'', d, e] \<and> a \<in> set ''23'' \<and> is_digit d \<and> is_digit e)"
  unfolding is_python_version_def python_version_re_def
  by (simp only: lang_shape lang_Opt lang.simps(2) append.simps) blast

definition is_module_name :: "string \<Rightarrow> bool" where
  "is_module_name m \<longleftrightarrow> m \<noteq> [] \<and> is_ident_start (hd m) \<and> list_all is_module_char (tl m)"

definition version_entry :: "string \<Rightarrow> string \<Rightarrow> bool" where
  "version_entry line m \<longleftrightarrow>
     (\<exists>v w. line = m @ '': '' @ v @ ''-'' @ w \<and> is_module_name m \<and> is_python_version v \<and> (w = [] \<or> is_python_version w))"

lemma accepts_python_version:
  "accepts python_version_re b a cs b' a' cs' \<longleftrightarrow>
     (\<exists>v. a = v @ a' \<and> b' = rev v @ b \<and> is_python_version v \<and> cs' = cs)"
proof
  assume acc: "accepts python_version_re b a cs b' a' cs'"
  then have "cs' = cs" by (auto simp: python_version_re_def accepts_shape)
  then show "\<exists>v. a = v @ a' \<and> b' = rev v @ b \<and> is_python_version v \<and> cs' = cs"
    using accepts_imp_lang [OF acc] by (auto simp: is_python_version_def)
next
  assume "\<exists>v. a = v @ a' \<and> b' = rev v @ b \<and> is_python_version v \<and> cs' = cs"
  then obtain v where v: "a = v @ a'" "b' = rev v @ b" "lang python_version_re v" "cs' = cs"
    by (auto simp: is_python_version_def)
  have "plain python_version_re" by (simp add: python_version_re_def)
  from lang_imp_accepts [OF this v(3), of b a' cs] obtain cs''
    where acc: "accepts python_version_re b (v @ a') cs (rev v @ b) a' cs''" by blast
  moreover have "cs'' = cs" using acc by (auto simp: python_version_re_def accepts_shape)
  ultimately show "accepts python_version_re b a cs b' a' cs'" using v by simp
qed

lemma accepts_module_name:
  "accepts (Seq (Chars is_ident_start) (Many is_module_char)) b a cs b' a' cs' \<longleftrightarrow>
     (\<exists>m. a = m @ a' \<and> b' = rev m @ b \<and> is_module_name m \<and> cs' = cs)" (is "_ \<longleftrightarrow> ?R")
proof
  assume ?R
  then obtain m where m: "a = m @ a'" "b' = rev m @ b" "is_module_name m" "cs' = cs" by blast
  then obtain c u where "m = c # u" "is_ident_start c" "list_all is_module_char u"
    by (cases m) (auto simp: is_module_name_def)
  with m show "accepts (Seq (Chars is_ident_start) (Many is_module_char)) b a cs b' a' cs'"
    by (auto simp: accepts_shape)
next
  assume "accepts (Seq (Chars is_ident_start) (Many is_module_char)) b a cs b' a' cs'"
  then obtain c w where "is_ident_start c" "a = c # w @ a'" "list_all is_module_char w" "b' = rev w @ c # b" "cs' = cs"
    by (auto simp: accepts_shape)
  then show ?R by (intro exI [of _ "c # w"]) (simp add: is_module_name_def)
qed

lemma VERSIONS_RE_group:
  assumes "accepts VERSIONS_RE [] s [] b a cs"
  shows "s = dict_get cs 1 [] @ '': '' @ dict_get cs 2 [] @ ''-'' @ dict_get cs 3 [] @ a \<and> is_module_name (dict_get cs 1 []) \<and>
    is_python_version (dict_get cs 2 []) \<and> (dict_get cs 3 [] = [] \<or> is_python_version (dict_get cs 3 [])) \<and> (a = [] \<or> a = [CHR 0x0A])"
  using assms unfolding VERSIONS_RE_def
  by (auto simp: accepts_simps accepts_lit accepts_Opt accepts_Group accepts_module_name accepts_python_version
    dict_get_def is_module_name_def)

lemma VERSIONS_RE_accepts:
  assumes "version_entry s m"
  shows "\<exists>b a cs. accepts VERSIONS_RE [] s [] b a cs"
proof -
  obtain v w where vw: "s = m @ '': '' @ v @ ''-'' @ w" "is_module_name m" "is_python_version v" "w = [] \<or> is_python_version w"
    using assms by (auto simp: version_entry_def)
  let ?r1 = "'': '' @ v @ ''-'' @ w" and ?r2 = "v @ ''-'' @ w" and ?r3 = "''-'' @ w"
  have "accepts (Group 1 (Seq (Chars is_ident_start) (Many is_module_char))) [] (m @ ?r1) [] (rev m @ []) ?r1 (AList.update 1 m [])"
    by (rule acc_group) (simp add: accepts_module_name vw)
  moreover have "accepts (lit '': '') (rev m @ []) ?r1 (AList.update 1 m []) (rev '': '' @ rev m @ []) ?r2 (AList.update 1 m [])"
    by (simp only: accepts_lit simp_thms)
  moreover have "accepts (Group 2 python_version_re) b (v @ ?r3) cs (rev v @ b) ?r3 (AList.update 2 v cs)" for b cs
    by (rule acc_group) (simp add: accepts_python_version vw)
  moreover have "accepts (lit ''-'') b ?r3 cs (rev ''-'' @ b) w cs" for b cs
    by (simp only: accepts_lit simp_thms)
  moreover have "\<exists>b' cs'. accepts (Opt (Group 3 python_version_re)) b w cs b' [] cs'" for b cs
  proof (cases "w = []")
    case True
    then show ?thesis by (auto simp: accepts_Opt)
  next
    case False
    then have "accepts (Group 3 python_version_re) b (w @ []) cs (rev w @ b) [] (AList.update 3 w cs)"
      by (intro acc_group) (use vw in \<open>simp add: accepts_python_version\<close>)
    then show ?thesis by (auto simp: accepts_Opt)
  qed
  ultimately show ?thesis
    unfolding VERSIONS_RE_def vw(1) by (meson acc_seq acc_end)
qed

lemma version_entry_unique: "version_entry s m \<Longrightarrow> version_entry s m' \<Longrightarrow> m = m'"
proof -
  assume "version_entry s m" "version_entry s m'"
  then obtain r r' where s: "m @ CHR '':'' # r = m' @ CHR '':'' # r'" and m: "is_module_name m" "is_module_name m'"
    by (auto simp: version_entry_def)
  have "list_all is_module_char x" if "is_module_name x" for x
    using that by (cases x) (auto simp: is_module_name_def is_module_char_def)
  moreover have "\<not> is_module_char CHR '':''" by code_simp
  ultimately show ?thesis using class_run_unique [OF s] m by blast
qed

text \<open>The pattern recognizes exactly the lines of the grammar, and its first group is the module.\<close>

lemma VERSIONS_RE_line:
  assumes "line = strip_comments l"
  shows "re_match VERSIONS_RE line = Some (x, cs) \<Longrightarrow> version_entry line m \<longleftrightarrow> m = dict_get cs 1 []"
    and "re_match VERSIONS_RE line = None \<longleftrightarrow> (\<nexists>m. version_entry line m)"
    and "re_match VERSIONS_RE line = Some (x, cs) \<Longrightarrow> line = dict_get cs 1 [] @ '': '' @ dict_get cs 2 [] @ ''-'' @ dict_get cs 3 [] \<and>
      is_module_name (dict_get cs 1 []) \<and> is_python_version (dict_get cs 2 []) \<and>
      (dict_get cs 3 [] = [] \<or> is_python_version (dict_get cs 3 []))"
proof -
  have no_nl: "u @ [CHR 0x0A] \<noteq> line" for u
  proof
    assume "u @ [CHR 0x0A] = line"
    then have eq: "strip (hd (split_on CHR ''#'' l)) = u @ [CHR 0x0A]" using assms by (simp add: strip_comments_def)
    have "strip (hd (split_on CHR ''#'' l)) \<noteq> []" "last (strip (hd (split_on CHR ''#'' l))) = CHR 0x0A"
      unfolding eq by simp_all
    moreover have "is_space CHR 0x0A" by code_simp
    ultimately show False using strip_not_space(2) by metis
  qed
  have groups: "line = dict_get cs 1 [] @ '': '' @ dict_get cs 2 [] @ ''-'' @ dict_get cs 3 [] \<and>
      is_module_name (dict_get cs 1 []) \<and> is_python_version (dict_get cs 2 []) \<and>
      (dict_get cs 3 [] = [] \<or> is_python_version (dict_get cs 3 []))"
    if m: "re_match VERSIONS_RE line = Some (x, cs)" for x cs
  proof -
    obtain a where "accepts VERSIONS_RE [] line [] (rev x) a cs"
      using re_match_SomeD [OF m] by blast
    from VERSIONS_RE_group [OF this] show ?thesis
      using no_nl by (metis append.assoc append_Nil2)
  qed
  then show "re_match VERSIONS_RE line = Some (x, cs) \<Longrightarrow> line = dict_get cs 1 [] @ '': '' @ dict_get cs 2 [] @ ''-'' @ dict_get cs 3 [] \<and>
      is_module_name (dict_get cs 1 []) \<and> is_python_version (dict_get cs 2 []) \<and>
      (dict_get cs 3 [] = [] \<or> is_python_version (dict_get cs 3 []))" .
  have entry: "version_entry line (dict_get cs 1 [])" if "re_match VERSIONS_RE line = Some (x, cs)" for x cs
    using groups [OF that] unfolding version_entry_def by blast
  show none: "re_match VERSIONS_RE line = None \<longleftrightarrow> (\<nexists>m. version_entry line m)"
  proof (cases "re_match VERSIONS_RE line")
    case None
    then show ?thesis by (metis VERSIONS_RE_accepts re_match_None_iff)
  next
    case (Some p)
    then show ?thesis using entry by (cases p) auto
  qed
  show "version_entry line m \<longleftrightarrow> m = dict_get cs 1 []" if "re_match VERSIONS_RE line = Some (x, cs)"
    using entry [OF that] version_entry_unique by blast
qed

subsection \<open>Lines with and without their newline\<close>

lemma strip_append_space: "is_space c \<Longrightarrow> strip (s @ [c]) = strip s"
  by (cases "list_all is_space s") (auto simp: strip_def lstrip_def rstrip_def list_all_iff dropWhile_append dest: set_dropWhileD)

lemma strip_comments_newline: "strip_comments (l @ [CHR 0x0A]) = strip_comments l"
proof -
  have "is_space CHR 0x0A" by code_simp
  moreover have "hd (split_on CHR ''#'' (l @ [CHR 0x0A])) = (if CHR ''#'' \<in> set l then hd (split_on CHR ''#'' l) else l @ [CHR 0x0A])"
    by (induction l) (auto split: list.splits)
  ultimately show ?thesis by (simp add: strip_comments_def strip_append_space)
qed

lemma unify_newlines_no_cr: "CHR 0x0D \<notin> set (unify_newlines s)"
  by (induction s rule: unify_newlines.induct) auto

lemma readlines_split_on:
  "readlines s = map (\<lambda>l. l @ [CHR 0x0A]) (butlast (split_on CHR 0x0A s)) @
     (if last (split_on CHR 0x0A s) = [] then [] else [last (split_on CHR 0x0A s)])"
  by (induction s) (auto split: list.splits)

lemma version_lines:
  "filter (\<lambda>l. l \<noteq> []) (map strip_comments (readlines (unify_newlines s))) =
   filter (\<lambda>l. l \<noteq> []) (map strip_comments (splitlines (unify_newlines s)))"
proof -
  let ?ls = "split_on CHR 0x0A (unify_newlines s)"
  have "splitlines (unify_newlines s) = butlast ?ls @ (if last ?ls = [] then [] else [last ?ls])"
    using unify_newlines_no_cr [of s] by (simp add: splitlines_def unify_newlines_id)
  then show ?thesis
    by (simp add: readlines_split_on comp_def strip_comments_newline)
qed

end
