(* ===== verification/Parse_Metadata.thy ===== *)
theory Parse_Metadata
  imports Test_Utils Stubsabot_Git
begin

section \<open>Metadata of the stubs distributions\<close>

text \<open>
  \<^verbatim>\<open>src/tests/parse_metadata.py\<close> and the two scripts that print from it. The repository is given by
  the names that \<^verbatim>\<open>os.listdir("stubs")\<close> lists and, for each distribution, the table that
  \<^verbatim>\<open>tomli.load\<close> gives for its \<^verbatim>\<open>METADATA.toml\<close> or the exception it raises. The caches do not change what
  the functions return and are left out. \<^verbatim>\<open>get_recursive_requirements\<close> calls itself without a bound;
  its first argument is the number of nested calls Python's recursion limit leaves to it.
\<close>

record repo =
  repo_dists :: "string list"
  repo_meta :: "string \<Rightarrow> toml_table res"

subsection \<open>Stubtest settings\<close>

definition STUBTEST_PLATFORM_MAPPING :: "(string, string) dict" where
  "STUBTEST_PLATFORM_MAPPING =
     [(''linux'', ''apt_dependencies''), (''darwin'', ''brew_dependencies''), (''win32'', ''choco_dependencies'')]"

fun is_list_of_strings :: "toml \<Rightarrow> bool" where
  "is_list_of_strings (TList xs) = list_all is_TStr xs"
| "is_list_of_strings _ = False"

fun the_strs :: "toml \<Rightarrow> string list" where
  "the_strs (TList xs) = map the_str xs"
| "the_strs _ = []"

fun is_TBool :: "toml \<Rightarrow> bool" where
  "is_TBool (TBool b) = True"
| "is_TBool _ = False"

fun is_TTable :: "toml \<Rightarrow> bool" where
  "is_TTable (TTable t) = True"
| "is_TTable _ = False"

fun the_table :: "toml \<Rightarrow> toml_table" where
  "the_table (TTable t) = t"
| "the_table _ = []"

record StubtestSettings =
  skipped :: bool
  apt_dependencies :: "string list"
  brew_dependencies :: "string list"
  choco_dependencies :: "string list"
  extras :: "string list"
  ignore_missing_stub :: bool
  platforms :: "string list"
  stubtest_requirements :: "string list"

text \<open>\<^verbatim>\<open>getattr(self, key)\<close> for the attributes of the mapping.\<close>

definition settings_attr :: "StubtestSettings \<Rightarrow> string \<Rightarrow> string list res" where
  "settings_attr s key =
     (if key = ''apt_dependencies'' then Inr (apt_dependencies s)
      else if key = ''brew_dependencies'' then Inr (brew_dependencies s)
      else if key = ''choco_dependencies'' then Inr (choco_dependencies s)
      else Inl AttributeError)"

definition system_requirements_for_platform :: "StubtestSettings \<Rightarrow> string \<Rightarrow> string list res" where
  "system_requirements_for_platform s platform =
     (case map_of STUBTEST_PLATFORM_MAPPING platform of
        None \<Rightarrow> Inl AssertionError
      | Some key \<Rightarrow> settings_attr s key)"

definition stubtest_data :: "toml_table \<Rightarrow> toml_table res" where
  "stubtest_data meta =
     bind_res (toml_table_get (dict_get meta ''tool'' (TTable [])) ''stubtest'' (TTable [])) (\<lambda>d.
       if is_TTable d then Inr (the_table d) else Inl AttributeError)"

definition settings_of :: "toml_table \<Rightarrow> StubtestSettings res" where
  "settings_of data =
     (let skip = dict_get data ''skip'' (TBool False);
          apt = dict_get data ''apt_dependencies'' (TList []);
          brew = dict_get data ''brew_dependencies'' (TList []);
          choco = dict_get data ''choco_dependencies'' (TList []);
          ext = dict_get data ''extras'' (TList []);
          ign = dict_get data ''ignore_missing_stub'' (TBool False);
          specified_platforms = dict_get data ''platforms'' (TList [TStr ''linux'']);
          reqs = dict_get data ''stubtest_requirements'' (TList [])
      in bind_res (assert_res (is_TBool skip)) (\<lambda>_.
         bind_res (assert_res (is_TBool ign)) (\<lambda>_.
         bind_res (assert_res (is_list_of_strings specified_platforms)) (\<lambda>_.
         bind_res (assert_res (is_list_of_strings apt)) (\<lambda>_.
         bind_res (assert_res (is_list_of_strings brew)) (\<lambda>_.
         bind_res (assert_res (is_list_of_strings choco)) (\<lambda>_.
         bind_res (assert_res (is_list_of_strings ext)) (\<lambda>_.
         bind_res (assert_res (is_list_of_strings reqs)) (\<lambda>_.
         let ps = the_strs specified_platforms in
         bind_res (assert_res (\<forall>p \<in> set ps. p \<in> set (dict_keys STUBTEST_PLATFORM_MAPPING))) (\<lambda>_.
         bind_res (map_res (\<lambda>(platform, dep_key).
             assert_res (platform \<in> set ps \<or> map_of data dep_key = None)) STUBTEST_PLATFORM_MAPPING) (\<lambda>_.
         Inr \<lparr>skipped = truthy skip, apt_dependencies = the_strs apt, brew_dependencies = the_strs brew,
              choco_dependencies = the_strs choco, extras = the_strs ext, ignore_missing_stub = truthy ign,
              platforms = ps, stubtest_requirements = the_strs reqs\<rparr>)))))))))))"

definition read_stubtest_settings :: "repo \<Rightarrow> string \<Rightarrow> StubtestSettings res" where
  "read_stubtest_settings rp dist =
     bind_res (repo_meta rp dist) (\<lambda>meta. bind_res (stubtest_data meta) settings_of)"

subsection \<open>Metadata\<close>

record StubMetadata =
  meta_version :: string
  requires :: "string list"
  extra_description :: "string option"
  stub_distribution :: string
  obsolete_since :: "string option"
  meta_no_longer_updated :: bool
  uploaded_to_pypi :: bool
  stubtest_settings :: StubtestSettings

definition KNOWN_METADATA_FIELDS :: "string set" where
  "KNOWN_METADATA_FIELDS = {''version'', ''requires'', ''extra_description'', ''stub_distribution'',
     ''obsolete_since'', ''no_longer_updated'', ''upload'', ''tool''}"

definition KNOWN_METADATA_TOOL_FIELDS :: "(string \<times> string set) list" where
  "KNOWN_METADATA_TOOL_FIELDS =
     [(''stubtest'', {''skip'', ''apt_dependencies'', ''brew_dependencies'', ''choco_dependencies'', ''extras'',
        ''ignore_missing_stub'', ''platforms'', ''stubtest_requirements''})]"

definition is_alnum :: "char \<Rightarrow> bool" where
  "is_alnum c \<longleftrightarrow> is_upper c \<or> is_lower c \<or> is_digit c"

definition is_name_char :: "char \<Rightarrow> bool" where
  "is_name_char c \<longleftrightarrow> is_alnum c \<or> c \<in> set ''._-''"

text \<open>\<^verbatim>\<open>^[a-z0-9]([a-z0-9._-]*[a-z0-9])?$\<close>, ignoring case; under \<^verbatim>\<open>fullmatch\<close> the anchors are redundant.\<close>

definition DIST_NAME_RE :: regex where
  "DIST_NAME_RE = Seq (Chars is_alnum) (Opt (Group 1 (Seq (Many is_name_char) (Chars is_alnum))))"

definition version_without_wildcard :: "string \<Rightarrow> string" where
  "version_without_wildcard v = (if ends_with v ''.*'' then take (length v - 2) v else v)"

definition check_requirement :: "'v packaging \<Rightarrow> toml \<Rightarrow> unit res" where
  "check_requirement pk req =
     bind_res (assert_res (is_TStr req)) (\<lambda>_.
     bind_res (map_res (\<lambda>space. assert_res (space \<notin> set (the_str req))) [CHR '' '', CHR 0x09, CHR 0x0A]) (\<lambda>_.
     bind_res (Requirement pk (the_str req)) (\<lambda>_. Inr ())))"

text \<open>\<^verbatim>\<open>isinstance(data.get(key), (str, type(None)))\<close>.\<close>

definition optional_str :: "toml_table \<Rightarrow> string \<Rightarrow> string option res" where
  "optional_str data key =
     (case map_of data key of
        None \<Rightarrow> Inr None
      | Some v \<Rightarrow> if is_TStr v then Inr (Some (the_str v)) else Inl AssertionError)"

definition stub_distribution_of :: "string \<Rightarrow> toml_table \<Rightarrow> string res" where
  "stub_distribution_of dist data =
     (case map_of data ''stub_distribution'' of
        None \<Rightarrow> Inr (''types-'' @ dist)
      | Some v \<Rightarrow>
          bind_res (assert_res (is_TStr v)) (\<lambda>_.
          bind_res (assert_res (re_fullmatch DIST_NAME_RE (the_str v) \<noteq> None)) (\<lambda>_. Inr (the_str v))))"

definition check_tools :: "toml_table \<Rightarrow> unit res" where
  "check_tools data =
     (let tools = dict_get data ''tool'' (TTable []) in
      bind_res (assert_res (is_TTable tools)) (\<lambda>_.
      bind_res (assert_res (set (dict_keys (the_table tools)) \<subseteq> set (map fst KNOWN_METADATA_TOOL_FIELDS))) (\<lambda>_.
      bind_res (map_res (\<lambda>(tool, tk).
          let st = dict_get (the_table tools) tool (TTable []) in
          bind_res (assert_res (is_TTable st)) (\<lambda>_.
          bind_res (map_res (\<lambda>key. assert_res (key \<in> tk)) (dict_keys (the_table st))) (\<lambda>_. Inr ())))
        KNOWN_METADATA_TOOL_FIELDS) (\<lambda>_. Inr ()))))"

definition read_metadata :: "'v packaging \<Rightarrow> repo \<Rightarrow> string \<Rightarrow> StubMetadata res" where
  "read_metadata pk rp dist =
     bind_res (repo_meta rp dist) (\<lambda>data.
     bind_res (assert_res (set (dict_keys data) \<subseteq> KNOWN_METADATA_FIELDS)) (\<lambda>_.
     case map_of data ''version'' of
       None \<Rightarrow> Inl AssertionError
     | Some ver \<Rightarrow>
     bind_res (assert_res (is_TStr ver)) (\<lambda>_.
     bind_res (Version pk (version_without_wildcard (the_str ver))) (\<lambda>_.
     let reqs = dict_get data ''requires'' (TList []) in
     case reqs of
       TList rs \<Rightarrow>
     bind_res (map_res (check_requirement pk) rs) (\<lambda>_.
     bind_res (optional_str data ''extra_description'') (\<lambda>extra.
     bind_res (stub_distribution_of dist data) (\<lambda>stub_dist.
     bind_res (optional_str data ''obsolete_since'') (\<lambda>obs.
     let nlu = dict_get data ''no_longer_updated'' (TBool False); upload = dict_get data ''upload'' (TBool True) in
     bind_res (assert_res (is_TBool nlu)) (\<lambda>_.
     bind_res (assert_res (is_TBool upload)) (\<lambda>_.
     bind_res (check_tools data) (\<lambda>_.
     bind_res (read_stubtest_settings rp dist) (\<lambda>settings.
       Inr \<lparr>meta_version = the_str ver, requires = map the_str rs, extra_description = extra,
            stub_distribution = stub_dist, obsolete_since = obs, meta_no_longer_updated = truthy nlu,
            uploaded_to_pypi = truthy upload, stubtest_settings = settings\<rparr>))))))))
     | _ \<Rightarrow> Inl AssertionError))))"

subsection \<open>Dependencies\<close>

record PackageDependencies =
  typeshed_pkgs :: "string list"
  external_pkgs :: "string list"

text \<open>A dictionary comprehension: of two distributions with one name on PyPI the later counts.\<close>

definition get_pypi_name_to_typeshed_name_mapping :: "'v packaging \<Rightarrow> repo \<Rightarrow> (string, string) dict res" where
  "get_pypi_name_to_typeshed_name_mapping pk rp =
     bind_res (map_res (\<lambda>n. bind_res (read_metadata pk rp n) (\<lambda>m. Inr (stub_distribution m, n))) (repo_dists rp))
       (\<lambda>ps. Inr (fold (\<lambda>(k, v). AList.update k v) ps []))"

definition add_dependency ::
  "'v packaging \<Rightarrow> (string, string) dict \<Rightarrow> string \<Rightarrow> PackageDependencies \<Rightarrow> PackageDependencies res" where
  "add_dependency pk mapping dependency acc =
     bind_res (Requirement pk dependency) (\<lambda>name.
       case map_of mapping name of
         Some pkg \<Rightarrow> Inr (acc\<lparr>typeshed_pkgs := typeshed_pkgs acc @ [pkg]\<rparr>)
       | None \<Rightarrow> Inr (acc\<lparr>external_pkgs := external_pkgs acc @ [req_str pk dependency]\<rparr>))"

definition read_dependencies :: "'v packaging \<Rightarrow> repo \<Rightarrow> string \<Rightarrow> PackageDependencies res" where
  "read_dependencies pk rp dist =
     bind_res (get_pypi_name_to_typeshed_name_mapping pk rp) (\<lambda>mapping.
     bind_res (read_metadata pk rp dist) (\<lambda>m.
       fold_res (add_dependency pk mapping) (requires m) \<lparr>typeshed_pkgs = [], external_pkgs = []\<rparr>))"

primrec recursive_requirements ::
  "nat \<Rightarrow> (string \<Rightarrow> PackageDependencies res) \<Rightarrow> string \<Rightarrow> PackageDependencies res" where
  "recursive_requirements 0 read package_name = Inl RecursionError"
| "recursive_requirements (Suc k) read package_name =
     bind_res (read package_name) (\<lambda>non_recursive.
     bind_res (map_res (recursive_requirements k read) (typeshed_pkgs non_recursive)) (\<lambda>reqs.
       Inr \<lparr>typeshed_pkgs = sorted_set (typeshed_pkgs non_recursive @ concat (map typeshed_pkgs reqs)),
            external_pkgs = sorted_set (external_pkgs non_recursive @ concat (map external_pkgs reqs))\<rparr>))"

definition get_recursive_requirements ::
  "nat \<Rightarrow> 'v packaging \<Rightarrow> repo \<Rightarrow> string \<Rightarrow> PackageDependencies res" where
  "get_recursive_requirements limit pk rp package_name =
     recursive_requirements limit (read_dependencies pk rp) package_name"

subsection \<open>The scripts that print requirements\<close>

definition get_external_stub_requirements :: "'v packaging \<Rightarrow> repo \<Rightarrow> string list \<Rightarrow> string list res" where
  "get_external_stub_requirements pk rp args =
     bind_res (map_res (read_dependencies pk rp) (or_default args (repo_dists rp))) (\<lambda>ds.
       Inr (sorted_set (concat (map external_pkgs ds))))"

definition get_stubtest_system_requirements :: "repo \<Rightarrow> string \<Rightarrow> string list \<Rightarrow> string list res" where
  "get_stubtest_system_requirements rp platform args =
     bind_res (map_res (\<lambda>d. bind_res (read_stubtest_settings rp d)
         (\<lambda>s. system_requirements_for_platform s platform)) (or_default args (repo_dists rp))) (\<lambda>ps.
       Inr (concat ps))"

section \<open>Properties\<close>

subsection \<open>Distribution names\<close>

definition valid_dist_name :: "string \<Rightarrow> bool" where
  "valid_dist_name s \<longleftrightarrow> s \<noteq> [] \<and> is_alnum (hd s) \<and> is_alnum (last s) \<and> list_all is_name_char s"

lemma alnum_name_char: "is_alnum c \<Longrightarrow> is_name_char c"
  by (simp add: is_name_char_def)

lemma lang_Many_Chars: "lang (Seq (Many P) (Chars Q)) w \<longleftrightarrow> w \<noteq> [] \<and> list_all P (butlast w) \<and> Q (last w)"
proof
  assume "w \<noteq> [] \<and> list_all P (butlast w) \<and> Q (last w)"
  then have "w = butlast w @ [last w]" "lang (Many P) (butlast w)" "lang (Chars Q) [last w]" by auto
  then show "lang (Seq (Many P) (Chars Q)) w" by (simp only: lang.simps(3)) blast
qed auto

lemma DIST_NAME_RE_iff: "re_fullmatch DIST_NAME_RE s \<noteq> None \<longleftrightarrow> valid_dist_name s"
proof -
  have "plain DIST_NAME_RE" by (simp add: DIST_NAME_RE_def Opt_def)
  then have "re_fullmatch DIST_NAME_RE s \<noteq> None \<longleftrightarrow> lang DIST_NAME_RE s" by (rule re_fullmatch_iff_lang)
  also have "\<dots> \<longleftrightarrow> (\<exists>c v. s = c # v \<and> is_alnum c \<and> (v \<noteq> [] \<and> list_all is_name_char (butlast v) \<and> is_alnum (last v) \<or> v = []))"
    by (simp only: DIST_NAME_RE_def lang_shape lang_Opt lang.simps(7) lang_Many_Chars)
  also have "\<dots> \<longleftrightarrow> valid_dist_name s"
  proof (cases s)
    case (Cons c v)
    have "list_all is_name_char v \<longleftrightarrow> list_all is_name_char (butlast v) \<and> is_name_char (last v)" if "v \<noteq> []"
      using that by (cases v rule: rev_cases) auto
    then show ?thesis using Cons by (auto simp: valid_dist_name_def alnum_name_char)
  qed (simp add: valid_dist_name_def)
  finally show ?thesis .
qed

subsection \<open>Which metadata is accepted\<close>

lemma is_TStr_iff: "is_TStr v \<longleftrightarrow> (\<exists>s. v = TStr s)"
  by (cases v) auto

lemma is_TBool_iff: "is_TBool v \<longleftrightarrow> (\<exists>b. v = TBool b)"
  by (cases v) auto

lemma is_TTable_iff: "is_TTable v \<longleftrightarrow> (\<exists>t. v = TTable t)"
  by (cases v) auto

lemma is_list_of_strings_iff: "is_list_of_strings v \<longleftrightarrow> (\<exists>ss. v = TList (map TStr ss))"
proof (cases v)
  case (TList xs)
  have "list_all is_TStr xs \<Longrightarrow> xs = map TStr (map the_str xs)"
    by (induction xs) (auto simp: is_TStr_iff)
  moreover have "list_all is_TStr (map TStr ss)" for ss by (simp add: list_all_iff)
  ultimately show ?thesis using TList by (metis is_list_of_strings.simps(1) toml.inject(4))
qed auto

lemmas toml_shape = is_TStr_iff is_TBool_iff is_TTable_iff is_list_of_strings_iff

lemma ok_map_res: "ok (map_res f xs) \<longleftrightarrow> (\<forall>x \<in> set xs. ok (f x))"
proof (induction xs)
  case (Cons x xs)
  have "ok (map_res f (x # xs)) \<longleftrightarrow> ok (f x) \<and> ok (map_res f xs)"
    by (cases "f x"; cases "map_res f xs") simp_all
  with Cons show ?case by simp
qed simp

lemma ok_bind_assert: "ok (bind_res (assert_res b) f) \<longleftrightarrow> b \<and> ok (f ())"
  by (simp add: assert_res_def)

lemma ok_bind_const: "ok (bind_res m (\<lambda>_. k)) \<longleftrightarrow> ok m \<and> ok k"
  by (cases m) simp_all

lemmas ok_steps = ok_bind_assert ok_bind_const ok_map_res ok_assert_res ok_simps(1) simp_thms

definition valid_stubtest :: "toml_table \<Rightarrow> bool" where
  "valid_stubtest st \<longleftrightarrow>
     (\<forall>key \<in> {''skip'', ''ignore_missing_stub''}. \<exists>b. dict_get st key (TBool False) = TBool b) \<and>
     (\<forall>key \<in> {''apt_dependencies'', ''brew_dependencies'', ''choco_dependencies'', ''extras'', ''stubtest_requirements''}.
        \<exists>ss. dict_get st key (TList []) = TList (map TStr ss)) \<and>
     (\<exists>ps. dict_get st ''platforms'' (TList [TStr ''linux'']) = TList (map TStr ps) \<and>
        set ps \<subseteq> {''linux'', ''darwin'', ''win32''} \<and>
        (''apt_dependencies'' \<in> dom (map_of st) \<longrightarrow> ''linux'' \<in> set ps) \<and>
        (''brew_dependencies'' \<in> dom (map_of st) \<longrightarrow> ''darwin'' \<in> set ps) \<and>
        (''choco_dependencies'' \<in> dom (map_of st) \<longrightarrow> ''win32'' \<in> set ps))"

lemma the_strs_map [simp]: "the_strs (TList (map TStr ss)) = ss"
  by (simp add: comp_def)

lemma platforms_part:
  "is_list_of_strings v \<and> (\<forall>p \<in> set (the_strs v). p \<in> set (dict_keys STUBTEST_PLATFORM_MAPPING)) \<and>
   (\<forall>x \<in> set STUBTEST_PLATFORM_MAPPING. fst x \<in> set (the_strs v) \<or> map_of st (snd x) = None) \<longleftrightarrow>
   (\<exists>ps. v = TList (map TStr ps) \<and> set ps \<subseteq> {''linux'', ''darwin'', ''win32''} \<and>
        (''apt_dependencies'' \<in> dom (map_of st) \<longrightarrow> ''linux'' \<in> set ps) \<and>
        (''brew_dependencies'' \<in> dom (map_of st) \<longrightarrow> ''darwin'' \<in> set ps) \<and>
        (''choco_dependencies'' \<in> dom (map_of st) \<longrightarrow> ''win32'' \<in> set ps))"
proof (cases "\<exists>ps. v = TList (map TStr ps)")
  case True
  then obtain ps where v: "v = TList (map TStr ps)" by blast
  have inj: "TList (map TStr ps) = TList (map TStr qs) \<longleftrightarrow> ps = qs" for qs
    by (metis the_strs_map)
  have keys: "set (dict_keys STUBTEST_PLATFORM_MAPPING) = {''linux'', ''darwin'', ''win32''}"
    by (simp add: STUBTEST_PLATFORM_MAPPING_def)
  have deps: "(\<forall>x \<in> set STUBTEST_PLATFORM_MAPPING. fst x \<in> set ps \<or> map_of st (snd x) = None) \<longleftrightarrow>
      (''apt_dependencies'' \<in> dom (map_of st) \<longrightarrow> ''linux'' \<in> set ps) \<and>
      (''brew_dependencies'' \<in> dom (map_of st) \<longrightarrow> ''darwin'' \<in> set ps) \<and>
      (''choco_dependencies'' \<in> dom (map_of st) \<longrightarrow> ''win32'' \<in> set ps)"
    unfolding STUBTEST_PLATFORM_MAPPING_def domIff by (simp only: list.set ball_simps fst_conv snd_conv imp_conv_disj not_not simp_thms disj_commute)
  have "is_list_of_strings (TList (map TStr ps))" using v by (auto simp: is_list_of_strings_iff)
  then show ?thesis unfolding v the_strs_map inj keys deps by (simp only: subset_eq simp_thms)
next
  case False
  then show ?thesis unfolding is_list_of_strings_iff by blast
qed

lemma ok_settings_of: "ok (settings_of st) \<longleftrightarrow> valid_stubtest st"
proof -
  have "ok (settings_of st) \<longleftrightarrow>
     is_TBool (dict_get st ''skip'' (TBool False)) \<and> is_TBool (dict_get st ''ignore_missing_stub'' (TBool False)) \<and>
     is_list_of_strings (dict_get st ''platforms'' (TList [TStr ''linux''])) \<and>
     is_list_of_strings (dict_get st ''apt_dependencies'' (TList [])) \<and>
     is_list_of_strings (dict_get st ''brew_dependencies'' (TList [])) \<and>
     is_list_of_strings (dict_get st ''choco_dependencies'' (TList [])) \<and>
     is_list_of_strings (dict_get st ''extras'' (TList [])) \<and>
     is_list_of_strings (dict_get st ''stubtest_requirements'' (TList [])) \<and>
     (\<forall>p \<in> set (the_strs (dict_get st ''platforms'' (TList [TStr ''linux'']))). p \<in> set (dict_keys STUBTEST_PLATFORM_MAPPING)) \<and>
     (\<forall>x \<in> set STUBTEST_PLATFORM_MAPPING.
        fst x \<in> set (the_strs (dict_get st ''platforms'' (TList [TStr ''linux'']))) \<or> map_of st (snd x) = None)"
    unfolding settings_of_def Let_def
    by (simp only: ok_steps ok_simps split_def simp_thms)
  also have "\<dots> \<longleftrightarrow> valid_stubtest st"
    unfolding valid_stubtest_def platforms_part [symmetric] unfolding is_TBool_iff [symmetric] is_list_of_strings_iff [symmetric]
    by (simp only: ball_simps simp_thms conj_ac)
  finally show ?thesis .
qed

definition optional :: "(toml \<Rightarrow> bool) \<Rightarrow> toml_table \<Rightarrow> string \<Rightarrow> bool" where
  "optional P data key \<longleftrightarrow> (\<forall>v. map_of data key = Some v \<longrightarrow> P v)"

definition valid_requirement :: "'v packaging \<Rightarrow> string \<Rightarrow> bool" where
  "valid_requirement pk r \<longleftrightarrow> set r \<inter> {CHR '' '', CHR 0x09, CHR 0x0A} = {} \<and> req_name pk r \<noteq> None"

definition stubtest_keys :: "string set" where
  "stubtest_keys = {''skip'', ''apt_dependencies'', ''brew_dependencies'', ''choco_dependencies'', ''extras'',
     ''ignore_missing_stub'', ''platforms'', ''stubtest_requirements''}"

definition valid_metadata :: "'v packaging \<Rightarrow> toml_table \<Rightarrow> bool" where
  "valid_metadata pk data \<longleftrightarrow>
     set (dict_keys data) \<subseteq> KNOWN_METADATA_FIELDS \<and>
     (\<exists>v. map_of data ''version'' = Some (TStr v) \<and> parse_version pk (version_without_wildcard v) \<noteq> None) \<and>
     (\<exists>rs. dict_get data ''requires'' (TList []) = TList (map TStr rs) \<and> (\<forall>r \<in> set rs. valid_requirement pk r)) \<and>
     optional is_TStr data ''extra_description'' \<and> optional is_TStr data ''obsolete_since'' \<and>
     optional (\<lambda>v. \<exists>n. v = TStr n \<and> valid_dist_name n) data ''stub_distribution'' \<and>
     optional is_TBool data ''no_longer_updated'' \<and> optional is_TBool data ''upload'' \<and>
     (\<exists>tools st. dict_get data ''tool'' (TTable []) = TTable tools \<and> set (dict_keys tools) \<subseteq> {''stubtest''} \<and>
        dict_get tools ''stubtest'' (TTable []) = TTable st \<and> set (dict_keys st) \<subseteq> stubtest_keys \<and> valid_stubtest st)"

lemma ok_check_requirement: "ok (check_requirement pk v) \<longleftrightarrow> (\<exists>r. v = TStr r \<and> valid_requirement pk r)"
proof -
  have "ok (check_requirement pk v) \<longleftrightarrow> is_TStr v \<and>
      (\<forall>c \<in> set [CHR '' '', CHR 0x09, CHR 0x0A]. c \<notin> set (the_str v)) \<and> ok (Requirement pk (the_str v))"
    unfolding check_requirement_def by (simp only: ok_steps)
  moreover have "ok (Requirement pk r) \<longleftrightarrow> req_name pk r \<noteq> None" for r
    by (simp add: Requirement_def split: option.splits)
  ultimately show ?thesis by (cases v) (auto simp: valid_requirement_def)
qed

lemma ok_requirements:
  "(\<exists>rs. v = TList rs \<and> ok (map_res (check_requirement pk) rs)) \<longleftrightarrow>
     (\<exists>rs. v = TList (map TStr rs) \<and> (\<forall>r \<in> set rs. valid_requirement pk r))"
proof -
  have "ok (map_res (check_requirement pk) xs) \<longleftrightarrow> (\<exists>rs. xs = map TStr rs \<and> (\<forall>r \<in> set rs. valid_requirement pk r))" for xs
  proof (induction xs)
    case (Cons x xs)
    have "ok (map_res (check_requirement pk) (x # xs)) \<longleftrightarrow>
        ok (check_requirement pk x) \<and> ok (map_res (check_requirement pk) xs)"
      by (simp only: ok_map_res list.set ball_simps)
    also have "\<dots> \<longleftrightarrow> (\<exists>r rs. x # xs = map TStr (r # rs) \<and> (\<forall>r \<in> set (r # rs). valid_requirement pk r))"
      unfolding Cons.IH ok_check_requirement by auto
    finally show ?case by (metis list.simps(8) list.distinct(1) neq_Nil_conv)
  qed simp
  then show ?thesis by blast
qed

lemma ok_optional_str: "ok (optional_str data key) \<longleftrightarrow> optional is_TStr data key"
  by (auto simp: optional_str_def optional_def split: option.splits)

lemma ok_stub_distribution_of:
  "ok (stub_distribution_of dist data) \<longleftrightarrow> optional (\<lambda>v. \<exists>n. v = TStr n \<and> valid_dist_name n) data ''stub_distribution''"
  unfolding stub_distribution_of_def optional_def DIST_NAME_RE_iff
  by (auto simp: ok_steps is_TStr_iff split: option.splits)

lemma optional_bool: "is_TBool (dict_get data key (TBool b)) \<longleftrightarrow> optional is_TBool data key"
  by (auto simp: dict_get_def optional_def split: option.splits)

lemma ok_tools:
  "ok (check_tools data) \<and> ok (bind_res (stubtest_data data) settings_of) \<longleftrightarrow>
     (\<exists>tools st. dict_get data ''tool'' (TTable []) = TTable tools \<and> set (dict_keys tools) \<subseteq> {''stubtest''} \<and>
        dict_get tools ''stubtest'' (TTable []) = TTable st \<and> set (dict_keys st) \<subseteq> stubtest_keys \<and> valid_stubtest st)"
proof (cases "dict_get data ''tool'' (TTable [])")
  case (TTable tools)
  have "ok (check_tools data) \<longleftrightarrow> set (dict_keys tools) \<subseteq> {''stubtest''} \<and>
      (\<exists>st. dict_get tools ''stubtest'' (TTable []) = TTable st \<and> set (dict_keys st) \<subseteq> stubtest_keys)"
    unfolding check_tools_def KNOWN_METADATA_TOOL_FIELDS_def stubtest_keys_def [symmetric] TTable Let_def
    by (cases "dict_get tools ''stubtest'' (TTable [])") (simp_all add: ok_steps subset_eq)
  moreover have "ok (bind_res (stubtest_data data) settings_of) \<longleftrightarrow>
      (\<exists>st. dict_get tools ''stubtest'' (TTable []) = TTable st \<and> valid_stubtest st)"
    unfolding stubtest_data_def TTable
    by (cases "dict_get tools ''stubtest'' (TTable [])") (simp_all add: ok_settings_of)
  ultimately show ?thesis using TTable by auto
qed (simp_all add: check_tools_def)

lemma ok_case_option: "ok (case m of None \<Rightarrow> Inl e | Some x \<Rightarrow> f x) \<longleftrightarrow> (\<exists>x. m = Some x \<and> ok (f x))"
  by (cases m) simp_all

lemma ok_case_TList:
  "ok (case v of TList rs \<Rightarrow> f rs | _ \<Rightarrow> Inl e) \<longleftrightarrow> (\<exists>rs. v = TList rs \<and> ok (f rs))"
  by (cases v) simp_all

text \<open>C23: \<^verbatim>\<open>read_metadata\<close> accepts exactly the tables that the format of \<^verbatim>\<open>METADATA.toml\<close> allows: known keys only,
  a version that parses once a trailing wildcard is removed, requirements that parse and contain no
  white space, a distribution name in the grammar of package names, booleans where booleans are due, and
  stubtest settings whose platforms are known and which list the dependencies of a platform only if
  stubtest runs there.\<close>

theorem read_metadata_accepts:
  "ok (read_metadata pk rp dist) \<longleftrightarrow> (\<exists>data. repo_meta rp dist = Inr data \<and> valid_metadata pk data)"
proof (cases "repo_meta rp dist")
  case (Inr data)
  have settings: "read_stubtest_settings rp dist = bind_res (stubtest_data data) settings_of"
    by (simp add: read_stubtest_settings_def Inr)
  have tail: "ok (bind_res (optional_str data ''extra_description'') (\<lambda>extra.
     bind_res (stub_distribution_of dist data) (\<lambda>stub_dist.
     bind_res (optional_str data ''obsolete_since'') (\<lambda>obs.
     bind_res (assert_res (is_TBool (dict_get data ''no_longer_updated'' (TBool False)))) (\<lambda>_.
     bind_res (assert_res (is_TBool (dict_get data ''upload'' (TBool True)))) (\<lambda>_.
     bind_res (check_tools data) (\<lambda>_.
     bind_res (read_stubtest_settings rp dist) (\<lambda>settings.
       Inr (f extra stub_dist obs settings))))))))) \<longleftrightarrow>
     ok (optional_str data ''extra_description'') \<and>
     ok (stub_distribution_of dist data) \<and> ok (optional_str data ''obsolete_since'') \<and>
     is_TBool (dict_get data ''no_longer_updated'' (TBool False)) \<and> is_TBool (dict_get data ''upload'' (TBool True)) \<and>
     ok (check_tools data) \<and> ok (bind_res (stubtest_data data) settings_of)"
    for f :: "string option \<Rightarrow> string \<Rightarrow> string option \<Rightarrow> StubtestSettings \<Rightarrow> StubMetadata"
    unfolding settings by (simp only: ok_steps ok_bind_res ok_simps simp_thms ex_simps ok_iff [symmetric])
  have pull: "(\<exists>x. A x \<and> B x \<and> C x \<and> (\<exists>y. D y \<and> E y \<and> F)) \<longleftrightarrow> (\<exists>x. A x \<and> B x \<and> C x) \<and> (\<exists>y. D y \<and> E y) \<and> F"
    for A B C and D E :: "toml list \<Rightarrow> bool" and F by blast
  have "ok (read_metadata pk rp dist) \<longleftrightarrow> set (dict_keys data) \<subseteq> KNOWN_METADATA_FIELDS \<and>
      (\<exists>ver. map_of data ''version'' = Some ver \<and> is_TStr ver \<and> ok (Version pk (version_without_wildcard (the_str ver)))) \<and>
      (\<exists>rs. dict_get data ''requires'' (TList []) = TList rs \<and> ok (map_res (check_requirement pk) rs)) \<and>
      ok (optional_str data ''extra_description'') \<and>
      ok (stub_distribution_of dist data) \<and> ok (optional_str data ''obsolete_since'') \<and>
      is_TBool (dict_get data ''no_longer_updated'' (TBool False)) \<and> is_TBool (dict_get data ''upload'' (TBool True)) \<and>
      ok (check_tools data) \<and> ok (bind_res (stubtest_data data) settings_of)"
    unfolding read_metadata_def Inr bind_res.simps Let_def ok_bind_assert ok_bind_const ok_case_option ok_case_TList tail
    unfolding ok_assert_res pull ..
  moreover have "ok (Version pk v) \<longleftrightarrow> parse_version pk v \<noteq> None" for v
    by (simp add: Version_def split: option.splits)
  moreover have "(\<exists>data'. repo_meta rp dist = Inr data' \<and> valid_metadata pk data') \<longleftrightarrow> valid_metadata pk data"
    using Inr by simp
  ultimately show ?thesis
    unfolding ok_requirements ok_optional_str ok_stub_distribution_of optional_bool ok_tools valid_metadata_def
    by (auto simp: is_TStr_iff)
qed (simp add: read_metadata_def)

subsection \<open>Requirements of a platform\<close>

text \<open>C25: If the stubtest settings of a distribution are accepted, then for every platform on which stubtest does not
  run the list of system packages to install is empty; on an unknown platform the request fails.\<close>

theorem system_requirements_elsewhere:
  assumes "read_stubtest_settings rp dist = Inr s" "platform \<notin> set (platforms s)"
  shows "system_requirements_for_platform s platform =
    (if platform \<in> {''linux'', ''darwin'', ''win32''} then Inr [] else Inl AssertionError)"
proof -
  obtain data where s: "settings_of data = Inr s"
    using assms(1) by (auto simp: read_stubtest_settings_def bind_res_eq_Inr)
  have ps: "platforms s = the_strs (dict_get data ''platforms'' (TList [TStr ''linux'']))"
    and apt: "apt_dependencies s = the_strs (dict_get data ''apt_dependencies'' (TList []))"
    and brew: "brew_dependencies s = the_strs (dict_get data ''brew_dependencies'' (TList []))"
    and choco: "choco_dependencies s = the_strs (dict_get data ''choco_dependencies'' (TList []))"
    using s by (auto simp: settings_of_def Let_def bind_res_eq_Inr)
  have "valid_stubtest data" using s ok_settings_of [of data] by simp
  then obtain qs where qs: "dict_get data ''platforms'' (TList [TStr ''linux'']) = TList (map TStr qs)"
    and deps: "''apt_dependencies'' \<in> dom (map_of data) \<longrightarrow> ''linux'' \<in> set qs"
      "''brew_dependencies'' \<in> dom (map_of data) \<longrightarrow> ''darwin'' \<in> set qs"
      "''choco_dependencies'' \<in> dom (map_of data) \<longrightarrow> ''win32'' \<in> set qs"
    unfolding valid_stubtest_def by (elim conjE exE) (rule that, assumption+)
  have "platforms s = qs" using ps qs by (simp only: the_strs_map)
  with assms(2) deps apt brew choco show ?thesis
    by (auto simp: system_requirements_for_platform_def STUBTEST_PLATFORM_MAPPING_def settings_attr_def dict_get_def domIff
        split: option.splits)
qed

subsection \<open>Direct dependencies\<close>

lemma mapping_values:
  assumes "get_pypi_name_to_typeshed_name_mapping pk rp = Inr mapping" "map_of mapping name = Some pkg"
  shows "pkg \<in> set (repo_dists rp) \<and> (\<exists>m. read_metadata pk rp pkg = Inr m \<and> stub_distribution m = name)"
proof -
  obtain ps where ps: "map_res (\<lambda>n. bind_res (read_metadata pk rp n) (\<lambda>m. Inr (stub_distribution m, n))) (repo_dists rp) = Inr ps"
    and mapping: "mapping = fold (\<lambda>(k, v). AList.update k v) ps []"
    using assms(1) by (auto simp: get_pypi_name_to_typeshed_name_mapping_def bind_res_eq_Inr)
  have "fold (\<lambda>x. AList.update (fst x) (snd x)) ps [] = mapping"
    by (simp add: mapping split_def)
  then obtain x where x: "find (\<lambda>x. fst x = name) (rev ps) = Some x" "snd x = pkg"
    using al.lookup_store_many [of fst snd ps "[]" name] assms(2) by (auto split: option.splits)
  then have "fst x = name" "x \<in> set (rev ps)"
    by (auto simp: find_Some_iff simp del: set_rev)
  then have in_ps: "(name, pkg) \<in> set ps" using x(2) by auto
  obtain n where "n \<in> set (repo_dists rp)" "bind_res (read_metadata pk rp n) (\<lambda>m. Inr (stub_distribution m, n)) = Inr (name, pkg)"
    using map_res_range [OF ps in_ps] by blast
  then show ?thesis by (auto simp: bind_res_eq_Inr)
qed

lemma mapping_complete:
  assumes "get_pypi_name_to_typeshed_name_mapping pk rp = Inr mapping"
    and "pkg \<in> set (repo_dists rp)" "read_metadata pk rp pkg = Inr m"
  shows "map_of mapping (stub_distribution m) \<noteq> None"
proof -
  obtain ps where ps: "map_res (\<lambda>n. bind_res (read_metadata pk rp n) (\<lambda>m. Inr (stub_distribution m, n))) (repo_dists rp) = Inr ps"
    and mapping: "mapping = fold (\<lambda>(k, v). AList.update k v) ps []"
    using assms(1) by (auto simp: get_pypi_name_to_typeshed_name_mapping_def bind_res_eq_Inr)
  from map_res_image [OF ps assms(2)] assms(3) have "(stub_distribution m, pkg) \<in> set ps" by auto
  then have "stub_distribution m \<in> fst ` set ps" by force
  then have "stub_distribution m \<in> set (map fst (fold (\<lambda>x. AList.update (fst x) (snd x)) ps []))"
    using al.set_keys_store_many [of fst snd ps "[]"] by simp
  then show ?thesis by (simp add: mapping split_def map_of_eq_None_iff)
qed

lemma add_dependencies:
  "fold_res (add_dependency pk mapping) deps acc = Inr r \<longleftrightarrow>
     (\<forall>d \<in> set deps. req_name pk d \<noteq> None) \<and>
     r = acc\<lparr>typeshed_pkgs := typeshed_pkgs acc @ List.map_filter (\<lambda>d. map_of mapping (the (req_name pk d))) deps,
        external_pkgs := external_pkgs acc @ map (req_str pk) (filter (\<lambda>d. map_of mapping (the (req_name pk d)) = None) deps)\<rparr>"
proof (induction deps arbitrary: acc)
  case (Cons d deps)
  show ?case
  proof (cases "req_name pk d")
    case None
    then show ?thesis by (simp add: add_dependency_def Requirement_def)
  next
    case (Some name)
    then show ?thesis
      using Cons.IH by (cases "map_of mapping name") (auto simp: add_dependency_def Requirement_def map_filter_simps)
  qed
qed (auto simp: map_filter_simps)

text \<open>C24: \<^verbatim>\<open>read_dependencies\<close> splits the requirements of a distribution, in their order: a requirement whose name is the
  PyPI name of some distribution of the repository becomes that distribution, every other one becomes
  an external requirement; nothing is lost.\<close>

theorem read_dependencies_split:
  assumes "read_dependencies pk rp dist = Inr r"
  shows "\<exists>m owner. read_metadata pk rp dist = Inr m \<and>
    (\<forall>name pkg. owner name = Some pkg \<longrightarrow>
       pkg \<in> set (repo_dists rp) \<and> (\<exists>m'. read_metadata pk rp pkg = Inr m' \<and> stub_distribution m' = name)) \<and>
    (\<forall>pkg m'. pkg \<in> set (repo_dists rp) \<and> read_metadata pk rp pkg = Inr m' \<longrightarrow> owner (stub_distribution m') \<noteq> None) \<and>
    typeshed_pkgs r = List.map_filter (\<lambda>d. owner (the (req_name pk d))) (requires m) \<and>
    external_pkgs r = map (req_str pk) (filter (\<lambda>d. owner (the (req_name pk d)) = None) (requires m)) \<and>
    length (typeshed_pkgs r) + length (external_pkgs r) = length (requires m)"
proof -
  obtain mapping m where mapping: "get_pypi_name_to_typeshed_name_mapping pk rp = Inr mapping"
    and m: "read_metadata pk rp dist = Inr m"
    and r: "fold_res (add_dependency pk mapping) (requires m) \<lparr>typeshed_pkgs = [], external_pkgs = []\<rparr> = Inr r"
    using assms by (auto simp: read_dependencies_def bind_res_eq_Inr)
  have eq: "typeshed_pkgs r = List.map_filter (\<lambda>d. map_of mapping (the (req_name pk d))) (requires m)"
    "external_pkgs r = map (req_str pk) (filter (\<lambda>d. map_of mapping (the (req_name pk d)) = None) (requires m))"
    using r by (simp_all add: add_dependencies)
  have "length (List.map_filter f xs) + length (filter (\<lambda>d. f d = None) xs) = length xs" for f :: "string \<Rightarrow> string option" and xs
    by (induction xs) (auto simp: map_filter_simps split: option.splits)
  with eq have "length (typeshed_pkgs r) + length (external_pkgs r) = length (requires m)" by simp
  with m eq mapping_values [OF mapping] mapping_complete [OF mapping] show ?thesis
    by (intro exI [of _ m] exI [of _ "map_of mapping"]) blast
qed

subsection \<open>Recursive dependencies\<close>

definition dep_rel :: "(string \<Rightarrow> PackageDependencies res) \<Rightarrow> (string \<times> string) set" where
  "dep_rel read = {(p, q). \<exists>r. read p = Inr r \<and> q \<in> set (typeshed_pkgs r)}"

definition external_of :: "(string \<Rightarrow> PackageDependencies res) \<Rightarrow> string \<Rightarrow> string set" where
  "external_of read p = (case read p of Inr r \<Rightarrow> set (external_pkgs r) | Inl _ \<Rightarrow> {})"

lemma recursive_requirements_closure:
  assumes "recursive_requirements k read p = Inr r"
  shows "set (typeshed_pkgs r) = {q. (p, q) \<in> (dep_rel read)\<^sup>+} \<and>
    set (external_pkgs r) = (\<Union>q \<in> {q. (p, q) \<in> (dep_rel read)\<^sup>*}. external_of read q) \<and>
    sorted (typeshed_pkgs r) \<and> distinct (typeshed_pkgs r) \<and> sorted (external_pkgs r) \<and> distinct (external_pkgs r)"
  using assms
proof (induction k arbitrary: p r)
  case (Suc k)
  then obtain n reqs where n: "read p = Inr n"
    and reqs: "map_res (recursive_requirements k read) (typeshed_pkgs n) = Inr reqs"
    and r: "r = \<lparr>typeshed_pkgs = sorted_set (typeshed_pkgs n @ concat (map typeshed_pkgs reqs)),
            external_pkgs = sorted_set (external_pkgs n @ concat (map external_pkgs reqs))\<rparr>"
    by (auto simp: bind_res_eq_Inr)
  have step: "(p, q) \<in> dep_rel read \<longleftrightarrow> q \<in> set (typeshed_pkgs n)" for q
    using n by (auto simp: dep_rel_def)
  have T: "(\<Union>x \<in> set reqs. set (typeshed_pkgs x)) = (\<Union>q \<in> set (typeshed_pkgs n). {t. (q, t) \<in> (dep_rel read)\<^sup>+})"
    and E: "(\<Union>x \<in> set reqs. set (external_pkgs x)) =
      (\<Union>q \<in> set (typeshed_pkgs n). \<Union>t \<in> {t. (q, t) \<in> (dep_rel read)\<^sup>*}. external_of read t)"
    using Suc.IH by (auto intro!: map_res_UN [OF reqs])
  have "(p, t) \<in> (dep_rel read)\<^sup>+ \<longleftrightarrow> t \<in> set (typeshed_pkgs n) \<or> (\<exists>q \<in> set (typeshed_pkgs n). (q, t) \<in> (dep_rel read)\<^sup>+)" for t
    using step by (metis converse_tranclE r_into_trancl trancl_into_trancl2)
  moreover have "(p, t) \<in> (dep_rel read)\<^sup>* \<longleftrightarrow> t = p \<or> (\<exists>q \<in> set (typeshed_pkgs n). (q, t) \<in> (dep_rel read)\<^sup>*)" for t
    using step by (metis converse_rtranclE converse_rtrancl_into_rtrancl rtrancl.rtrancl_refl)
  moreover have "external_of read p = set (external_pkgs n)" using n by (simp add: external_of_def)
  ultimately show ?case using r T E by auto
qed simp

lemma recursive_requirements_depth:
  "recursive_requirements k read p = Inr r \<Longrightarrow> (p, q) \<in> dep_rel read ^^ n \<Longrightarrow> n < k"
proof (induction k arbitrary: p r n)
  case (Suc k)
  then obtain m reqs where m: "read p = Inr m"
    and reqs: "map_res (recursive_requirements k read) (typeshed_pkgs m) = Inr reqs"
    by (auto simp: bind_res_eq_Inr)
  show ?case
  proof (cases n)
    case (Suc j)
    with Suc.prems(2) obtain p' where "(p, p') \<in> dep_rel read" "(p', q) \<in> dep_rel read ^^ j"
      by (metis relpow_Suc_D2)
    moreover from this m have "p' \<in> set (typeshed_pkgs m)" by (auto simp: dep_rel_def)
    ultimately show ?thesis using map_res_image [OF reqs] Suc.IH Suc by blast
  qed simp
qed simp

lemma recursive_requirements_error:
  assumes "\<And>q. (p, q) \<in> (dep_rel read)\<^sup>* \<Longrightarrow> ok (read q)" "recursive_requirements k read p = Inl e"
  shows "e = RecursionError \<and> (\<exists>q. (p, q) \<in> dep_rel read ^^ k)"
  using assms
proof (induction k arbitrary: p)
  case (Suc k)
  obtain m where m: "read p = Inr m" using Suc.prems(1) [of p] by (auto simp: ok_iff)
  then have "map_res (recursive_requirements k read) (typeshed_pkgs m) = Inl e"
    using Suc.prems(2) by (auto simp: bind_res_eq_Inl)
  from map_res_Inl [OF this] obtain p' where
    p': "p' \<in> set (typeshed_pkgs m)" "recursive_requirements k read p' = Inl e" by blast
  have "(p, p') \<in> dep_rel read" using m p' by (auto simp: dep_rel_def)
  then have "\<And>q. (p', q) \<in> (dep_rel read)\<^sup>* \<Longrightarrow> ok (read q)"
    using Suc.prems(1) by (meson converse_rtrancl_into_rtrancl)
  from Suc.IH [OF this p'(2)] \<open>(p, p') \<in> dep_rel read\<close> show ?case
    by (meson relpow_Suc_I2)
qed auto

text \<open>
  The interface between the reader of direct dependencies and the recursion: what is read belongs to a
  finite set of distributions.
\<close>

locale dependency_reader =
  fixes read :: "string \<Rightarrow> PackageDependencies res" and dists :: "string set"
  assumes finite_dists: "finite dists"
    and read_in_dists: "read p = Inr r \<Longrightarrow> set (typeshed_pkgs r) \<subseteq> dists"
begin

lemma dep_rel_in_dists: "(p, q) \<in> dep_rel read \<Longrightarrow> q \<in> dists"
  using read_in_dists by (auto simp: dep_rel_def)

lemma closure_in_dists:
  "recursive_requirements k read p = Inr r \<Longrightarrow> set (typeshed_pkgs r) \<subseteq> dists"
  using recursive_requirements_closure [of k read p r] dep_rel_in_dists by (auto elim: tranclE)

lemma long_path_repeats:
  assumes "(p, q) \<in> dep_rel read ^^ n" "card dists < n"
  shows "\<exists>x. (p, x) \<in> (dep_rel read)\<^sup>* \<and> (x, x) \<in> (dep_rel read)\<^sup>+"
proof -
  obtain f where f: "f 0 = p" "\<And>i. i < n \<Longrightarrow> (f i, f (Suc i)) \<in> dep_rel read"
    using assms(1) by (auto simp: relpow_fun_conv)
  have reach: "(f i, f j) \<in> dep_rel read ^^ (j - i)" if "i \<le> j" "j \<le> n" for i j
    using that
  proof (induction j)
    case (Suc j)
    then show ?case
    proof (cases "i = Suc j")
      case False
      with Suc have "(f i, f j) \<in> dep_rel read ^^ (j - i)" "(f j, f (Suc j)) \<in> dep_rel read" using f(2) by auto
      moreover have "Suc j - i = Suc (j - i)" using False Suc.prems by simp
      ultimately show ?thesis by auto
    qed simp
  qed simp
  have "f ` {1..n} \<subseteq> dists"
  proof
    fix x assume "x \<in> f ` {1..n}"
    then obtain i where "x = f (Suc i)" "i < n" by (auto simp: image_iff) (metis Suc_le_D Suc_le_lessD One_nat_def)
    then show "x \<in> dists" using f(2) dep_rel_in_dists by blast
  qed
  then have "card (f ` {1..n}) < card {1..n}"
    using assms(2) card_mono [OF finite_dists] by (metis card_atLeastAtMost diff_Suc_1 order.strict_trans1)
  then have "\<not> inj_on f {1..n}" using card_image by fastforce
  then obtain i j where "i \<in> {1..n}" "j \<in> {1..n}" "i \<noteq> j" "f i = f j" by (auto simp: inj_on_def)
  then obtain i j where ij: "i < j" "j \<le> n" "f i = f j" by (metis atLeastAtMost_iff nat_neq_iff)
  have "(f i, f i) \<in> (dep_rel read)\<^sup>+"
    using reach [of i j] ij unfolding trancl_power by (metis less_imp_le zero_less_diff)
  moreover have "(p, f i) \<in> (dep_rel read)\<^sup>*"
    using reach [of 0 i] ij f(1) by (metis less_imp_le order.trans relpow_imp_rtrancl zero_le)
  ultimately show ?thesis by blast
qed

lemma recursion_outcome:
  assumes "\<And>q. (p, q) \<in> (dep_rel read)\<^sup>* \<Longrightarrow> ok (read q)" and "card dists < limit"
  shows "if \<exists>x. (p, x) \<in> (dep_rel read)\<^sup>* \<and> (x, x) \<in> (dep_rel read)\<^sup>+
    then recursive_requirements limit read p = Inl RecursionError
    else ok (recursive_requirements limit read p)"
proof (cases "recursive_requirements limit read p")
  case (Inl e)
  from recursive_requirements_error [OF assms(1) Inl] obtain q where
    "e = RecursionError" "(p, q) \<in> dep_rel read ^^ limit" by blast
  with Inl long_path_repeats [OF _ assms(2)] show ?thesis by auto
next
  case (Inr r)
  have "\<not> ((p, x) \<in> (dep_rel read)\<^sup>* \<and> (x, x) \<in> (dep_rel read)\<^sup>+)" for x
  proof
    assume "(p, x) \<in> (dep_rel read)\<^sup>* \<and> (x, x) \<in> (dep_rel read)\<^sup>+"
    then obtain a b where a: "(p, x) \<in> dep_rel read ^^ a" and b: "(x, x) \<in> dep_rel read ^^ b" "0 < b"
      by (meson rtrancl_imp_relpow trancl_power)
    have "(x, x) \<in> dep_rel read ^^ (m * b)" for m
      by (induction m) (use b in \<open>auto simp: relpow_add\<close>)
    then have "(p, x) \<in> dep_rel read ^^ (a + limit * b)" using a by (auto simp: relpow_add)
    then have "a + limit * b < limit" using recursive_requirements_depth [OF Inr] by blast
    then show False using b(2) by (metis add_lessD1 less_not_refl mult.right_neutral mult_le_mono2 add.commute le_trans not_le Suc_leI One_nat_def)
  qed
  with Inr show ?thesis by auto
qed

end

lemma read_dependencies_in_repo:
  assumes "read_dependencies pk rp d = Inr r"
  shows "set (typeshed_pkgs r) \<subseteq> set (repo_dists rp)"
proof -
  obtain mapping m where mapping: "get_pypi_name_to_typeshed_name_mapping pk rp = Inr mapping"
    and "read_metadata pk rp d = Inr m"
    and r: "fold_res (add_dependency pk mapping) (requires m) \<lparr>typeshed_pkgs = [], external_pkgs = []\<rparr> = Inr r"
    using assms by (auto simp: read_dependencies_def bind_res_eq_Inr)
  then have "typeshed_pkgs r = List.map_filter (\<lambda>d. map_of mapping (the (req_name pk d))) (requires m)"
    by (simp add: add_dependencies)
  then show ?thesis
    using mapping_values [OF mapping] by (fastforce simp: List.map_filter_def)
qed

interpretation rd: dependency_reader "read_dependencies pk rp" "set (repo_dists rp)"
  by unfold_locales (simp_all add: read_dependencies_in_repo)

text \<open>C21: When \<^verbatim>\<open>get_recursive_requirements\<close> returns, it returns the transitive closure: the typeshed packages are
  exactly those reachable from the package by one or more dependencies, all of them distributions of
  the repository, the external ones are those that the package or a reachable package requires, and
  both lists are sorted without duplicates.\<close>

theorem get_recursive_requirements_closure:
  assumes "get_recursive_requirements limit pk rp p = Inr r"
  shows "set (typeshed_pkgs r) = {q. (p, q) \<in> (dep_rel (read_dependencies pk rp))\<^sup>+} \<and>
    set (typeshed_pkgs r) \<subseteq> set (repo_dists rp) \<and>
    set (external_pkgs r) = (\<Union>q \<in> {q. (p, q) \<in> (dep_rel (read_dependencies pk rp))\<^sup>*}. external_of (read_dependencies pk rp) q) \<and>
    sorted (typeshed_pkgs r) \<and> distinct (typeshed_pkgs r) \<and> sorted (external_pkgs r) \<and> distinct (external_pkgs r)"
  using recursive_requirements_closure [OF assms [unfolded get_recursive_requirements_def]]
    rd.closure_in_dists [OF assms [unfolded get_recursive_requirements_def]]
  by (simp only: simp_thms)

text \<open>C22: If the metadata of the package and of everything it depends on is readable and the recursion limit exceeds
  the number of distributions, \<^verbatim>\<open>get_recursive_requirements\<close> returns exactly when no dependency cycle is
  reachable from the package; with a cycle it ends in a \<^verbatim>\<open>RecursionError\<close>.\<close>

theorem get_recursive_requirements_outcome:
  assumes "\<And>q. (p, q) \<in> (dep_rel (read_dependencies pk rp))\<^sup>* \<Longrightarrow> ok (read_dependencies pk rp q)"
    and "length (repo_dists rp) < limit"
  shows "if \<exists>x. (p, x) \<in> (dep_rel (read_dependencies pk rp))\<^sup>* \<and> (x, x) \<in> (dep_rel (read_dependencies pk rp))\<^sup>+
    then get_recursive_requirements limit pk rp p = Inl RecursionError
    else ok (get_recursive_requirements limit pk rp p)"
  unfolding get_recursive_requirements_def
  by (rule rd.recursion_outcome) (use assms card_length [of "repo_dists rp"] in auto)

subsection \<open>Witnesses\<close>

definition ex_repo :: repo where
  "ex_repo = \<lparr>repo_dists = [''caldav'', ''requests'', ''urllib3''],
     repo_meta = (\<lambda>d.
       if d = ''caldav'' then Inr [(''version'', TStr ''0.11.*''),
         (''requires'', TList [TStr ''types-requests'', TStr ''lxml''])]
       else if d = ''requests'' then Inr [(''version'', TStr ''2.31.*''), (''requires'', TList [TStr ''types-urllib3'']),
         (''tool'', TTable [(''stubtest'', TTable [(''platforms'', TList [TStr ''darwin'', TStr ''win32'']),
            (''brew_dependencies'', TList [TStr ''openssl''])])])]
       else if d = ''urllib3'' then Inr [(''version'', TStr ''1.26''), (''requires'', TList [TStr ''cryptography''])]
       else Inl FileNotFoundError)\<rparr>"

lemma ex_repo_reads:
  "read_dependencies simple_packaging ex_repo ''caldav'' =
     Inr \<lparr>typeshed_pkgs = [''requests''], external_pkgs = [''lxml'']\<rparr>"
  "get_recursive_requirements 4 simple_packaging ex_repo ''caldav'' =
     Inr \<lparr>typeshed_pkgs = [''requests'', ''urllib3''], external_pkgs = [''cryptography'', ''lxml'']\<rparr>"
  "list_all (\<lambda>d. ok (read_dependencies simple_packaging ex_repo d)) (repo_dists ex_repo)"
  by code_simp+

definition ex_settings :: StubtestSettings where
  "ex_settings = \<lparr>skipped = False, apt_dependencies = [], brew_dependencies = [''openssl''], choco_dependencies = [],
     extras = [], ignore_missing_stub = False, platforms = [''darwin'', ''win32''], stubtest_requirements = []\<rparr>"

lemma ex_repo_settings: "read_stubtest_settings ex_repo ''requests'' = Inr ex_settings"
  by code_simp

theorem system_requirements_elsewhere_witness:
  "system_requirements_for_platform ex_settings ''linux'' = Inr []"
proof -
  have "''linux'' \<notin> set (platforms ex_settings)" by (simp add: ex_settings_def)
  from system_requirements_elsewhere [OF ex_repo_settings this] show ?thesis by simp
qed

theorem read_dependencies_split_witness:
  "\<exists>m owner. read_metadata simple_packaging ex_repo ''caldav'' = Inr m \<and>
    [''requests''] = List.map_filter (\<lambda>d. owner (the (req_name simple_packaging d))) (requires m) \<and>
    [''lxml''] = map (req_str simple_packaging) (filter (\<lambda>d. owner (the (req_name simple_packaging d)) = None) (requires m))"
  using read_dependencies_split [OF ex_repo_reads(1)] unfolding PackageDependencies.select_convs
  by (elim exE conjE) (intro exI conjI; assumption)

theorem get_recursive_requirements_closure_witness:
  "{''requests'', ''urllib3''} = {q. (''caldav'', q) \<in> (dep_rel (read_dependencies simple_packaging ex_repo))\<^sup>+}"
  using get_recursive_requirements_closure [OF ex_repo_reads(2)] by simp

lemma reads_ok_reachable:
  assumes "list_all (\<lambda>d. ok (read_dependencies pk rp d)) (repo_dists rp)" "p \<in> set (repo_dists rp)"
    and "(p, q) \<in> (dep_rel (read_dependencies pk rp))\<^sup>*"
  shows "ok (read_dependencies pk rp q)"
proof -
  have "q \<in> set (repo_dists rp)" using assms(3,2) by (induction) (auto intro: rd.dep_rel_in_dists)
  then show ?thesis using assms(1) by (simp add: list_all_iff)
qed

theorem get_recursive_requirements_outcome_witness:
  "if \<exists>x. (''caldav'', x) \<in> (dep_rel (read_dependencies simple_packaging ex_repo))\<^sup>* \<and>
      (x, x) \<in> (dep_rel (read_dependencies simple_packaging ex_repo))\<^sup>+
    then get_recursive_requirements 4 simple_packaging ex_repo ''caldav'' = Inl RecursionError
    else ok (get_recursive_requirements 4 simple_packaging ex_repo ''caldav'')"
proof (rule get_recursive_requirements_outcome)
  show "ok (read_dependencies simple_packaging ex_repo q)"
    if "(''caldav'', q) \<in> (dep_rel (read_dependencies simple_packaging ex_repo))\<^sup>*" for q
    by (rule reads_ok_reachable [OF ex_repo_reads(3) _ that]) (simp add: ex_repo_def)
qed (simp add: ex_repo_def)

end
