(* ===== verification/Check_Consistent.thy ===== *)
theory Check_Consistent
  imports Parse_Metadata Stubsabot_Diff
begin

section \<open>Consistency of the repository's files\<close>

text \<open>
  \<^verbatim>\<open>src/tests/check_consistent.py\<close>. The working directory is a tree \<open>t\<close> and the patterns of
  \<^verbatim>\<open>.gitignore\<close> are the predicate \<open>spec\<close>. The work list of \<^verbatim>\<open>assert_consistent_filetypes\<close> holds each
  path together with the node it names. The parsed \<^verbatim>\<open>.pre-commit-config.yaml\<close> is a list of records.
\<close>

subsection \<open>Kinds of files\<close>

fun is_dir_node :: "fs \<Rightarrow> bool" where
  "is_dir_node (Dir es) = True"
| "is_dir_node (File l c) = False"

definition matches_node :: "(string \<Rightarrow> bool) \<Rightarrow> path \<Rightarrow> fs \<Rightarrow> bool" where
  "matches_node spec p node = spec (as_posix p @ (if is_dir_node node then ''/'' else []))"

definition children :: "path \<Rightarrow> fs \<Rightarrow> (path \<times> fs) list" where
  "children p node = (case node of Dir es \<Rightarrow> map (\<lambda>(n, c). (p @ [n], c)) es | File _ _ \<Rightarrow> [])"

fun fs_nodes :: "fs \<Rightarrow> nat" where
  "fs_nodes (File l c) = 1"
| "fs_nodes (Dir es) = Suc (sum_list (map (\<lambda>(n, c). fs_nodes c) es))"

lemma sum_children: "sum_list (map (\<lambda>(p, c). fs_nodes c) (children q node)) < fs_nodes node"
  by (cases node) (auto simp: children_def comp_def split_def)

record rules =
  rule_dir :: path
  rule_kind :: string
  rule_allowed :: "path set"
  rule_nonidentifiers :: bool

function check_contents :: "(string \<Rightarrow> bool) \<Rightarrow> rules \<Rightarrow> (path \<times> fs) list \<Rightarrow> unit res" where
  "check_contents spec ru work =
     (if work = [] then Inr ()
      else let entry = fst (last work); node = snd (last work); rest = butlast work in
        if matches_node spec entry node then check_contents spec ru rest
        else if drop (length (rule_dir ru)) entry \<in> rule_allowed ru then check_contents spec ru rest
        else if \<not> is_dir_node node
        then if \<not> rule_nonidentifiers ru \<and> \<not> is_identifier (path_stem entry) then Inl AssertionError
          else if path_suffix entry = rule_kind ru then check_contents spec ru rest
          else Inl AssertionError
        else if is_identifier (path_name entry) then check_contents spec ru (rest @ children entry node)
        else Inl AssertionError)"
  by auto
termination
proof (relation "measure (\<lambda>(spec, ru, work). sum_list (map (\<lambda>(p, c). fs_nodes c) work))", goal_cases)
  have pos: "0 < fs_nodes c" for c by (cases c) auto
  have drop_last: "sum_list (map (\<lambda>(p, c). fs_nodes c) xs) =
      sum_list (map (\<lambda>(p, c). fs_nodes c) (butlast xs)) + fs_nodes (snd (last xs))" if "xs \<noteq> []" for xs :: "(path \<times> fs) list"
    using that by (cases xs rule: rev_cases) (auto simp: split_def)
  {
    case (2 spec ru work entry node xs)
    then show ?case using drop_last [of work] pos by simp
  next
    case (3 spec ru work entry node xs)
    then show ?case using drop_last [of work] pos by simp
  next
    case (4 spec ru work entry node xs)
    then show ?case using drop_last [of work] pos by simp
  next
    case (5 spec ru work entry node xs)
    then show ?case using drop_last [of work] sum_children [of entry node] by simp
  }
qed auto

declare check_contents.simps [simp del]

definition assert_consistent_filetypes ::
  "(string \<Rightarrow> bool) \<Rightarrow> fs \<Rightarrow> path \<Rightarrow> string \<Rightarrow> string list \<Rightarrow> bool \<Rightarrow> unit res" where
  "assert_consistent_filetypes spec t directory kind allowed allow_nonidentifier_filenames =
     (case fs_lookup t directory of
        None \<Rightarrow> Inl FileNotFoundError
      | Some node \<Rightarrow>
          if is_dir_node node
          then check_contents spec \<lparr>rule_dir = directory, rule_kind = kind, rule_allowed = path_of ` set allowed,
                 rule_nonidentifiers = allow_nonidentifier_filenames\<rparr> (children directory node)
          else Inl OSError)"

definition check_stdlib :: "(string \<Rightarrow> bool) \<Rightarrow> fs \<Rightarrow> unit res" where
  "check_stdlib spec t =
     assert_consistent_filetypes spec t [''stdlib''] ''.pyi'' [''_typeshed/README.md'', ''VERSIONS''] False"

text \<open>The pattern \<^verbatim>\<open>^([A-Z0-9]|[A-Z0-9][A-Z0-9._-]*[A-Z0-9])$\<close>, ignoring case, under \<^verbatim>\<open>fullmatch\<close>.\<close>

definition dist_dir_re :: regex where
  "dist_dir_re =
     Group 1 (Alt (Chars is_alnum) (Seq (Chars is_alnum) (Seq (Many is_name_char) (Chars is_alnum))))"

definition check_stub_dir :: "(string \<Rightarrow> bool) \<Rightarrow> fs \<Rightarrow> string \<Rightarrow> unit res" where
  "check_stub_dir spec t name =
     (let dist = [''stubs'', name] in
      if spec_matches_path spec t dist then Inr ()
      else
        bind_res (assert_res (fs_is_dir t dist)) (\<lambda>_.
        bind_res (assert_res (re_fullmatch dist_dir_re name \<noteq> None)) (\<lambda>_.
        bind_res (assert_res (\<not> starts_with name ''types-'')) (\<lambda>_.
        bind_res (assert_consistent_filetypes spec t dist ''.pyi''
          [''METADATA.toml'', ''README'', ''README.md'', ''README.rst'', ''@tests''] False) (\<lambda>_.
        let tests_dir = dist @ [''@tests''] in
        if fs_is_dir t tests_dir
        then bind_res (listdir t tests_dir) (\<lambda>files.
               assert_res (\<not> (\<exists>f \<in> set files. name_suffix f = ''.py'')))
        else Inr ())))))"

definition check_stubs :: "(string \<Rightarrow> bool) \<Rightarrow> fs \<Rightarrow> unit res" where
  "check_stubs spec t =
     bind_res (listdir t [''stubs'']) (\<lambda>names.
     bind_res (map_res (check_stub_dir spec t) names) (\<lambda>_. Inr ()))"

fun file_text :: "fs option \<Rightarrow> string res" where
  "file_text (Some (File l s)) = Inr (unify_newlines s)"
| "file_text (Some (Dir es)) = Inl OSError"
| "file_text None = Inl FileNotFoundError"

definition check_test_case_file :: "fs \<Rightarrow> path \<Rightarrow> unit res" where
  "check_test_case_file t file =
     bind_res (assert_res (starts_with (path_stem file) ''check_'')) (\<lambda>_.
     bind_res (file_text (fs_lookup t file)) (\<lambda>text.
       assert_res (''from __future__ import annotations'' \<in> set (map strip (readlines text)))))"

definition check_test_cases :: "(string \<Rightarrow> bool) \<Rightarrow> fs \<Rightarrow> unit res" where
  "check_test_cases spec t =
     bind_res (get_all_testcase_directories t) (\<lambda>dirs.
     bind_res (map_res (\<lambda>p.
         bind_res (assert_consistent_filetypes spec t (test_case_directory p) ''.py'' [''README.md''] True) (\<lambda>_.
         bind_res (map_res (check_test_case_file t) (rglob_ext t (test_case_directory p) ''.py'')) (\<lambda>_. Inr ()))) dirs)
       (\<lambda>_. Inr ()))"

text \<open>\<^verbatim>\<open>os.path.splitext\<close>: the last dot counts if some character before it is not a dot.\<close>

definition splitext :: "string \<Rightarrow> string \<times> string" where
  "splitext s =
     (let ext = takeWhile (\<lambda>c. c \<noteq> CHR ''.'') (rev s); pre = rev (drop (Suc (length ext)) (rev s)) in
      if CHR ''.'' \<in> set s \<and> \<not> list_all (\<lambda>c. c = CHR ''.'') pre
      then (pre, CHR ''.'' # rev ext) else (s, []))"

definition is_link_at :: "fs \<Rightarrow> path \<Rightarrow> bool" where
  "is_link_at t p = (case fs_lookup t p of Some (File l _) \<Rightarrow> l | _ \<Rightarrow> False)"

definition check_no_symlinks :: "fs \<Rightarrow> unit res" where
  "check_no_symlinks t =
     (let files = concat (map (\<lambda>(root, fs). map (\<lambda>f. root @ [f]) fs) (walk [] t)) in
      bind_res (map_res (\<lambda>file.
          if snd (splitext (path_name file)) = ''.pyi'' \<and> is_link_at t file then Inl ValueError else Inr ()) files)
        (\<lambda>_. Inr ()))"

subsection \<open>stdlib/VERSIONS\<close>

definition add_version_line :: "string \<Rightarrow> string list \<Rightarrow> string list res" where
  "add_version_line line0 versions =
     (let line = strip_comments line0 in
      if line = [] then Inr versions
      else case re_match VERSIONS_RE line of
        None \<Rightarrow> Inl AssertionError
      | Some (_, cs) \<Rightarrow>
          let module = dict_get cs 1 [] in
          bind_res (assert_res (module \<notin> set versions)) (\<lambda>_. Inr (versions @ [module])))"

definition module_of_file :: "path \<Rightarrow> string \<Rightarrow> string option" where
  "module_of_file path fname =
     (let base_module = join_with ''.'' (drop 1 path) in
      if fname = ''__init__.pyi'' then Some base_module
      else if ends_with fname ''.pyi''
      then let m = fst (splitext fname) in Some (if base_module \<noteq> [] then base_module @ ''.'' @ m else m)
      else None)"

definition find_stdlib_modules :: "fs \<Rightarrow> string list" where
  "find_stdlib_modules t =
     (case fs_lookup t [''stdlib''] of
        None \<Rightarrow> []
      | Some d \<Rightarrow> concat (map (\<lambda>(path, files). List.map_filter (module_of_file path) files) (walk [''stdlib''] d)))"

definition check_versions_against :: "string list \<Rightarrow> string list \<Rightarrow> unit res" where
  "check_versions_against versions modules =
     bind_res (assert_res (\<forall>m \<in> set modules. hd (split_on CHR ''.'' m) \<in> set versions)) (\<lambda>_.
       assert_res (set versions \<subseteq> set modules))"

definition check_versions :: "fs \<Rightarrow> unit res" where
  "check_versions t =
     bind_res (file_text (fs_lookup t [''stdlib'', ''VERSIONS''])) (\<lambda>text.
     bind_res (fold_res add_version_line (str_splitlines text) []) (\<lambda>versions.
       check_versions_against versions (find_stdlib_modules t)))"

subsection \<open>Metadata and requirements\<close>

definition check_metadata :: "'v packaging \<Rightarrow> repo \<Rightarrow> unit res" where
  "check_metadata pk rp = bind_res (map_res (read_metadata pk rp) (repo_dists rp)) (\<lambda>_. Inr ())"

definition get_txt_requirements :: "'v packaging \<Rightarrow> string \<Rightarrow> (string, string) dict res" where
  "get_txt_requirements pk text =
     bind_res (map_res (\<lambda>line. bind_res (Requirement pk line) (\<lambda>n. Inr (n, req_spec pk line)))
       (filter (\<lambda>l. l \<noteq> []) (map strip_comments (readlines text)))) (\<lambda>ps.
       Inr (fold (\<lambda>p. AList.update (fst p) (snd p)) ps []))"

record precommit_repo =
  python_requirement :: bool
  hook_dependencies :: "string list list"
  repo_url :: string
  repo_rev :: string

definition precommit_entry :: "'v packaging \<Rightarrow> precommit_repo \<Rightarrow> (string \<times> string) list res" where
  "precommit_entry pk r =
     (if \<not> python_requirement r then Inr []
      else case hook_dependencies r of
        [] \<Rightarrow> Inl IndexError
      | hook # _ \<Rightarrow>
          let package_name = path_name (path_of (url_path (urlsplit (repo_url r))));
              package_rev = remove_prefix (repo_rev r) ''v''
          in bind_res (SpecifierSet pk (''=='' @ package_rev)) (\<lambda>_.
             bind_res (map_res (\<lambda>a. bind_res (Requirement pk a) (\<lambda>n. Inr (n, req_spec pk a))) hook) (\<lambda>adds.
               Inr ((package_name, spec_key pk (''=='' @ package_rev)) # adds))))"

definition get_precommit_requirements :: "'v packaging \<Rightarrow> precommit_repo list \<Rightarrow> (string, string) dict res" where
  "get_precommit_requirements pk repos =
     bind_res (map_res (precommit_entry pk) repos) (\<lambda>es.
       Inr (fold (\<lambda>p. AList.update (fst p) (snd p)) (concat es) []))"

definition check_requirements :: "'v packaging \<Rightarrow> string \<Rightarrow> precommit_repo list \<Rightarrow> unit res" where
  "check_requirements pk text repos =
     bind_res (get_txt_requirements pk text) (\<lambda>txt.
     bind_res (get_precommit_requirements pk repos) (\<lambda>pre.
     bind_res (map_res (\<lambda>(requirement, spec).
         case map_of txt requirement of
           None \<Rightarrow> Inl AssertionError
         | Some s \<Rightarrow> assert_res (spec = s)) pre) (\<lambda>_. Inr ())))"

definition check_consistent :: "'v packaging \<Rightarrow> (string \<Rightarrow> bool) \<Rightarrow> fs \<Rightarrow> repo \<Rightarrow> precommit_repo list \<Rightarrow> unit res" where
  "check_consistent pk spec t rp repos =
     bind_res (check_stdlib spec t) (\<lambda>_.
     bind_res (check_versions t) (\<lambda>_.
     bind_res (check_stubs spec t) (\<lambda>_.
     bind_res (check_metadata pk rp) (\<lambda>_.
     bind_res (check_no_symlinks t) (\<lambda>_.
     bind_res (check_test_cases spec t) (\<lambda>_.
     bind_res (file_text (fs_lookup t [''requirements-tests.txt''])) (\<lambda>text.
       check_requirements pk text repos)))))))"

section \<open>Properties\<close>

subsection \<open>The walk over a directory\<close>

definition skipped_entry :: "(string \<Rightarrow> bool) \<Rightarrow> rules \<Rightarrow> path \<Rightarrow> fs \<Rightarrow> bool" where
  "skipped_entry spec ru p node \<longleftrightarrow> matches_node spec p node \<or> drop (length (rule_dir ru)) p \<in> rule_allowed ru"

definition good_entry :: "rules \<Rightarrow> path \<Rightarrow> fs \<Rightarrow> bool" where
  "good_entry ru p node \<longleftrightarrow>
     (if is_dir_node node then is_identifier (path_name p)
      else (rule_nonidentifiers ru \<or> is_identifier (path_stem p)) \<and> path_suffix p = rule_kind ru)"

fun acceptable :: "(string \<Rightarrow> bool) \<Rightarrow> rules \<Rightarrow> path \<Rightarrow> fs \<Rightarrow> bool" where
  "acceptable spec ru p (File l s) \<longleftrightarrow> skipped_entry spec ru p (File l s) \<or> good_entry ru p (File l s)"
| "acceptable spec ru p (Dir es) \<longleftrightarrow> skipped_entry spec ru p (Dir es) \<or>
     good_entry ru p (Dir es) \<and> list_all (\<lambda>(n, c). acceptable spec ru (p @ [n]) c) es"

lemma acceptable_iff:
  "acceptable spec ru p node \<longleftrightarrow> skipped_entry spec ru p node \<or>
     good_entry ru p node \<and> list_all (\<lambda>(q, c). acceptable spec ru q c) (children p node)"
  by (cases node) (auto simp: children_def list_all_iff)

lemma check_contents_Nil [simp]: "check_contents spec ru [] = Inr ()"
  by (simp add: check_contents.simps)

lemma check_contents_snoc:
  "check_contents spec ru (rest @ [(p, node)]) =
     (if skipped_entry spec ru p node then check_contents spec ru rest
      else if good_entry ru p node then check_contents spec ru (rest @ children p node)
      else Inl AssertionError)"
proof (cases node)
  case (File l s)
  then show ?thesis
    by (subst check_contents.simps) (simp add: skipped_entry_def good_entry_def children_def Let_def)
next
  case (Dir es)
  then show ?thesis
    by (subst check_contents.simps) (simp add: skipped_entry_def good_entry_def Let_def)
qed

lemma check_contents_acceptable:
  "check_contents spec ru work =
     (if list_all (\<lambda>(p, c). acceptable spec ru p c) work then Inr () else Inl AssertionError)"
proof (induction "sum_list (map (\<lambda>(p, c). fs_nodes c) work)" arbitrary: work rule: less_induct)
  case less
  show ?case
  proof (cases work rule: rev_cases)
    case Nil
    then show ?thesis by simp
  next
    case (snoc rest x)
    obtain p node where x: "x = (p, node)" by (cases x)
    have "0 < fs_nodes node" by (cases node) auto
    then have "check_contents spec ru rest =
        (if list_all (\<lambda>(p, c). acceptable spec ru p c) rest then Inr () else Inl AssertionError)"
      using less [of rest] by (simp add: snoc x)
    moreover have "check_contents spec ru (rest @ children p node) =
        (if list_all (\<lambda>(p, c). acceptable spec ru p c) (rest @ children p node) then Inr () else Inl AssertionError)"
      using less [of "rest @ children p node"] sum_children [of p node] by (simp add: snoc x)
    ultimately show ?thesis
      by (simp add: snoc x check_contents_snoc acceptable_iff [of spec ru p node])
  qed
qed

lemma lookup_Dir_all:
  "(\<forall>q m. fs_lookup (Dir es) q = Some m \<longrightarrow> P q m) \<longleftrightarrow>
     P [] (Dir es) \<and> (\<forall>n c q m. map_of es n = Some c \<longrightarrow> fs_lookup c q = Some m \<longrightarrow> P (n # q) m)"
proof (intro iffI conjI allI impI)
  fix q m
  assume "P [] (Dir es) \<and> (\<forall>n c q m. map_of es n = Some c \<longrightarrow> fs_lookup c q = Some m \<longrightarrow> P (n # q) m)"
    and "fs_lookup (Dir es) q = Some m"
  then show "P q m" by (cases q) (auto split: option.splits)
qed auto

text \<open>No ancestor of a path, itself included, is skipped.\<close>

definition reached :: "(string \<Rightarrow> bool) \<Rightarrow> rules \<Rightarrow> path \<Rightarrow> fs \<Rightarrow> path \<Rightarrow> bool" where
  "reached spec ru p node q \<longleftrightarrow>
     (\<forall>r k. prefix r q \<longrightarrow> fs_lookup node r = Some k \<longrightarrow> \<not> skipped_entry spec ru (p @ r) k)"

lemma reached_Nil [simp]: "reached spec ru p node [] \<longleftrightarrow> \<not> skipped_entry spec ru p node"
  by (simp add: reached_def)

lemma reached_Cons:
  "map_of es n = Some c \<Longrightarrow> reached spec ru p (Dir es) (n # q) \<longleftrightarrow>
     \<not> skipped_entry spec ru p (Dir es) \<and> reached spec ru (p @ [n]) c q"
  by (auto simp: reached_def prefix_Cons)

lemma acceptable_lookup:
  "fs_wf node \<Longrightarrow> acceptable spec ru p node \<longleftrightarrow>
     (\<forall>q m. fs_lookup node q = Some m \<longrightarrow> reached spec ru p node q \<longrightarrow> good_entry ru (p @ q) m)"
proof (induction node arbitrary: p)
  case (File l s)
  have "fs_lookup (File l s) q = Some m \<longleftrightarrow> q = [] \<and> m = File l s" for q m
    by (cases q) auto
  then show ?case by auto
next
  case (Dir es)
  have IH: "acceptable spec ru (p @ [n]) c \<longleftrightarrow>
     (\<forall>q m. fs_lookup c q = Some m \<longrightarrow> reached spec ru (p @ [n]) c q \<longrightarrow> good_entry ru (p @ n # q) m)"
    if "map_of es n = Some c" for n c
    using Dir.IH [of "(n, c)" c "p @ [n]"] map_of_SomeD [OF that] Dir.prems by (auto simp: list_all_iff)
  have "list_all (\<lambda>(n, c). acceptable spec ru (p @ [n]) c) es \<longleftrightarrow>
     (\<forall>n c. map_of es n = Some c \<longrightarrow> acceptable spec ru (p @ [n]) c)"
    using Dir.prems by (auto simp: list_all_iff map_of_eq_Some_iff)
  then show ?case
    unfolding lookup_Dir_all acceptable.simps using IH by (auto simp: reached_Cons)
qed

lemma filetypes_result:
  assumes "fs_lookup t directory = Some d" "is_dir_node d" "fs_wf t"
    and "ru = \<lparr>rule_dir = directory, rule_kind = kind, rule_allowed = path_of ` set allowed, rule_nonidentifiers = b\<rparr>"
  shows "assert_consistent_filetypes spec t directory kind allowed b =
    (if \<forall>n c q m. fs_lookup d [n] = Some c \<longrightarrow> fs_lookup c q = Some m \<longrightarrow>
          reached spec ru (directory @ [n]) c q \<longrightarrow> good_entry ru (directory @ n # q) m
     then Inr () else Inl AssertionError)"
proof -
  obtain es where d: "d = Dir es" using assms(2) by (cases d) auto
  have wf: "fs_wf (Dir es)" using fs_lookup_wf [OF assms(3, 1)] d by simp
  have "list_all (\<lambda>(p, c). acceptable spec ru p c) (children directory d) \<longleftrightarrow>
      (\<forall>n c. map_of es n = Some c \<longrightarrow> acceptable spec ru (directory @ [n]) c)"
    using wf by (auto simp: d children_def list_all_iff map_of_eq_Some_iff)
  also have "\<dots> \<longleftrightarrow> (\<forall>n c q m. map_of es n = Some c \<longrightarrow> fs_lookup c q = Some m \<longrightarrow>
        reached spec ru (directory @ [n]) c q \<longrightarrow> good_entry ru (directory @ n # q) m)"
    using wf acceptable_lookup [of _ spec ru "directory @ [_]"]
    by (fastforce simp: list_all_iff dest!: map_of_SomeD)
  also have "\<dots> \<longleftrightarrow> (\<forall>n c q m. fs_lookup d [n] = Some c \<longrightarrow> fs_lookup c q = Some m \<longrightarrow>
        reached spec ru (directory @ [n]) c q \<longrightarrow> good_entry ru (directory @ n # q) m)"
    by (simp add: d split: option.splits)
  finally show ?thesis
    using assms(1, 2) by (simp add: assert_consistent_filetypes_def check_contents_acceptable flip: assms(4))
qed


definition ex_tree :: fs where
  "ex_tree = Dir [(''stdlib'', Dir [(''VERSIONS'', File False (''_typeshed: 3.0-  # types'' @ nl @ ''os: 2.7-3.9'' @ nl)),
     (''_typeshed'', Dir [(''README.md'', File False []), (''__init__.pyi'', File False [])]),
     (''__pycache__'', Dir [(''x.pyc'', File False [])]),
     (''os'', Dir [(''__init__.pyi'', File False []), (''path.pyi'', File False [])])]), (''stubs'', Dir [])]"

definition ex_stdlib :: fs where
  "ex_stdlib = the (fs_lookup ex_tree [''stdlib''])"

definition ex_ignored :: "string \<Rightarrow> bool" where
  "ex_ignored s \<longleftrightarrow> s = ''stdlib/__pycache__/''"

definition ex_stdlib_rules :: rules where
  "ex_stdlib_rules = \<lparr>rule_dir = [''stdlib''], rule_kind = ''.pyi'',
     rule_allowed = path_of ` set [''_typeshed/README.md'', ''VERSIONS''], rule_nonidentifiers = False\<rparr>"


subsection \<open>stdlib/VERSIONS against the modules\<close>

lemma find_stdlib_modules_iff:
  assumes "fs_wf t" "fs_lookup t [''stdlib''] = Some d"
  shows "m \<in> set (find_stdlib_modules t) \<longleftrightarrow>
    (\<exists>q f. fs_is_file t (''stdlib'' # q @ [f]) \<and> module_of_file (''stdlib'' # q) f = Some m)"
proof -
  have wf: "fs_wf d" using fs_lookup_wf [OF assms] .
  have sub: "fs_is_file t (''stdlib'' # r) \<longleftrightarrow> fs_is_file d r" for r
    using fs_lookup_append [of t "[''stdlib'']" r] assms(2) by (simp add: fs_is_file_def)
  have "m \<in> set (find_stdlib_modules t) \<longleftrightarrow>
      (\<exists>q f fs. (q, fs) \<in> set (walk [''stdlib''] d) \<and> f \<in> set fs \<and> module_of_file q f = Some m)"
    using assms(2) by (force simp: find_stdlib_modules_def map_filter_def)
  also have "\<dots> \<longleftrightarrow> (\<exists>q f. (\<exists>fs. (q, fs) \<in> set (walk [''stdlib''] d) \<and> f \<in> set fs) \<and> module_of_file q f = Some m)"
    by blast
  also have "\<dots> \<longleftrightarrow> (\<exists>r f. fs_is_file d (r @ [f]) \<and> module_of_file (''stdlib'' # r) f = Some m)"
    unfolding walk_iff [OF wf] by auto
  finally show ?thesis unfolding sub .
qed

lemma add_version_line_eq:
  "add_version_line l vs = Inr vs' \<longleftrightarrow>
     (if strip_comments l = [] then vs' = vs
      else \<exists>m. version_entry (strip_comments l) m \<and> m \<notin> set vs \<and> vs' = vs @ [m])"
proof (cases "re_match VERSIONS_RE (strip_comments l)")
  case None
  then show ?thesis
    using VERSIONS_RE_line(2) [OF refl, of l] by (auto simp: add_version_line_def)
next
  case (Some p)
  then obtain x cs where p: "re_match VERSIONS_RE (strip_comments l) = Some (x, cs)" by (cases p) auto
  have "version_entry (strip_comments l) m \<longleftrightarrow> m = dict_get cs 1 []" for m
    using VERSIONS_RE_line(1) [OF refl p] .
  then show ?thesis by (auto simp: add_version_line_def Let_def py_res p)
qed

lemma add_version_line_error: "add_version_line l vs = Inl e \<Longrightarrow> e = AssertionError"
  by (auto simp: add_version_line_def Let_def assert_res_def split: option.splits if_splits)

lemma fold_add_version_line:
  "fold_res add_version_line ls vs = Inr vs' \<longleftrightarrow>
     (\<exists>ms. vs' = vs @ ms \<and> list_all2 version_entry (filter (\<lambda>l. l \<noteq> []) (map strip_comments ls)) ms \<and>
        distinct ms \<and> set ms \<inter> set vs = {})"
proof (induction ls arbitrary: vs)
  case (Cons l ls)
  show ?case
  proof (cases "strip_comments l = []")
    case True
    then have "add_version_line l vs = Inr vs" by (simp add: add_version_line_eq)
    with True Cons show ?thesis by simp
  next
    case False
    have "fold_res add_version_line (l # ls) vs = Inr vs' \<longleftrightarrow>
        (\<exists>m. version_entry (strip_comments l) m \<and> m \<notin> set vs \<and> fold_res add_version_line ls (vs @ [m]) = Inr vs')"
      using False by (auto simp: py_res add_version_line_eq)
    with False show ?thesis
      unfolding Cons by (auto simp: list_all2_Cons1)
  qed
qed auto

lemma fold_add_version_line_error: "fold_res add_version_line ls vs = Inl e \<Longrightarrow> e = AssertionError"
  by (induction ls arbitrary: vs) (auto simp: py_res dest: add_version_line_error)

lemma versions_result:
  assumes "fs_lookup t [''stdlib'', ''VERSIONS''] = Some (File l s)" "fs_wf t"
    and "mods = {m. \<exists>q f. fs_is_file t (''stdlib'' # q @ [f]) \<and> module_of_file (''stdlib'' # q) f = Some m}"
  shows "check_versions t =
    (if \<exists>names. list_all2 version_entry
           (filter (\<lambda>l. l \<noteq> []) (map strip_comments (str_splitlines (unify_newlines s)))) names \<and>
         distinct names \<and> (\<forall>m \<in> mods. hd (split_on CHR ''.'' m) \<in> set names) \<and> set names \<subseteq> mods
     then Inr () else Inl AssertionError)"
proof -
  obtain d where d: "fs_lookup t [''stdlib''] = Some d"
    using assms(1) fs_lookup_append [of t "[''stdlib'']" "[''VERSIONS'']"] by (auto split: option.splits)
  have mods: "set (find_stdlib_modules t) = mods"
    unfolding assms(3) using find_stdlib_modules_iff [OF assms(2) d] by blast
  let ?ls = "str_splitlines (unify_newlines s)"
  have run: "check_versions t = bind_res (fold_res add_version_line ?ls []) (\<lambda>versions.
       check_versions_against versions (find_stdlib_modules t))"
    by (simp add: check_versions_def assms(1) del: fs_lookup.simps)
  show ?thesis
  proof (cases "fold_res add_version_line ?ls []")
    case (Inl e)
    then have "fold_res add_version_line ?ls [] \<noteq> Inr names" for names by simp
    then show ?thesis
      using Inl fold_add_version_line_error [OF Inl] fold_add_version_line [of ?ls "[]"] by (auto simp: run)
  next
    case (Inr names)
    then have fold: "fold_res add_version_line ?ls [] = Inr ns \<longleftrightarrow> ns = names" for ns by auto
    have "(\<exists>ns. list_all2 version_entry (filter (\<lambda>l. l \<noteq> []) (map strip_comments ?ls)) ns \<and> distinct ns \<and> P ns) \<longleftrightarrow> P names"
      for P using fold fold_add_version_line [of ?ls "[]"] by (metis append_Nil empty_set inf_bot_right)
    then show ?thesis
      unfolding run Inr by (simp add: check_versions_against_def mods assert_res_def)
  qed
qed

text \<open>C27: \<^verbatim>\<open>check_versions\<close> passes exactly when every line of \<^verbatim>\<open>stdlib/VERSIONS\<close> that is not a comment has the form
  \<^verbatim>\<open>module: X.Y-\<close> or \<^verbatim>\<open>module: X.Y-X.Y\<close>, no module is listed twice, the top-level package of every stub file
  under \<^verbatim>\<open>stdlib\<close> is listed, and every listed module is that of some stub file; otherwise it raises
  \<^verbatim>\<open>AssertionError\<close>.\<close>

theorem check_versions_spec:
  assumes "fs_lookup t [''stdlib'', ''VERSIONS''] = Some (File l s)" "fs_wf t"
    and "mods = {m. \<exists>q f. fs_is_file t (''stdlib'' # q @ [f]) \<and> module_of_file (''stdlib'' # q) f = Some m}"
  shows "check_versions t =
    (if \<exists>names. list_all2 version_entry
           (filter (\<lambda>l. l \<noteq> []) (map strip_comments (str_splitlines (unify_newlines s)))) names \<and>
         distinct names \<and> (\<forall>m \<in> mods. hd (split_on CHR ''.'' m) \<in> set names) \<and> set names \<subseteq> mods
     then Inr () else Inl AssertionError)"
  using assms by (rule versions_result)

theorem check_versions_spec_witness:
  "check_versions ex_tree = Inr () \<and>
   (\<exists>names. list_all2 version_entry [''_typeshed: 3.0-'', ''os: 2.7-3.9''] names \<and> ''os'' \<in> set names)"
proof -
  have run: "check_versions ex_tree = Inr ()" by code_simp
  let ?s = "''_typeshed: 3.0-  # types'' @ nl @ ''os: 2.7-3.9'' @ nl"
  have f: "fs_lookup ex_tree [''stdlib'', ''VERSIONS''] = Some (File False ?s)" by code_simp
  have wf: "fs_wf ex_tree" by code_simp
  have ls: "filter (\<lambda>l. l \<noteq> []) (map strip_comments (str_splitlines (unify_newlines ?s))) = [''_typeshed: 3.0-'', ''os: 2.7-3.9'']"
    by code_simp
  have os: "fs_is_file ex_tree (''stdlib'' # [''os''] @ [''__init__.pyi''])"
      "module_of_file (''stdlib'' # [''os'']) ''__init__.pyi'' = Some ''os''" "hd (split_on CHR ''.'' ''os'') = ''os''"
    by code_simp+
  let ?mods = "{m. \<exists>q f. fs_is_file ex_tree (''stdlib'' # q @ [f]) \<and> module_of_file (''stdlib'' # q) f = Some m}"
  have mem: "''os'' \<in> ?mods" using os(1, 2) by blast
  obtain names where names: "list_all2 version_entry [''_typeshed: 3.0-'', ''os: 2.7-3.9''] names"
      and listed: "\<forall>m \<in> ?mods. hd (split_on CHR ''.'' m) \<in> set names"
    using if_Inr_D [OF check_versions_spec [OF f wf refl, unfolded ls] run] by (elim exE conjE)
  have "''os'' \<in> set names" using bspec [OF listed mem] unfolding os(3) .
  with run names show ?thesis by (intro conjI exI)
qed


subsection \<open>Symbolic links\<close>

lemma walked_files:
  assumes "fs_wf t"
  shows "p \<in> set (concat (map (\<lambda>(root, fs). map (\<lambda>f. root @ [f]) fs) (walk [] t))) \<longleftrightarrow>
    p \<noteq> [] \<and> fs_is_file t p"
proof -
  have "p \<in> set (concat (map (\<lambda>(root, fs). map (\<lambda>f. root @ [f]) fs) (walk [] t))) \<longleftrightarrow>
      (\<exists>q f. p = q @ [f] \<and> (\<exists>fs. (q, fs) \<in> set (walk [] t) \<and> f \<in> set fs))"
    by auto
  also have "\<dots> \<longleftrightarrow> p \<noteq> [] \<and> fs_is_file t p"
    unfolding walk_iff [OF assms] by (cases p rule: rev_cases) auto
  finally show ?thesis .
qed

text \<open>\<^verbatim>\<open>check_no_symlinks\<close> raises exactly when the tree contains, at any depth, a symbolic link whose name has the
  extension \<^verbatim>\<open>.pyi\<close>.\<close>

theorem check_no_symlinks_spec:
  assumes "fs_wf t"
  shows "check_no_symlinks t =
    (if \<exists>q s. q \<noteq> [] \<and> fs_lookup t q = Some (File True s) \<and> snd (splitext (path_name q)) = ''.pyi''
     then Inl ValueError else Inr ())"
proof -
  have "fs_is_file t q \<and> is_link_at t q \<longleftrightarrow> (\<exists>s. fs_lookup t q = Some (File True s))" for q
    by (auto simp: is_link_at_def fs_is_file_def split: option.splits fs.splits)
  then have "(\<exists>q. (q \<noteq> [] \<and> fs_is_file t q) \<and> E q \<and> is_link_at t q) \<longleftrightarrow>
      (\<exists>q s. q \<noteq> [] \<and> fs_lookup t q = Some (File True s) \<and> E q)" for E
    by blast
  then show ?thesis
    unfolding check_no_symlinks_def Let_def map_res_guard Bex_def walked_files [OF assms] by simp
qed

theorem check_no_symlinks_spec_witness:
  "check_no_symlinks ex_tree = Inr () \<and>
   \<not> (\<exists>q s. q \<noteq> [] \<and> fs_lookup ex_tree q = Some (File True s) \<and> snd (splitext (path_name q)) = ''.pyi'') \<and>
   check_no_symlinks (Dir [(''a'', Dir [(''b.pyi'', File True [])])]) = Inl ValueError"
proof -
  have run: "check_no_symlinks ex_tree = Inr ()" by code_simp
  have "fs_wf ex_tree" by code_simp
  from check_no_symlinks_spec [OF this] run
  have "\<not> (\<exists>q s. q \<noteq> [] \<and> fs_lookup ex_tree q = Some (File True s) \<and> snd (splitext (path_name q)) = ''.pyi'')"
    by (simp only: sum.distinct if_splits) argo
  moreover have "check_no_symlinks (Dir [(''a'', Dir [(''b.pyi'', File True [])])]) = Inl ValueError" by code_simp
  ultimately show ?thesis using run by (intro conjI)
qed

subsection \<open>The directories under stubs\<close>

lemma dist_dir_re_iff: "re_fullmatch dist_dir_re s \<noteq> None \<longleftrightarrow> valid_dist_name s"
proof -
  have "plain dist_dir_re" by (simp add: dist_dir_re_def)
  then have "re_fullmatch dist_dir_re s \<noteq> None \<longleftrightarrow> lang dist_dir_re s" by (rule re_fullmatch_iff_lang)
  also have "\<dots> \<longleftrightarrow> lang DIST_NAME_RE s"
    by (simp only: dist_dir_re_def DIST_NAME_RE_def lang_shape lang_Opt lang.simps(2,4,7)) blast
  also have "\<dots> \<longleftrightarrow> valid_dist_name s"
    using DIST_NAME_RE_iff re_fullmatch_iff_lang [of DIST_NAME_RE s] by (simp add: DIST_NAME_RE_def)
  finally show ?thesis .
qed

lemma tests_dir_clean:
  "(if fs_is_dir t p then bind_res (listdir t p) (\<lambda>files. assert_res (\<not> (\<exists>f \<in> set files. P f))) else Inr ()) = Inr () \<longleftrightarrow>
     (\<forall>es f. fs_lookup t p = Some (Dir es) \<longrightarrow> f \<in> fst ` set es \<longrightarrow> \<not> P f)"
  by (auto simp: fs_is_dir_def listdir_def assert_res_def split: option.splits fs.splits)

definition proper_stub_dir :: "(string \<Rightarrow> bool) \<Rightarrow> fs \<Rightarrow> string \<Rightarrow> bool" where
  "proper_stub_dir spec t name \<longleftrightarrow>
     fs_is_dir t [''stubs'', name] \<and> valid_dist_name name \<and> \<not> prefix ''types-'' name \<and>
     assert_consistent_filetypes spec t [''stubs'', name] ''.pyi''
       [''METADATA.toml'', ''README'', ''README.md'', ''README.rst'', ''@tests''] False = Inr () \<and>
     (\<forall>es f. fs_lookup t [''stubs'', name, ''@tests''] = Some (Dir es) \<longrightarrow> f \<in> fst ` set es \<longrightarrow> name_suffix f \<noteq> ''.py'')"

lemma check_stub_dir_ok:
  "check_stub_dir spec t name = Inr () \<longleftrightarrow> spec_matches_path spec t [''stubs'', name] \<or> proper_stub_dir spec t name"
  unfolding check_stub_dir_def Let_def dist_dir_re_iff starts_with_prefix proper_stub_dir_def append.simps
  by (simp only: bind_unit_ok assert_res_eq tests_dir_clean split: if_split) simp


definition ex_stubs :: fs where
  "ex_stubs = Dir [(''stubs'', Dir [(''six'', Dir [(''METADATA.toml'', File False []), (''six.pyi'', File False []),
     (''@tests'', Dir [(''test_cases'', Dir [])])])])]"


end
