(* ===== verification/Mypy_Test.thy ===== *)
theory Mypy_Test
  imports Check_Consistent
begin

section \<open>Running mypy on the stubs\<close>

text \<open>
  \<^verbatim>\<open>src/tests/mypy_test.py\<close>, from the parsed arguments on. What a run takes from its surroundings is the
  record \<open>mypy_ctx\<close>: the answers of commands, the working tree with its metadata, the pattern set of
  \<^verbatim>\<open>.gitignore\<close>, the interpreter, the names of the temporary configuration file and of the root directory, the hash of a set of
  requirements, the order in which a set of strings is iterated and that in which the tasks of the process
  pool complete; nothing is assumed of them. Tasks of the two pools do not interleave in the trace. A command run
  with \<^verbatim>\<open>MYPYPATH\<close> set has the assignment as its first word. The module-level dictionary
  \<^verbatim>\<open>_DISTRIBUTION_TO_VENV_MAPPING\<close> is an argument and a result of the functions that use it. The messages
  printed for \<^verbatim>\<open>--verbose\<close> only are left out, the command it adds is not.
\<close>

record 'v mypy_ctx =
  ctx_env :: env
  ctx_pk :: "'v packaging"
  ctx_repo :: repo
  ctx_tree :: fs
  ctx_ignored :: "string \<Rightarrow> bool"
  ctx_python :: string
  ctx_win32 :: bool
  ctx_temp :: path
  ctx_root :: path
  ctx_limit :: nat
  ctx_hash :: "string list \<Rightarrow> string"
  ctx_set_order :: "string list \<Rightarrow> string list"
  ctx_completed :: "string list list \<Rightarrow> string list list"

definition SUPPORTED_VERSIONS :: "string list" where
  "SUPPORTED_VERSIONS = [''3.11'', ''3.10'', ''3.9'', ''3.8'', ''3.7'']"

definition DIRECTORIES_TO_TEST :: "path list" where
  "DIRECTORIES_TO_TEST = [[''stdlib''], [''stubs'']]"

record CommandLineArgs =
  arg_verbose :: nat
  arg_filter :: "path list"
  arg_exclude :: "path list"
  arg_python_version :: "string list"
  arg_platform :: "string list"

definition valid_path :: "fs \<Rightarrow> string \<Rightarrow> path res" where
  "valid_path t cmd_arg =
     (let p = path_of cmd_arg in
      if \<not> fs_exists t p then Inl ArgumentTypeError
      else if \<not> (p \<in> set DIRECTORIES_TO_TEST \<or> (\<exists>d \<in> set DIRECTORIES_TO_TEST. in_parents d p)) then Inl ArgumentTypeError
      else Inr p)"

record TestConfig =
  conf_verbose :: nat
  conf_filter :: "path list"
  conf_exclude :: "path list"
  conf_version :: string
  conf_platform :: string

subsection \<open>Which files\<close>

fun match_included :: "path list \<Rightarrow> path \<Rightarrow> bool" where
  "match_included [] p = False"
| "match_included (i # is) p = (if p = i then True else if in_parents i p then True else match_included is p)"

fun match_from :: "path list \<Rightarrow> path list \<Rightarrow> path \<Rightarrow> bool" where
  "match_from [] is p = match_included is p"
| "match_from (x # xs) is p = (if p = x then False else if in_parents x p then False else match_from xs is p)"

definition match_path :: "path \<Rightarrow> TestConfig \<Rightarrow> bool" where
  "match_path p conf = match_from (conf_exclude conf) (conf_filter conf) p"

text \<open>\<^verbatim>\<open>^([23])\.(\d+)$\<close>.\<close>

definition VERSION_RE :: regex where
  "VERSION_RE =
     Seq (Group 1 (Chars (\<lambda>c. c \<in> set ''23''))) (Seq (lit ''.'') (Seq (Group 2 (Plus is_digit)) EndAnchor))"

definition parse_version_tuple :: "string \<Rightarrow> nat list res" where
  "parse_version_tuple v_str =
     (case re_match VERSION_RE v_str of
        None \<Rightarrow> Inl AssertionError
      | Some (_, cs) \<Rightarrow> Inr [int_of_digits (dict_get cs 1 []), int_of_digits (dict_get cs 2 [])])"

type_synonym version_ranges = "(string, nat list \<times> nat list) dict"

definition parse_version_line :: "string \<Rightarrow> version_ranges \<Rightarrow> version_ranges res" where
  "parse_version_line line0 result =
     (let line = strip_comments line0 in
      if line = [] then Inr result
      else case re_match VERSIONS_RE line of
        None \<Rightarrow> Inl AssertionError
      | Some (_, cs) \<Rightarrow>
          bind_res (parse_version_tuple (dict_get cs 2 [])) (\<lambda>min_version.
          bind_res (if dict_get cs 3 [] \<noteq> [] then parse_version_tuple (dict_get cs 3 []) else Inr [99, 99]) (\<lambda>max_version.
            Inr (AList.update (dict_get cs 1 []) (min_version, max_version) result))))"

definition parse_versions :: "string \<Rightarrow> version_ranges res" where
  "parse_versions text = fold_res parse_version_line (readlines text) []"

definition files_of_module :: "fs \<Rightarrow> path \<Rightarrow> TestConfig \<Rightarrow> path list" where
  "files_of_module t module conf =
     (if fs_is_file t module \<and> path_suffix module = ''.pyi''
      then (if match_path module conf then [module] else [])
      else sort (filter (\<lambda>p. match_path p conf) (rglob_ext t module ''.pyi'')))"

definition add_files :: "fs \<Rightarrow> path list \<Rightarrow> path \<Rightarrow> TestConfig \<Rightarrow> path list" where
  "add_files t files module conf = files @ files_of_module t module conf"

subsection \<open>Configuration sections of a distribution\<close>

record MypyDistConf =
  conf_module_name :: string
  conf_values :: toml_table

definition add_section :: "toml \<Rightarrow> MypyDistConf list \<Rightarrow> MypyDistConf list res" where
  "add_section mypy_section confs =
     bind_res (assert_res (is_TTable mypy_section)) (\<lambda>_.
     case map_of (the_table mypy_section) ''module_name'' of
       None \<Rightarrow> Inl AssertionError
     | Some name \<Rightarrow>
         bind_res (assert_res (is_TStr name)) (\<lambda>_.
         case map_of (the_table mypy_section) ''values'' of
           None \<Rightarrow> Inl AssertionError
         | Some vals \<Rightarrow>
             bind_res (assert_res (is_TTable vals)) (\<lambda>_.
               Inr (confs @ [\<lparr>conf_module_name = the_str name, conf_values = the_table vals\<rparr>]))))"

definition add_configuration :: "repo \<Rightarrow> MypyDistConf list \<Rightarrow> string \<Rightarrow> MypyDistConf list res" where
  "add_configuration rp confs dist =
     bind_res (repo_meta rp dist) (\<lambda>data.
       let mypy_tests_conf = dict_get data ''mypy-tests'' (TTable []) in
       if \<not> truthy mypy_tests_conf then Inr confs
       else bind_res (assert_res (is_TTable mypy_tests_conf)) (\<lambda>_.
         fold_res (\<lambda>(section_name, mypy_section). add_section mypy_section) (the_table mypy_tests_conf) confs))"

text \<open>\<^verbatim>\<open>repr\<close> and \<^verbatim>\<open>str\<close> of a loaded value; \<open>TOther\<close> carries its printed form.\<close>

fun toml_repr :: "toml \<Rightarrow> string" where
  "toml_repr (TStr s) = repr_str s"
| "toml_repr (TBool b) = (if b then ''True'' else ''False'')"
| "toml_repr (TInt n) = show_int n"
| "toml_repr (TList xs) = ''['' @ join_with '', '' (map toml_repr xs) @ '']''"
| "toml_repr (TTable t) = ''{'' @ join_with '', '' (map (\<lambda>(k, v). repr_str k @ '': '' @ toml_repr v) t) @ ''}''"
| "toml_repr (TOther s) = s"

fun toml_str :: "toml \<Rightarrow> string" where
  "toml_str (TStr s) = s"
| "toml_str v = toml_repr v"

definition config_text :: "MypyDistConf list \<Rightarrow> string" where
  "config_text confs =
     ''[mypy]'' @ nl @
     concat (map (\<lambda>c. ''[mypy-'' @ conf_module_name c @ '']'' @ nl @
       concat (map (\<lambda>(k, v). k @ '' = '' @ toml_str v @ nl) (conf_values c))) confs)"

subsection \<open>Running mypy\<close>

definition mypy_flags :: "'v mypy_ctx \<Rightarrow> TestConfig \<Rightarrow> bool \<Rightarrow> bool \<Rightarrow> string list" where
  "mypy_flags ctx conf testing_stdlib non_types_dependencies =
     [''--python-version'', conf_version conf, ''--show-traceback'', ''--warn-incomplete-stub'', ''--no-error-summary'',
      ''--platform'', conf_platform conf, ''--custom-typeshed-dir'', as_posix (ctx_root ctx), ''--strict'',
      ''--allow-untyped-defs'', ''--allow-incomplete-defs'', ''--allow-subclassing-any'',
      ''--enable-error-code'', ''ignore-without-code'', ''--config-file'', as_posix (ctx_temp ctx)] @
     (if \<not> testing_stdlib then [''--explicit-package-bases''] else []) @
     (if \<not> non_types_dependencies then [''--no-site-packages''] else [])"

definition mypy_command :: "'v mypy_ctx \<Rightarrow> TestConfig \<Rightarrow> path list \<Rightarrow> bool \<Rightarrow> bool \<Rightarrow> VenvInfo \<Rightarrow> string option \<Rightarrow> string list" where
  "mypy_command ctx conf files testing_stdlib non_types_dependencies venv_info mypypath =
     (case mypypath of None \<Rightarrow> [] | Some p \<Rightarrow> [''MYPYPATH='' @ p]) @
     [python_exe venv_info, ''-m'', ''mypy''] @ mypy_flags ctx conf testing_stdlib non_types_dependencies @ map as_posix files"

definition run_mypy ::
  "'v mypy_ctx \<Rightarrow> TestConfig \<Rightarrow> MypyDistConf list \<Rightarrow> path list \<Rightarrow> bool \<Rightarrow> bool \<Rightarrow> VenvInfo \<Rightarrow> string option \<Rightarrow> int io" where
  "run_mypy ctx conf configurations files testing_stdlib non_types_dependencies venv_info mypypath =
     seq (emit (WriteFile (ctx_temp ctx) (config_text configurations)))
     (bind_io (run (ctx_env ctx) (mypy_command ctx conf files testing_stdlib non_types_dependencies venv_info mypypath)) (\<lambda>result.
      seq
        (if returncode result \<noteq> 0
         then seq (print_error (''failure'' @ nl) ([], []))
             (seq (if stdout result \<noteq> [] then print_error (stdout result) ([], []) else ret ())
             (seq (if stderr result \<noteq> [] then print_error (stderr result) ([], []) else ret ())
             (if non_types_dependencies \<and> conf_verbose conf \<noteq> 0
              then bind_io (run (ctx_env ctx) [pip_exe venv_info, ''freeze'', ''--all'']) (\<lambda>_. ret ())
              else ret ())))
         else print_success_msg)
        (ret (returncode result))))"

subsection \<open>Third-party distributions\<close>

record dist_files =
  df_files :: "path list"
  df_confs :: "MypyDistConf list"
  df_seen :: "string list"

text \<open>The set \<^verbatim>\<open>seen_dists\<close> is a list without duplicates.\<close>

definition add_entry :: "'v mypy_ctx \<Rightarrow> TestConfig \<Rightarrow> string \<Rightarrow> string \<Rightarrow> dist_files \<Rightarrow> dist_files res" where
  "add_entry ctx conf dist name df =
     (if starts_with name ''.'' then Inr df
      else
        let files = add_files (ctx_tree ctx) (df_files df) [''stubs'', dist, name] conf in
        bind_res (add_configuration (ctx_repo ctx) (df_confs df) dist) (\<lambda>confs.
          Inr (df\<lparr>df_files := files, df_confs := confs\<rparr>)))"

definition add_third_party_files :: "'v mypy_ctx \<Rightarrow> TestConfig \<Rightarrow> string \<Rightarrow> dist_files \<Rightarrow> dist_files res" where
  "add_third_party_files ctx conf dist df =
     (if dist \<in> set (df_seen df) then Inr df
      else
        bind_res (get_recursive_requirements (ctx_limit ctx) (ctx_pk ctx) (ctx_repo ctx) dist) (\<lambda>reqs.
        bind_res (listdir (ctx_tree ctx) [''stubs'', dist]) (\<lambda>names.
          fold_res (add_entry ctx conf dist) names
            (df\<lparr>df_seen := sorted_set (df_seen df @ dist # typeshed_pkgs reqs)\<rparr>))))"

record TestResults =
  exit_code :: int
  files_checked :: nat

definition dist_mypypath :: "'v mypy_ctx \<Rightarrow> string list \<Rightarrow> string" where
  "dist_mypypath ctx seen_dists =
     join_with (if ctx_win32 ctx then '';'' else '':'') (map (\<lambda>dist. as_posix [''stubs'', dist]) (ctx_set_order ctx seen_dists))"

definition test_third_party_distribution :: "'v mypy_ctx \<Rightarrow> string \<Rightarrow> TestConfig \<Rightarrow> VenvInfo \<Rightarrow> bool \<Rightarrow> TestResults io" where
  "test_third_party_distribution ctx dist conf venv_info non_types_dependencies =
     bind_io (lift (add_third_party_files ctx conf dist \<lparr>df_files = [], df_confs = [], df_seen = []\<rparr>)) (\<lambda>df.
     if df_files df = [] \<and> conf_filter conf \<noteq> [] then ret \<lparr>exit_code = 0, files_checked = 0\<rparr>
     else
       seq (emit (Print (''testing '' @ dist @ '' ('' @ show_nat (length (df_files df)) @ '' files)... '')))
       (if df_files df = []
        then seq (print_error ''no files found'' ([], [])) (raise (SystemExit 1))
        else
          bind_io (run_mypy ctx conf (df_confs df) (df_files df) False non_types_dependencies venv_info
            (Some (dist_mypypath ctx (df_seen df)))) (\<lambda>code.
          ret \<lparr>exit_code = code, files_checked = length (df_files df)\<rparr>)))"

subsection \<open>The standard library\<close>

definition int_of_str :: "string \<Rightarrow> nat res" where
  "int_of_str s = (if s \<noteq> [] \<and> list_all is_digit s then Inr (int_of_digits s) else Inl ValueError)"

definition version_tuple :: "string \<Rightarrow> nat list res" where
  "version_tuple v = map_res int_of_str (split_on CHR ''.'' v)"

definition add_stdlib_module :: "fs \<Rightarrow> TestConfig \<Rightarrow> version_ranges \<Rightarrow> string \<Rightarrow> path list \<Rightarrow> path list res" where
  "add_stdlib_module t conf supported_versions name files =
     (if name = ''VERSIONS'' \<or> starts_with name ''.'' then Inr files
      else
        bind_res (dict_item supported_versions (path_stem [name])) (\<lambda>(min_version, max_version).
        bind_res (version_tuple (conf_version conf)) (\<lambda>v.
          if min_version \<le> v \<and> v \<le> max_version then Inr (add_files t files [''stdlib'', name] conf) else Inr files)))"

definition stdlib_files :: "fs \<Rightarrow> TestConfig \<Rightarrow> path list res" where
  "stdlib_files t conf =
     bind_res (file_text (fs_lookup t [''stdlib'', ''VERSIONS''])) (\<lambda>text.
     bind_res (parse_versions text) (\<lambda>supported_versions.
     bind_res (listdir t [''stdlib'']) (\<lambda>names.
       fold_res (add_stdlib_module t conf supported_versions) names [])))"

definition test_stdlib :: "'v mypy_ctx \<Rightarrow> int \<Rightarrow> TestConfig \<Rightarrow> TestResults io" where
  "test_stdlib ctx code conf =
     bind_io (lift (stdlib_files (ctx_tree ctx) conf)) (\<lambda>files.
     if files = [] then ret \<lparr>exit_code = code, files_checked = length files\<rparr>
     else
       seq (emit (Print (''Testing stdlib ('' @ show_nat (length files) @ '' files)...'')))
       (bind_io (run_mypy ctx conf [] files True False \<lparr>pip_exe = [], python_exe = ctx_python ctx\<rparr> None) (\<lambda>this_code.
        ret \<lparr>exit_code = max code this_code, files_checked = length files\<rparr>)))"

subsection \<open>Virtual environments for external requirements\<close>

text \<open>A frozen set of requirements is the sorted list of its elements.\<close>

definition setup_venv_for_external_requirements_set :: "'v mypy_ctx \<Rightarrow> path \<Rightarrow> string list \<Rightarrow> (string list \<times> VenvInfo) io" where
  "setup_venv_for_external_requirements_set ctx tempdir requirements_set =
     bind_io (make_venv (ctx_env ctx) (ctx_win32 ctx) (tempdir @ [''.venv-'' @ ctx_hash ctx requirements_set]))
       (\<lambda>v. ret (requirements_set, v))"

definition install_requirements_for_venv :: "'v mypy_ctx \<Rightarrow> VenvInfo \<Rightarrow> string list \<Rightarrow> unit io" where
  "install_requirements_for_venv ctx venv_info external_requirements =
     bind_io (get_mypy_req (ctx_env ctx)) (\<lambda>req.
     bind_io (run (ctx_env ctx) ([pip_exe venv_info, ''install'', req] @ sort external_requirements @ [''--no-cache-dir''])) (\<lambda>p.
       if returncode p = 0 then ret ()
       else seq (emit (Print (stderr p))) (raise (CalledProcessError (returncode p)))))"

type_synonym venv_mapping = "(string, VenvInfo) dict"

definition no_external_dependencies_venv :: "'v mypy_ctx \<Rightarrow> VenvInfo" where
  "no_external_dependencies_venv ctx = \<lparr>pip_exe = [], python_exe = ctx_python ctx\<rparr>"

text \<open>Stage 1: the distributions without external requirements enter the mapping, the others are grouped.\<close>

definition group_distribution :: "'v mypy_ctx \<Rightarrow> string \<times> PackageDependencies \<Rightarrow>
    (string list, string list) dict \<times> venv_mapping \<Rightarrow> (string list, string list) dict \<times> venv_mapping" where
  "group_distribution ctx d acc =
     (let (groups, mapping) = acc; (name, requirements) = d in
      if external_pkgs requirements \<noteq> []
      then let external_requirements = sorted_set (external_pkgs requirements) in
        (AList.update external_requirements (dict_get groups external_requirements [] @ [name]) groups, mapping)
      else (groups, AList.update name (no_external_dependencies_venv ctx) mapping))"

text \<open>Stage 2: the tasks, in the order in which they complete; the first that fails ends the run.\<close>

fun make_venvs :: "'v mypy_ctx \<Rightarrow> path \<Rightarrow> string list list \<Rightarrow> (string list, VenvInfo) dict \<Rightarrow> (string list, VenvInfo) dict io" where
  "make_venvs ctx tempdir [] venvs = ret venvs"
| "make_venvs ctx tempdir (r # rs) venvs =
     bind_io (setup_venv_for_external_requirements_set ctx tempdir r)
       (\<lambda>(requirements_set, v). make_venvs ctx tempdir rs (AList.update requirements_set v venvs))"

text \<open>Stage 3: \<^verbatim>\<open>concurrent.futures.wait\<close> keeps the exception of a task in its future.\<close>

definition install_all :: "'v mypy_ctx \<Rightarrow> (string list, VenvInfo) dict \<Rightarrow> unit io" where
  "install_all ctx venvs =
     for_each (\<lambda>(requirements_set, v). try_except (install_requirements_for_venv ctx v requirements_set) (\<lambda>e. Some (ret ()))) venvs"

text \<open>Stage 4.\<close>

fun populate :: "(string list, VenvInfo) dict \<Rightarrow> (string list, string list) dict \<Rightarrow> venv_mapping \<Rightarrow> venv_mapping res" where
  "populate venvs [] mapping = Inr mapping"
| "populate venvs ((requirements_set, dists) # gs) mapping =
     (case map_of venvs requirements_set of
        None \<Rightarrow> Inl (KeyError [])
      | Some v \<Rightarrow> populate venvs gs (fold (\<lambda>d. AList.update d v) dists mapping))"

definition setup_virtual_environments ::
  "'v mypy_ctx \<Rightarrow> (string, PackageDependencies) dict \<Rightarrow> path \<Rightarrow> venv_mapping \<Rightarrow> venv_mapping io" where
  "setup_virtual_environments ctx dists tempdir mapping =
     (let (groups, mapping1) = fold (group_distribution ctx) dists ([], mapping) in
      if groups = [] then ret mapping1
      else
        bind_io (make_venvs ctx tempdir (ctx_completed ctx (dict_keys groups)) []) (\<lambda>venvs.
        seq (install_all ctx venvs)
        (lift (populate venvs groups mapping1))))"

subsection \<open>The whole run\<close>

definition to_check :: "'v mypy_ctx \<Rightarrow> TestConfig \<Rightarrow> string \<Rightarrow> bool" where
  "to_check ctx conf dist \<longleftrightarrow>
     \<not> spec_matches_path (ctx_ignored ctx) (ctx_tree ctx) [''stubs'', dist] \<and>
     ([''stubs'', dist] \<in> set (conf_filter conf) \<or> [''stubs''] \<in> set (conf_filter conf) \<or>
      (\<exists>p \<in> set (conf_filter conf). in_parents [''stubs'', dist] p))"

definition distributions_to_check :: "'v mypy_ctx \<Rightarrow> TestConfig \<Rightarrow> (string, PackageDependencies) dict res" where
  "distributions_to_check ctx conf =
     bind_res (listdir (ctx_tree ctx) [''stubs'']) (\<lambda>names.
       fold_res (\<lambda>dist ds.
           if to_check ctx conf dist
           then bind_res (get_recursive_requirements (ctx_limit ctx) (ctx_pk ctx) (ctx_repo ctx) dist)
             (\<lambda>reqs. Inr (AList.update dist reqs ds))
           else Inr ds) (sort names) [])"

fun test_distributions :: "'v mypy_ctx \<Rightarrow> TestConfig \<Rightarrow> venv_mapping \<Rightarrow> TestResults \<Rightarrow> TestResults io" where
  "test_distributions ctx conf [] acc = ret acc"
| "test_distributions ctx conf ((dist, venv_info) # ds) acc =
     bind_io (test_third_party_distribution ctx dist conf venv_info (python_exe venv_info \<noteq> ctx_python ctx)) (\<lambda>r.
       test_distributions ctx conf ds
         \<lparr>exit_code = max (exit_code acc) (exit_code r), files_checked = files_checked acc + files_checked r\<rparr>)"

definition test_third_party_stubs ::
  "'v mypy_ctx \<Rightarrow> int \<Rightarrow> TestConfig \<Rightarrow> path \<Rightarrow> venv_mapping \<Rightarrow> (TestResults \<times> venv_mapping) io" where
  "test_third_party_stubs ctx code conf tempdir mapping =
     seq (emit (Print ''Testing third-party packages...''))
     (bind_io (lift (distributions_to_check ctx conf)) (\<lambda>dists.
      bind_io (if mapping = [] then setup_virtual_environments ctx dists tempdir mapping else ret mapping) (\<lambda>mapping'.
      bind_io (lift (assert_res (set (dict_keys mapping') = set (dict_keys dists)))) (\<lambda>_.
      bind_io (test_distributions ctx conf mapping' \<lparr>exit_code = code, files_checked = 0\<rparr>) (\<lambda>r.
        ret (r, mapping'))))))"

definition concerns :: "path list \<Rightarrow> path \<Rightarrow> bool" where
  "concerns filt dir \<longleftrightarrow> dir \<in> set filt \<or> (\<exists>p \<in> set filt. in_parents dir p)"

definition test_typeshed ::
  "'v mypy_ctx \<Rightarrow> int \<Rightarrow> TestConfig \<Rightarrow> path \<Rightarrow> venv_mapping \<Rightarrow> (TestResults \<times> venv_mapping) io" where
  "test_typeshed ctx code conf tempdir mapping =
     seq (emit (Print (''*** Testing Python '' @ conf_version conf @ '' on '' @ conf_platform conf)))
     (bind_io (if concerns (conf_filter conf) [''stdlib'']
               then bind_io (test_stdlib ctx code conf) (\<lambda>r. seq (emit (Print [])) (ret r))
               else ret \<lparr>exit_code = code, files_checked = 0\<rparr>) (\<lambda>r1.
      if concerns (conf_filter conf) [''stubs'']
      then bind_io (test_third_party_stubs ctx (exit_code r1) conf tempdir mapping) (\<lambda>(r2, mapping').
             seq (emit (Print [])) (ret (\<lparr>exit_code = exit_code r2, files_checked = files_checked r1 + files_checked r2\<rparr>, mapping')))
      else ret (r1, mapping)))"

fun test_all :: "'v mypy_ctx \<Rightarrow> (string \<times> string \<Rightarrow> TestConfig) \<Rightarrow> path \<Rightarrow> (string \<times> string) list \<Rightarrow>
    TestResults \<Rightarrow> venv_mapping \<Rightarrow> TestResults io" where
  "test_all ctx config tempdir [] acc mapping = ret acc"
| "test_all ctx config tempdir (vp # vps) acc mapping =
     bind_io (test_typeshed ctx (exit_code acc) (config vp) tempdir mapping) (\<lambda>(r, mapping').
       test_all ctx config tempdir vps
         \<lparr>exit_code = exit_code r, files_checked = files_checked acc + files_checked r\<rparr> mapping')"

definition config_for :: "CommandLineArgs \<Rightarrow> string \<times> string \<Rightarrow> TestConfig" where
  "config_for args vp =
     \<lparr>conf_verbose = arg_verbose args, conf_filter = or_default (arg_filter args) DIRECTORIES_TO_TEST,
      conf_exclude = arg_exclude args, conf_version = fst vp, conf_platform = snd vp\<rparr>"

definition mypy_test_main :: "'v mypy_ctx \<Rightarrow> string \<Rightarrow> path \<Rightarrow> CommandLineArgs \<Rightarrow> unit io" where
  "mypy_test_main ctx sys_platform td args =
     (let versions = or_default (arg_python_version args) SUPPORTED_VERSIONS;
          platforms = or_default (arg_platform args) [sys_platform]
      in bind_io (test_all ctx (config_for args) td (py_product versions platforms) \<lparr>exit_code = 0, files_checked = 0\<rparr> []) (\<lambda>r.
         if exit_code r \<noteq> 0
         then seq (print_error (''--- exit status '' @ show_int (exit_code r) @ '', '' @ show_nat (files_checked r) @ '' files checked ---'') ([], []))
                (raise (SystemExit (exit_code r)))
         else if files_checked r = 0
         then seq (print_error ''--- nothing to do; exit 1 ---'' ([], [])) (raise (SystemExit 1))
         else emit (Print (''--- success, '' @ show_nat (files_checked r) @ '' files checked ---''))))"


section \<open>Properties\<close>

subsection \<open>The configuration sections\<close>

lemma get_recursive_requirements_reads:
  assumes "get_recursive_requirements limit pk rp dist = Inr r"
  shows "\<exists>m. read_metadata pk rp dist = Inr m"
  using assms by (cases limit) (auto simp: get_recursive_requirements_def read_dependencies_def py_res)

lemma read_metadata_known_fields:
  assumes "read_metadata pk rp dist = Inr m"
  shows "\<exists>data. repo_meta rp dist = Inr data \<and> set (dict_keys data) \<subseteq> KNOWN_METADATA_FIELDS"
  using assms by (auto simp: read_metadata_def py_res)

lemma add_configuration_unused:
  assumes "read_metadata pk rp dist = Inr m"
  shows "add_configuration rp confs dist = Inr confs"
proof -
  obtain data where data: "repo_meta rp dist = Inr data" "set (dict_keys data) \<subseteq> KNOWN_METADATA_FIELDS"
    using read_metadata_known_fields [OF assms] by blast
  have "''mypy-tests'' \<notin> KNOWN_METADATA_FIELDS" by (simp add: KNOWN_METADATA_FIELDS_def)
  then have "map_of data ''mypy-tests'' = None" using data(2) by (auto simp: map_of_eq_None_iff)
  then show ?thesis by (simp add: add_configuration_def data(1) dict_get_def)
qed



subsection \<open>Virtual environments\<close>

definition needs_venv :: "string \<times> PackageDependencies \<Rightarrow> bool" where
  "needs_venv d \<longleftrightarrow> external_pkgs (snd d) \<noteq> []"

definition requirements_key :: "string \<times> PackageDependencies \<Rightarrow> string list" where
  "requirements_key d = sorted_set (external_pkgs (snd d))"

lemma group_distribution_simps:
  "needs_venv d \<Longrightarrow> group_distribution ctx d (gs, m) =
     (AList.update (requirements_key d) (dict_get gs (requirements_key d) [] @ [fst d]) gs, m)"
  "\<not> needs_venv d \<Longrightarrow> group_distribution ctx d (gs, m) = (gs, AList.update (fst d) (no_external_dependencies_venv ctx) m)"
  by (auto simp: group_distribution_def needs_venv_def requirements_key_def Let_def split_def)

lemma group_fold:
  "fold (group_distribution ctx) ds (gs, m) = (gs', m') \<Longrightarrow>
     (\<forall>R n. n \<in> set (dict_get gs' R []) \<longleftrightarrow>
        n \<in> set (dict_get gs R []) \<or> (\<exists>d \<in> set ds. needs_venv d \<and> requirements_key d = R \<and> fst d = n)) \<and>
     set (dict_keys gs') = set (dict_keys gs) \<union> requirements_key ` {d \<in> set ds. needs_venv d} \<and>
     (dict_wf gs \<longrightarrow> dict_wf gs') \<and>
     m' = fold (\<lambda>d. AList.update (fst d) (no_external_dependencies_venv ctx)) (filter (\<lambda>d. \<not> needs_venv d) ds) m"
proof (induction ds arbitrary: gs m)
  case (Cons d ds)
  show ?case
  proof (cases "needs_venv d")
    case True
    let ?g = "AList.update (requirements_key d) (dict_get gs (requirements_key d) [] @ [fst d]) gs"
    have "fold (group_distribution ctx) ds (?g, m) = (gs', m')"
      using Cons.prems True by (simp add: group_distribution_simps)
    from Cons.IH [OF this] True show ?thesis
      by (auto simp: dict_get_update dom_update distinct_update split: if_splits)
  next
    case False
    then have "fold (group_distribution ctx) ds (gs, AList.update (fst d) (no_external_dependencies_venv ctx) m) = (gs', m')"
      using Cons.prems by (simp add: group_distribution_simps)
    from Cons.IH [OF this] False show ?thesis by auto
  qed
qed auto

definition venv_for :: "'v mypy_ctx \<Rightarrow> path \<Rightarrow> string list \<Rightarrow> VenvInfo" where
  "venv_for ctx tempdir R = of_existing_venv (ctx_win32 ctx) (tempdir @ [''.venv-'' @ ctx_hash ctx R])"

lemma setup_venv_result:
  "setup_venv_for_external_requirements_set ctx tempdir R tr = (Inr x, tr') \<Longrightarrow> x = (R, venv_for ctx tempdir R)"
  unfolding setup_venv_for_external_requirements_set_def make_venv_def venv_for_def
  by (auto simp: io_simps split: if_splits prod.splits sum.splits)

lemma make_venvs_result:
  "make_venvs ctx tempdir rs vs tr = (Inr vs', tr') \<Longrightarrow>
     map_of vs' R = (if R \<in> set rs then Some (venv_for ctx tempdir R) else map_of vs R)"
proof (induction rs arbitrary: vs tr)
  case (Cons r rs)
  then obtain x tr1 where "setup_venv_for_external_requirements_set ctx tempdir r tr = (Inr x, tr1)"
    and rest: "(case x of (rset, v) \<Rightarrow> make_venvs ctx tempdir rs (AList.update rset v vs)) tr1 = (Inr vs', tr')"
    by (auto simp: io_simps split: prod.splits sum.splits)
  then have "x = (r, venv_for ctx tempdir r)" by (simp add: setup_venv_result)
  with Cons.IH [of "AList.update r (venv_for ctx tempdir r) vs" tr1] rest show ?case
    by (auto simp: update_conv')
qed (simp add: io_simps)

lemma populate_result:
  assumes "\<And>R ds. (R, ds) \<in> set gs \<Longrightarrow> map_of vs R \<noteq> None \<and> (\<forall>d \<in> set ds. map_of vs R = Some (f d))"
  shows "\<exists>m'. populate vs gs m = Inr m' \<and>
    (\<forall>d. map_of m' d = (if \<exists>R ds. (R, ds) \<in> set gs \<and> d \<in> set ds then Some (f d) else map_of m d))"
  using assms
proof (induction gs arbitrary: m)
  case (Cons g gs)
  obtain R ds where g: "g = (R, ds)" by (cases g)
  obtain v where v: "map_of vs R = Some v" "\<forall>d \<in> set ds. v = f d" using Cons.prems [of R ds] g by auto
  obtain m' where m': "populate vs gs (fold (\<lambda>d. AList.update d v) ds m) = Inr m'"
    "\<forall>d. map_of m' d = (if \<exists>R ds. (R, ds) \<in> set gs \<and> d \<in> set ds then Some (f d) else map_of (fold (\<lambda>d. AList.update d v) ds m) d)"
  proof -
    have "map_of vs R \<noteq> None \<and> (\<forall>d \<in> set ds. map_of vs R = Some (f d))" if "(R, ds) \<in> set gs" for R ds
      using Cons.prems [of R ds] that by simp
    from Cons.IH [OF this] that show ?thesis by blast
  qed
  have "map_of m' d = (if \<exists>R' ds'. (R', ds') \<in> set (g # gs) \<and> d \<in> set ds' then Some (f d) else map_of m d)" for d
    using m'(2) v(2) map_of_fold_update [of "\<lambda>x. x" v ds m d] by (auto simp: g)
  with m'(1) v(1) show ?case by (simp add: g)
qed simp

text \<open>What \<^verbatim>\<open>concurrent.futures.as_completed\<close> documents: every future is yielded.\<close>

definition all_complete :: "'v mypy_ctx \<Rightarrow> bool" where
  "all_complete ctx \<longleftrightarrow> (\<forall>rs. set (ctx_completed ctx rs) = set rs)"

definition assigned_venv :: "'v mypy_ctx \<Rightarrow> path \<Rightarrow> PackageDependencies \<Rightarrow> VenvInfo" where
  "assigned_venv ctx tempdir reqs =
     (if external_pkgs reqs = [] then no_external_dependencies_venv ctx
      else venv_for ctx tempdir (sorted_set (external_pkgs reqs)))"

lemma group_members:
  assumes "fold (group_distribution ctx) dists ([], []) = (gs, m)"
  shows "set (dict_keys gs) = requirements_key ` {d \<in> set dists. needs_venv d}"
    and "(\<exists>ds. (R, ds) \<in> set gs \<and> n \<in> set ds) \<longleftrightarrow> (\<exists>d \<in> set dists. needs_venv d \<and> requirements_key d = R \<and> fst d = n)"
proof -
  note grouped = group_fold [OF assms]
  show "set (dict_keys gs) = requirements_key ` {d \<in> set dists. needs_venv d}" using grouped by simp
  have "n \<in> set (dict_get gs R []) \<longleftrightarrow> (\<exists>d \<in> set dists. needs_venv d \<and> requirements_key d = R \<and> fst d = n)"
    using grouped by (simp add: dict_get_Nil)
  moreover have "n \<in> set (dict_get gs R []) \<longleftrightarrow> (\<exists>ds. (R, ds) \<in> set gs \<and> n \<in> set ds)"
    using grouped by (auto simp: dict_get_def split: option.splits)
  ultimately show "(\<exists>ds. (R, ds) \<in> set gs \<and> n \<in> set ds) \<longleftrightarrow>
      (\<exists>d \<in> set dists. needs_venv d \<and> requirements_key d = R \<and> fst d = n)" by simp
qed

lemma dict_wf_only:
  assumes "dict_wf m" "map_of m k = Some v"
  shows "x \<in> set m \<and> fst x = k \<longleftrightarrow> x = (k, v)"
  using map_of_is_SomeI [OF assms(1), of "fst x" "snd x"] map_of_SomeD [OF assms(2)] assms(2) by (cases x) auto

lemma group_mapping:
  assumes "fold (group_distribution ctx) dists ([], []) = (gs, m)" "dict_wf dists"
  shows "map_of m d = (case map_of dists d of None \<Rightarrow> None
    | Some r \<Rightarrow> if needs_venv (d, r) then None else Some (no_external_dependencies_venv ctx))"
proof -
  have m: "map_of m d = (if \<exists>x. (x \<in> set dists \<and> fst x = d) \<and> \<not> needs_venv x then Some (no_external_dependencies_venv ctx) else None)"
    using group_fold [OF assms(1)] by (force simp: map_of_fold_update image_iff)
  show ?thesis
  proof (cases "map_of dists d")
    case None
    then have "\<nexists>x. (x \<in> set dists \<and> fst x = d) \<and> \<not> needs_venv x" by (force simp: map_of_eq_None_iff)
    then have "map_of m d = None" using m by (simp only: if_False)
    with None show ?thesis by simp
  next
    case (Some r)
    then show ?thesis using m unfolding dict_wf_only [OF assms(2) Some] by simp
  qed
qed

lemma grouped_iff:
  assumes "fold (group_distribution ctx) dists ([], []) = (gs, m)" "dict_wf dists" "map_of dists d = Some r"
  shows "(\<exists>R ds. (R, ds) \<in> set gs \<and> d \<in> set ds) \<longleftrightarrow> needs_venv (d, r)"
proof -
  have "(\<exists>R ds. (R, ds) \<in> set gs \<and> d \<in> set ds) \<longleftrightarrow> (\<exists>x. (x \<in> set dists \<and> fst x = d) \<and> needs_venv x)"
    unfolding group_members [OF assms(1)] by blast
  then show ?thesis unfolding dict_wf_only [OF assms(2,3)] by simp
qed

lemma populate_groups:
  assumes fold: "fold (group_distribution ctx) dists ([], []) = (gs, m1)" and wf: "dict_wf dists"
    and venv: "\<And>R ds. (R, ds) \<in> set gs \<Longrightarrow> map_of vs R = Some (venv_for ctx tempdir R)"
    and m: "populate vs gs m1 = Inr m"
  shows "map_of m d = map_option (assigned_venv ctx tempdir) (map_of dists d)"
proof -
  let ?f = "\<lambda>n. assigned_venv ctx tempdir (the (map_of dists n))"
  have ext: "map_of vs R = Some (?f n)" if "(R, ds) \<in> set gs" "n \<in> set ds" for R ds n
  proof -
    have "\<exists>ds. (R, ds) \<in> set gs \<and> n \<in> set ds" using that by blast
    then obtain d where "d \<in> set dists" "needs_venv d" "requirements_key d = R" "fst d = n"
      unfolding group_members(2) [OF fold] by blast
    moreover from this have "map_of dists n = Some (snd d)" by (intro map_of_is_SomeI [OF wf]) auto
    ultimately show ?thesis
      using venv [OF that(1)] by (auto simp: assigned_venv_def needs_venv_def requirements_key_def)
  qed
  have "\<exists>m'. populate vs gs m1 = Inr m' \<and>
      (\<forall>d. map_of m' d = (if \<exists>R ds. (R, ds) \<in> set gs \<and> d \<in> set ds then Some (?f d) else map_of m1 d))"
    by (rule populate_result) (use venv ext in auto)
  with m have final: "map_of m d = (if \<exists>R ds. (R, ds) \<in> set gs \<and> d \<in> set ds then Some (?f d) else map_of m1 d)" by auto
  show ?thesis
  proof (cases "map_of dists d")
    case None
    then have "\<not> (\<exists>R ds. (R, ds) \<in> set gs \<and> d \<in> set ds)"
      using group_members(2) [OF fold, of _ d] by (force simp: map_of_eq_None_iff)
    with final group_mapping [OF fold wf, of d] None show ?thesis by simp
  next
    case (Some r)
    have "map_of m d = (if needs_venv (d, r) then Some (?f d) else map_of m1 d)"
      using final unfolding grouped_iff [OF fold wf Some] .
    with group_mapping [OF fold wf, of d] Some show ?thesis
      by (cases "needs_venv (d, r)") (simp_all add: assigned_venv_def needs_venv_def)
  qed
qed

lemma setup_result:
  assumes "all_complete ctx" "dict_wf dists"
    and "setup_virtual_environments ctx dists tempdir [] tr = (Inr m, tr')"
  shows "map_of m d = map_option (assigned_venv ctx tempdir) (map_of dists d)"
proof -
  obtain gs m1 where fold: "fold (group_distribution ctx) dists ([], []) = (gs, m1)"
    by (cases "fold (group_distribution ctx) dists ([], [])")
  show ?thesis
  proof (cases "gs = []")
    case True
    then have "populate [] gs m1 = Inr m"
      using assms(3) by (simp add: setup_virtual_environments_def fold io_simps)
    then show ?thesis by (rule populate_groups [OF fold assms(2), rotated]) (simp add: True)
  next
    case False
    obtain vs tr1 where vs: "make_venvs ctx tempdir (ctx_completed ctx (dict_keys gs)) [] tr = (Inr vs, tr1)"
      and m: "populate vs gs m1 = Inr m"
      using assms(3) False
      by (auto simp: setup_virtual_environments_def fold io_simps split: prod.splits sum.splits)
    show ?thesis
    proof (rule populate_groups [OF fold assms(2) _ m])
      show "map_of vs R = Some (venv_for ctx tempdir R)" if "(R, ds) \<in> set gs" for R ds
        using make_venvs_result [OF vs, of R] assms(1) that by (force simp: all_complete_def)
    qed
  qed
qed

lemma setup_keys_eq:
  assumes "all_complete ctx" "dict_wf dists"
    and "setup_virtual_environments ctx dists tempdir [] tr = (Inr m, tr')"
  shows "set (dict_keys m) = set (dict_keys dists)"
proof -
  have "dom (map_of m) = dom (map_of dists)" using setup_result [OF assms] by (auto simp: dom_def)
  then show ?thesis by (simp add: dom_map_of_conv_image_fst)
qed

text \<open>C33: \<^verbatim>\<open>setup_virtual_environments\<close> assigns every distribution to be checked, and no other, an environment: the
  running interpreter when it has no external requirements, otherwise the one created for exactly its set
  of external requirements, whatever the order in which the environments are completed.\<close>

theorem setup_virtual_environments_spec:
  assumes "all_complete ctx" "dict_wf dists"
    and "setup_virtual_environments ctx dists tempdir [] tr = (Inr m, tr')"
  shows "set (dict_keys m) = set (dict_keys dists) \<and>
    (\<forall>d reqs. map_of dists d = Some reqs \<longrightarrow> map_of m d = Some (assigned_venv ctx tempdir reqs))"
  using setup_keys_eq [OF assms] setup_result [OF assms] by simp

lemma distributions_to_check_wf:
  assumes "distributions_to_check ctx conf = Inr ds"
  shows "dict_wf ds"
proof -
  obtain names where fold: "fold_res (\<lambda>dist ds.
           if to_check ctx conf dist
           then bind_res (get_recursive_requirements (ctx_limit ctx) (ctx_pk ctx) (ctx_repo ctx) dist)
             (\<lambda>reqs. Inr (AList.update dist reqs ds))
           else Inr ds) (sort names) [] = Inr ds"
    using assms by (auto simp: distributions_to_check_def py_res)
  show ?thesis
    by (rule fold_res_invariant [OF fold, where P = dict_wf]) (auto simp: py_res distinct_update split: if_splits)
qed

lemma distributions_to_check_filter:
  "conf_filter c = conf_filter c' \<Longrightarrow> distributions_to_check ctx c = distributions_to_check ctx c'"
  by (simp add: distributions_to_check_def to_check_def [abs_def])

text \<open>
  The states of the mapping during a session: empty at first, then whatever \<^verbatim>\<open>test_typeshed\<close> leaves for some
  version and platform.
\<close>

inductive session :: "'v mypy_ctx \<Rightarrow> CommandLineArgs \<Rightarrow> path \<Rightarrow> venv_mapping \<Rightarrow> bool"
  for ctx args td where
  session_start: "session ctx args td []"
| session_step: "session ctx args td m \<Longrightarrow> test_typeshed ctx code (config_for args vp) td m tr = (Inr (r, m'), tr') \<Longrightarrow>
    session ctx args td m'"

definition mapping_ok :: "'v mypy_ctx \<Rightarrow> TestConfig \<Rightarrow> venv_mapping \<Rightarrow> bool" where
  "mapping_ok ctx conf m \<longleftrightarrow>
     m = [] \<or> (\<exists>ds. distributions_to_check ctx conf = Inr ds \<and> set (dict_keys m) = set (dict_keys ds))"

lemma setup_keys:
  assumes "all_complete ctx" "mapping_ok ctx conf m" "distributions_to_check ctx conf = Inr ds"
    and "(if m = [] then setup_virtual_environments ctx ds td m else ret m) tr = (Inr m', tr')"
  shows "set (dict_keys m') = set (dict_keys ds)"
proof (cases "m = []")
  case True
  then show ?thesis
    using setup_keys_eq [OF assms(1) distributions_to_check_wf [OF assms(3)], of td tr m' tr'] assms(4) by simp
next
  case False
  then show ?thesis using assms(2-4) by (auto simp: mapping_ok_def io_simps)
qed

lemma test_third_party_stubs_mapping:
  assumes "test_third_party_stubs ctx code conf td m tr = (Inr (r, m'), tr')"
  shows "\<exists>ds tr2 tr3. distributions_to_check ctx conf = Inr ds \<and>
    (if m = [] then setup_virtual_environments ctx ds td m else ret m) tr2 = (Inr m', tr3)"
  using assms unfolding test_third_party_stubs_def bind_io_Inr seq_Inr io_run(1,3,4)
  by (elim exE conjE) (auto simp only: prod.inject sum.inject)

lemma test_typeshed_mapping:
  assumes "test_typeshed ctx code conf td m tr = (Inr (r, m'), tr')"
  shows "m' = m \<or> (\<exists>c r' tr1 tr2. test_third_party_stubs ctx c conf td m tr1 = (Inr (r', m'), tr2))"
proof (cases "concerns (conf_filter conf) [''stubs'']")
  case True
  with assms show ?thesis
    unfolding test_typeshed_def bind_io_Inr [of _ "\<lambda>r1. if _ then _ r1 else _ r1"] seq_Inr
    by (fastforce simp: bind_io_Inr seq_Inr io_run(1,3) split: prod.splits)
next
  case False
  with assms show ?thesis
    unfolding test_typeshed_def bind_io_Inr seq_Inr by (auto simp: io_run(1))
qed

lemma session_mapping_ok:
  assumes "session ctx args td m" "all_complete ctx"
  shows "mapping_ok ctx (config_for args vp) m"
  using assms(1)
proof (induction arbitrary: vp rule: session.induct)
  case (session_step m code vp' tr r m' tr')
  have same: "mapping_ok ctx (config_for args vp) = mapping_ok ctx (config_for args vp')"
    using distributions_to_check_filter [of "config_for args vp" "config_for args vp'" ctx]
    by (simp add: mapping_ok_def [abs_def] config_for_def)
  show ?case
  proof (cases "m' = m")
    case True
    with session_step.IH show ?thesis by simp
  next
    case False
    with test_typeshed_mapping [OF session_step.hyps(2)] obtain c r' tr1 tr2 where
      "test_third_party_stubs ctx c (config_for args vp') td m tr1 = (Inr (r', m'), tr2)" by blast
    from test_third_party_stubs_mapping [OF this] obtain ds tr2 tr3 where
      ds: "distributions_to_check ctx (config_for args vp') = Inr ds" and
      m': "(if m = [] then setup_virtual_environments ctx ds td m else ret m) tr2 = (Inr m', tr3)" by blast
    from setup_keys [OF assms(2) session_step.IH ds m'] ds show ?thesis
      unfolding same by (simp add: mapping_ok_def)
  qed
qed (simp add: mapping_ok_def)

text \<open>C30: In every state of the mapping that a session can reach, the assertion of \<^verbatim>\<open>test_third_party_stubs\<close> that the
  mapping covers exactly the distributions to check cannot fail: the function behaves as if the assertion
  were not there.\<close>

theorem venv_assertion_holds:
  assumes "session ctx args td m" "all_complete ctx" "conf = config_for args vp"
  shows "test_third_party_stubs ctx code conf td m =
    seq (emit (Print ''Testing third-party packages...''))
     (bind_io (lift (distributions_to_check ctx conf)) (\<lambda>dists.
      bind_io (if m = [] then setup_virtual_environments ctx dists td m else ret m) (\<lambda>mapping'.
      bind_io (test_distributions ctx conf mapping' \<lparr>exit_code = code, files_checked = 0\<rparr>) (\<lambda>r.
        ret (r, mapping')))))"
proof (rule ext)
  fix tr
  have ok: "mapping_ok ctx conf m" using session_mapping_ok [OF assms(1,2)] assms(3) by simp
  show "test_third_party_stubs ctx code conf td m tr = seq (emit (Print ''Testing third-party packages...''))
     (bind_io (lift (distributions_to_check ctx conf)) (\<lambda>dists.
      bind_io (if m = [] then setup_virtual_environments ctx dists td m else ret m) (\<lambda>mapping'.
      bind_io (test_distributions ctx conf mapping' \<lparr>exit_code = code, files_checked = 0\<rparr>) (\<lambda>r.
        ret (r, mapping'))))) tr"
  proof (cases "distributions_to_check ctx conf")
    case (Inl e)
    then show ?thesis by (simp add: test_third_party_stubs_def io_run)
  next
    case (Inr ds)
    let ?prep = "(if m = [] then setup_virtual_environments ctx ds td m else ret m)"
    obtain q tr' where q: "?prep (tr @ [Print ''Testing third-party packages...'']) = (q, tr')"
      by (cases "?prep (tr @ [Print ''Testing third-party packages...''])")
    show ?thesis
    proof (cases q)
      case (Inl e)
      then show ?thesis using Inr q by (simp add: test_third_party_stubs_def io_run)
    next
      case inr: (Inr m')
      then have "set (dict_keys m') = set (dict_keys ds)" using setup_keys [OF assms(2) ok Inr] q by simp
      then show ?thesis using Inr q inr by (simp add: test_third_party_stubs_def io_run)
    qed
  qed
qed

subsection \<open>The stdlib of a consistent repository\<close>

lemma parse_version_tuple_ok:
  assumes "is_python_version v"
  shows "\<exists>a b. parse_version_tuple v = Inr [a, b]"
proof -
  obtain c ds where v: "v = [c] @ ''.'' @ ds" "c \<in> set ''23''" "ds \<noteq> []" "list_all is_digit ds"
    using assms unfolding is_python_version_iff
  proof (elim disjE exE conjE)
    fix a d assume "v = [a, CHR ''.'', d]" "a \<in> set ''23''" "is_digit d"
    then show thesis by (intro that [of a "[d]"]) (simp_all only: append.simps list.pred_inject simp_thms list.distinct not_False_eq_True)
  next
    fix a d e assume "v = [a, CHR ''.'', d, e]" "a \<in> set ''23''" "is_digit d" "is_digit e"
    then show thesis by (intro that [of a "[d, e]"]) (simp_all only: append.simps list.pred_inject simp_thms list.distinct not_False_eq_True)
  qed
  have "accepts (Group 1 (Chars (\<lambda>c. c \<in> set ''23''))) [] ([c] @ ''.'' @ ds) [] (rev [c] @ []) (''.'' @ ds) (AList.update 1 [c] [])"
    by (rule acc_group) (use v(2) in \<open>simp add: accepts_simps\<close>)
  moreover have "accepts (lit ''.'') b (''.'' @ ds) cs (rev ''.'' @ b) ds cs" for b cs
    by (simp only: accepts_lit simp_thms)
  moreover have "accepts (Group 2 (Plus is_digit)) b ds cs (rev ds @ b) [] (AList.update 2 ds cs)" for b cs
    using acc_group [of "Plus is_digit" b ds "[]" cs cs 2] v(3,4) by (simp add: accepts_Plus)
  ultimately have "\<exists>b a cs. accepts VERSION_RE [] v [] b a cs"
    unfolding VERSION_RE_def v(1) by (meson acc_seq acc_end)
  then have "re_match VERSION_RE v \<noteq> None" by (auto simp: re_match_None_iff)
  then show ?thesis by (auto simp: parse_version_tuple_def)
qed

lemma parse_version_line_ok:
  assumes "version_entry (strip_comments l) m"
  shows "\<exists>range. parse_version_line l acc = Inr (AList.update m range acc)"
proof -
  have ne: "strip_comments l \<noteq> []" using assms by (auto simp: version_entry_def)
  obtain x cs where cs: "re_match VERSIONS_RE (strip_comments l) = Some (x, cs)"
    using VERSIONS_RE_line(2) [OF refl, of l] assms by fastforce
  have m: "m = dict_get cs 1 []" using VERSIONS_RE_line(1) [OF refl cs] assms by simp
  note groups = VERSIONS_RE_line(3) [OF refl cs]
  obtain a b where lo: "parse_version_tuple (dict_get cs 2 []) = Inr [a, b]" using parse_version_tuple_ok groups by blast
  obtain hi where "(if dict_get cs 3 [] \<noteq> [] then parse_version_tuple (dict_get cs 3 []) else Inr [99, 99]) = Inr hi"
    using groups parse_version_tuple_ok by (cases "dict_get cs 3 [] = []") auto
  with lo ne cs m have "parse_version_line l acc = Inr (AList.update m ([a, b], hi) acc)"
    by (simp add: parse_version_line_def Let_def)
  then show ?thesis by blast
qed

lemma parse_versions_fold:
  assumes "list_all2 version_entry (filter (\<lambda>l. l \<noteq> []) (map strip_comments ls)) names"
  shows "\<exists>ranges. fold_res parse_version_line ls acc = Inr ranges \<and> set (dict_keys ranges) = set names \<union> set (dict_keys acc)"
  using assms
proof (induction ls arbitrary: names acc)
  case (Cons l ls)
  show ?case
  proof (cases "strip_comments l = []")
    case True
    then have "parse_version_line l acc = Inr acc" by (simp add: parse_version_line_def)
    with Cons True show ?thesis by simp
  next
    case False
    with Cons.prems obtain m ms where names: "names = m # ms" "version_entry (strip_comments l) m"
      "list_all2 version_entry (filter (\<lambda>l. l \<noteq> []) (map strip_comments ls)) ms"
      by (auto simp: list_all2_Cons1)
    obtain range where "parse_version_line l acc = Inr (AList.update m range acc)"
      using parse_version_line_ok [OF names(2)] by blast
    with Cons.IH [OF names(3), of "AList.update m range acc"] names(1) show ?thesis
      by (auto simp: dom_update)
  qed
qed simp

lemma hd_split_prefix: "CHR ''.'' \<notin> set x \<Longrightarrow> hd (split_on CHR ''.'' (x @ CHR ''.'' # y)) = x"
  by simp

lemma identifier_no_dot: "is_identifier s \<Longrightarrow> s \<noteq> [] \<and> CHR ''.'' \<notin> set s"
proof -
  assume s: "is_identifier s"
  have "\<not> is_ident_start CHR ''.''" "\<not> is_digit CHR ''.''" by code_simp+
  with s show ?thesis by (auto simp: is_identifier_def list_all_iff split: list.splits)
qed

lemma package_of_file:
  assumes "CHR ''.'' \<notin> set name" "name \<noteq> []" "ends_with f ''.pyi''"
  shows "\<exists>m. module_of_file (''stdlib'' # name # q) f = Some m \<and> hd (split_on CHR ''.'' m) = name"
proof -
  have hd: "hd (split_on CHR ''.'' (join_with ''.'' (name # q) @ s)) = name" if "s = [] \<or> (\<exists>y. s = CHR ''.'' # y)" for s
    using that assms(1) by (cases q) (auto simp: join_with_Cons)
  have "join_with ''.'' (name # q) \<noteq> []" using assms(2) by (cases q) (auto simp: join_with_Cons)
  with assms(3) hd [of "[]"] hd [of "CHR ''.'' # fst (splitext f)"] show ?thesis
    by (auto simp: module_of_file_def Let_def)
qed

lemma module_of_top_file:
  assumes "CHR ''.'' \<notin> set n" "n \<noteq> []"
  shows "module_of_file [''stdlib''] (n @ ''.pyi'') = Some (if n = ''__init__'' then [] else n)"
proof -
  have "takeWhile (\<lambda>c. c \<noteq> CHR ''.'') (rev (n @ ''.pyi'')) = ''iyp''" by simp
  moreover have "\<not> list_all (\<lambda>c. c = CHR ''.'') n" using assms by (cases n) auto
  ultimately have "splitext (n @ ''.pyi'') = (n, ''.pyi'')" by (simp add: splitext_def Let_def)
  then show ?thesis using ends_with_append [of n "''.pyi''"] by (auto simp: module_of_file_def Let_def)
qed

lemma list_all2_name: "list_all2 version_entry ls names \<Longrightarrow> n \<in> set names \<Longrightarrow> n \<noteq> []"
  by (induction ls names rule: list_all2_induct) (auto simp: version_entry_def is_module_name_def)

lemma top_level_good:
  assumes "check_stdlib spec t = Inr ()" "fs_wf t" "fs_lookup t [''stdlib''] = Some (Dir es)" "map_of es name = Some c"
    and "\<not> matches_node spec [''stdlib'', name] c" "name \<noteq> ''VERSIONS''"
  shows "if is_dir_node c then is_identifier name else is_identifier (name_stem name) \<and> name_suffix name = ''.pyi''"
proof -
  let ?ru = "\<lparr>rule_dir = [''stdlib''], rule_kind = ''.pyi'', rule_allowed = path_of ` set [''_typeshed/README.md'', ''VERSIONS''], rule_nonidentifiers = False\<rparr>"
  have "path_of ` set [''_typeshed/README.md'', ''VERSIONS''] = {[''_typeshed'', ''README.md''], [''VERSIONS'']}" by code_simp
  then have "\<not> skipped_entry spec ?ru [''stdlib'', name] c"
    using assms(5,6) by (simp add: skipped_entry_def)
  then have reached: "reached spec ?ru ([''stdlib''] @ [name]) c []" by simp
  have "is_dir_node (Dir es)" by simp
  from if_Inr_D [OF filetypes_result [OF assms(3) this assms(2) refl] assms(1) [unfolded check_stdlib_def]]
  have "good_entry ?ru ([''stdlib''] @ name # []) c"
    using assms(4) reached by (metis fs_lookup.simps(1) fs_lookup.simps(3) option.simps(5))
  then show ?thesis by (simp add: good_entry_def path_stem_def path_suffix_def path_name_def split: if_splits)
qed

lemma stem_listed:
  assumes "check_stdlib spec t = Inr ()" "fs_wf t" "fs_lookup t [''stdlib''] = Some (Dir es)" "map_of es name = Some c"
    and "\<not> matches_node spec [''stdlib'', name] c" "name \<noteq> ''VERSIONS''"
    and files: "is_dir_node c \<Longrightarrow> \<exists>q f. fs_is_file t (''stdlib'' # name # q @ [f]) \<and> ends_with f ''.pyi''"
    and listed: "\<And>q f m. fs_is_file t (''stdlib'' # q @ [f]) \<Longrightarrow> module_of_file (''stdlib'' # q) f = Some m \<Longrightarrow> hd (split_on CHR ''.'' m) \<in> set names"
    and "[] \<notin> set names"
  shows "path_stem [name] \<in> set names"
proof (cases "is_dir_node c")
  case True
  then have name: "name \<noteq> []" "CHR ''.'' \<notin> set name"
    using top_level_good [OF assms(1-6)] identifier_no_dot by auto
  obtain q f where "fs_is_file t (''stdlib'' # name # q @ [f])" "ends_with f ''.pyi''" using files [OF True] by blast
  with package_of_file [OF name(2,1), of f q] listed [of "name # q" f] have "name \<in> set names" by auto
  moreover have "path_stem [name] = name"
    using name(2) by (simp add: path_stem_def path_name_def name_stem_def dot_split_def Let_def)
  ultimately show ?thesis by simp
next
  case False
  let ?n = "name_stem name"
  have n: "?n \<noteq> []" "CHR ''.'' \<notin> set ?n" and name: "name = ?n @ ''.pyi''"
    using top_level_good [OF assms(1-6)] False identifier_no_dot stem_suffix_append [of name] by auto
  have "fs_is_file t (''stdlib'' # [] @ [name])"
    using fs_lookup_append [of t "[''stdlib'']" "[name]"] assms(3,4) False by (cases c) (simp_all add: fs_is_file_def)
  moreover have "module_of_file (''stdlib'' # []) name = Some (if ?n = ''__init__'' then [] else ?n)"
    using module_of_top_file [OF n(2,1)] name by simp
  ultimately have "hd (split_on CHR ''.'' (if ?n = ''__init__'' then [] else ?n)) \<in> set names" by (rule listed)
  then have "?n \<in> set names" using n(2) \<open>[] \<notin> set names\<close> by (simp split: if_splits)
  then show ?thesis by (simp add: path_stem_def path_name_def)
qed

subsection \<open>Witnesses\<close>

definition ex_env :: "(string list \<Rightarrow> int) \<Rightarrow> fs \<Rightarrow> env" where
  "ex_env code t =
     \<lparr>env_run = (\<lambda>tr args. \<lparr>returncode = code args, stdout = [], stderr = []\<rparr>),
      env_http = (\<lambda>tr meth u hs pl. \<lparr>status = 200, errors = [], numbers = []\<rparr>),
      env_toml = (\<lambda>tr p. []), env_fs = (\<lambda>tr. t), env_token = None\<rparr>"

definition ex_mypy_tree :: fs where
  "ex_mypy_tree = Dir
     [(''requirements-tests.txt'', File False (''mypy==1.5.1'' @ nl)),
      (''stdlib'', Dir [(''VERSIONS'', File False (''os: 2.7-'' @ nl @ ''asyncore: 2.7-3.8'' @ nl)),
         (''os'', Dir [(''__init__.pyi'', File False [])]), (''asyncore.pyi'', File False [])]),
      (''stubs'', Dir
        [(''caldav'', Dir [(''METADATA.toml'', File False []), (''caldav'', Dir [(''__init__.pyi'', File False [])])]),
         (''requests'', Dir [(''METADATA.toml'', File False []), (''requests'', Dir [(''__init__.pyi'', File False [])])])])]"

definition ex_mypy_ctx :: "(string list \<Rightarrow> int) \<Rightarrow> repo \<Rightarrow> nat list mypy_ctx" where
  "ex_mypy_ctx code rp =
     \<lparr>ctx_env = ex_env code ex_mypy_tree, ctx_pk = simple_packaging, ctx_repo = rp, ctx_tree = ex_mypy_tree,
      ctx_ignored = (\<lambda>_. False), ctx_python = ''python'', ctx_win32 = False, ctx_temp = [''tmp''], ctx_root = [], ctx_limit = 10,
      ctx_hash = join_with ''-'', ctx_set_order = id, ctx_completed = rev\<rparr>"

definition ex_args :: CommandLineArgs where
  "ex_args = \<lparr>arg_verbose = 0, arg_filter = [], arg_exclude = [], arg_python_version = [''3.11''], arg_platform = [''linux'']\<rparr>"

abbreviation ex_conf :: TestConfig where
  "ex_conf \<equiv> config_for ex_args (''3.11'', ''linux'')"

abbreviation ex_start :: dist_files where
  "ex_start \<equiv> \<lparr>df_files = [], df_confs = [], df_seen = []\<rparr>"

definition ex_sections_repo :: repo where
  "ex_sections_repo = \<lparr>repo_dists = [''caldav''],
     repo_meta = (\<lambda>d. Inr [(''version'', TStr ''1.0''), (''mypy-tests'', TTable [])])\<rparr>"

lemma ex_all_complete: "all_complete (ex_mypy_ctx code rp)"
  by (simp add: all_complete_def ex_mypy_ctx_def)


definition ex_dists :: "(string, PackageDependencies) dict" where
  "ex_dists = [(''caldav'', \<lparr>typeshed_pkgs = [''requests''], external_pkgs = [''cryptography'', ''lxml'']\<rparr>),
     (''requests'', \<lparr>typeshed_pkgs = [], external_pkgs = []\<rparr>), (''urllib3'', \<lparr>typeshed_pkgs = [], external_pkgs = [''cryptography'']\<rparr>)]"

theorem setup_virtual_environments_spec_witness:
  "\<exists>m tr. setup_virtual_environments (ex_mypy_ctx (\<lambda>_. 0) Parse_Metadata.ex_repo) ex_dists [''td''] [] [] = (Inr m, tr) \<and>
     map_of m ''caldav'' = Some \<lparr>pip_exe = ''td/.venv-cryptography-lxml/bin/pip'', python_exe = ''td/.venv-cryptography-lxml/bin/python''\<rparr> \<and>
     map_of m ''requests'' = Some \<lparr>pip_exe = [], python_exe = ''python''\<rparr>"
proof -
  let ?c = "ex_mypy_ctx (\<lambda>_. 0) Parse_Metadata.ex_repo"
  let ?r = "setup_virtual_environments ?c ex_dists [''td''] [] []"
  have "\<not> isl (fst ?r)" by code_simp
  then obtain m tr where run: "?r = (Inr m, tr)" by (metis isl_def obj_sumE prod.collapse)
  have wf: "dict_wf ex_dists" by code_simp
  have "map_of ex_dists ''caldav'' = Some \<lparr>typeshed_pkgs = [''requests''], external_pkgs = [''cryptography'', ''lxml'']\<rparr>"
     "map_of ex_dists ''requests'' = Some \<lparr>typeshed_pkgs = [], external_pkgs = []\<rparr>" by code_simp+
  with setup_virtual_environments_spec [OF ex_all_complete wf run]
  have "map_of m ''caldav'' = Some (assigned_venv ?c [''td''] \<lparr>typeshed_pkgs = [''requests''], external_pkgs = [''cryptography'', ''lxml'']\<rparr>)"
     "map_of m ''requests'' = Some (assigned_venv ?c [''td''] \<lparr>typeshed_pkgs = [], external_pkgs = []\<rparr>)" by blast+
  moreover have "assigned_venv ?c [''td''] \<lparr>typeshed_pkgs = [''requests''], external_pkgs = [''cryptography'', ''lxml'']\<rparr> =
      \<lparr>pip_exe = ''td/.venv-cryptography-lxml/bin/pip'', python_exe = ''td/.venv-cryptography-lxml/bin/python''\<rparr>"
    "assigned_venv ?c [''td''] \<lparr>typeshed_pkgs = [], external_pkgs = []\<rparr> = \<lparr>pip_exe = [], python_exe = ''python''\<rparr>"
    by code_simp+
  ultimately show ?thesis using run by (intro exI conjI) (simp_all only:)
qed

theorem venv_assertion_holds_witness:
  "test_third_party_stubs (ex_mypy_ctx (\<lambda>_. 0) Parse_Metadata.ex_repo) 0 ex_conf [''td''] [] =
    seq (emit (Print ''Testing third-party packages...''))
     (bind_io (lift (distributions_to_check (ex_mypy_ctx (\<lambda>_. 0) Parse_Metadata.ex_repo) ex_conf)) (\<lambda>dists.
      bind_io (setup_virtual_environments (ex_mypy_ctx (\<lambda>_. 0) Parse_Metadata.ex_repo) dists [''td''] []) (\<lambda>mapping'.
      bind_io (test_distributions (ex_mypy_ctx (\<lambda>_. 0) Parse_Metadata.ex_repo) ex_conf mapping' \<lparr>exit_code = 0, files_checked = 0\<rparr>) (\<lambda>r.
        ret (r, mapping')))))"
  using venv_assertion_holds [OF session_start ex_all_complete refl, of "\<lambda>_. 0" Parse_Metadata.ex_repo 0 ex_args "(''3.11'', ''linux'')" "[''td'']"]
  by simp

subsection \<open>Return codes\<close>

text \<open>A mypy process that is killed by a signal has a negative return code, which \<^verbatim>\<open>max(code, this_code)\<close> discards: in
  a repository whose every mypy run is killed, \<^verbatim>\<open>mypy_test.py\<close> prints that it succeeded and ends normally,
  while with a positive return code it exits with that code.\<close>

theorem killed_mypy_reported_as_success:
  "fst (mypy_test_main (ex_mypy_ctx (\<lambda>args. if ''mypy'' \<in> set args then -9 else 0) Parse_Metadata.ex_repo) ''linux'' [''td''] ex_args []) = Inr () \<and>
   last (snd (mypy_test_main (ex_mypy_ctx (\<lambda>args. if ''mypy'' \<in> set args then -9 else 0) Parse_Metadata.ex_repo) ''linux'' [''td''] ex_args [])) =
     Print ''--- success, 3 files checked ---'' \<and>
   fst (mypy_test_main (ex_mypy_ctx (\<lambda>args. if ''mypy'' \<in> set args then 2 else 0) Parse_Metadata.ex_repo) ''linux'' [''td''] ex_args []) =
     Inl (SystemExit 2)"
  by (intro conjI) code_simp+

end
