(* ===== verification/Effect_Loops.thy ===== *)
theory Effect_Loops
  imports Outcomes
begin

section \<open>Loops over a list that thread a state through effects\<close>

text \<open>
  Most loops of the test programs have the same form: a step with effects for each element of a list, and a state that the steps
  change. \<open>effect_loop\<close> states this form as an interface; the test programs interpret it on their loops. \<open>code_loop\<close> is the
  case of a loop that keeps the greatest return code of the tests it runs.
\<close>

locale effect_loop =
  fixes loop :: "'a list \<Rightarrow> 's \<Rightarrow> 's io" and step :: "'a \<Rightarrow> 's \<Rightarrow> 's io"
  assumes loop_Nil: "loop [] s = ret s"
    and loop_Cons: "loop (x # xs) s = bind_io (step x s) (loop xs)"
begin

lemma loop_emits: "(\<And>x s. x \<in> set xs \<Longrightarrow> emits A (step x s)) \<Longrightarrow> emits A (loop xs s)"
  by (induction xs arbitrary: s) (auto simp: loop_Nil loop_Cons intro: emits_rules)

lemma loop_never_raises: "(\<And>x s. x \<in> set xs \<Longrightarrow> never_raises (step x s)) \<Longrightarrow> never_raises (loop xs s)"
  by (induction xs arbitrary: s) (auto simp: loop_Nil loop_Cons intro: never_raises_rules)

text \<open>What each step establishes, if it survives later steps, holds for all elements in the end.\<close>

lemma loop_ensures:
  assumes step: "\<And>x s. x \<in> set xs \<Longrightarrow> ensures (step x s) (\<lambda>tr s' evs. R s s' \<and> E x s' tr evs)"
    and refl: "\<And>s. R s s" and trans: "\<And>a b c. R a b \<Longrightarrow> R b c \<Longrightarrow> R a c"
    and left: "\<And>x s s' tr e1 e2. E x s tr e1 \<Longrightarrow> R s s' \<Longrightarrow> E x s' tr (e1 @ e2)"
    and right: "\<And>x s tr e1 e2. E x s (tr @ e1) e2 \<Longrightarrow> E x s tr (e1 @ e2)"
  shows "ensures (loop xs s) (\<lambda>tr s' evs. R s s' \<and> (\<forall>x \<in> set xs. E x s' tr evs))"
  using step
proof (induction xs arbitrary: s)
  case (Cons x xs)
  have rest: "ensures (loop xs s) (\<lambda>tr s' evs. R s s' \<and> (\<forall>x \<in> set xs. E x s' tr evs))" for s using Cons by simp
  show ?case unfolding loop_Cons
    by (rule ensures_bind [OF Cons.prems rest]) (auto intro: trans left right)
qed (simp add: loop_Nil ensures_def io_run refl)

text \<open>If a step either leaves the state alone or establishes where the new state comes from, so does the loop.\<close>

lemma loop_origin:
  assumes step: "\<And>x s. x \<in> set xs \<Longrightarrow> ensures (step x s) (\<lambda>tr s' evs. s' = s \<or> G x s' tr evs)"
    and left: "\<And>x s tr e1 e2. G x s tr e1 \<Longrightarrow> G x s tr (e1 @ e2)"
    and right: "\<And>x s tr e1 e2. G x s (tr @ e1) e2 \<Longrightarrow> G x s tr (e1 @ e2)"
  shows "ensures (loop xs s) (\<lambda>tr s' evs. s' = s \<or> (\<exists>x \<in> set xs. G x s' tr evs))"
  using step
proof (induction xs arbitrary: s)
  case (Cons x xs)
  have rest: "ensures (loop xs s) (\<lambda>tr s' evs. s' = s \<or> (\<exists>x \<in> set xs. G x s' tr evs))" for s using Cons by simp
  show ?case unfolding loop_Cons
    by (rule ensures_bind [OF Cons.prems rest]) (auto intro: left right)
qed (simp add: loop_Nil ensures_def io_run)

end

subsection \<open>Keeping the greatest return code\<close>

locale code_loop =
  fixes loop :: "('a \<Rightarrow> int io) \<Rightarrow> 'a list \<Rightarrow> int \<Rightarrow> int io"
  assumes code_Nil: "loop test [] code = ret code"
    and code_Cons: "loop test (x # xs) code = bind_io (test x) (\<lambda>this_code. loop test xs (max code this_code))"

sublocale code_loop \<subseteq> each: effect_loop "loop test" "\<lambda>x code. bind_io (test x) (\<lambda>this_code. ret (max code this_code))" for test
  by unfold_locales (simp_all add: code_Nil code_Cons bind_io_assoc)

context code_loop
begin

lemma tests_never_raise: "(\<And>x. x \<in> set xs \<Longrightarrow> never_raises (test x)) \<Longrightarrow> never_raises (loop test xs code)"
  by (rule each.loop_never_raises) (auto intro: never_raises_rules)

lemma codes_bounded:
  assumes "\<And>x. x \<in> set xs \<Longrightarrow> ensures (test x) (\<lambda>tr d evs. has_call en tr evs (C x) (\<lambda>p. returncode p = d))"
  shows "ensures (loop test xs code) (\<lambda>tr c evs. code \<le> c \<and> (\<forall>x \<in> set xs. has_call en tr evs (C x) (\<lambda>p. returncode p \<le> c)))"
proof (rule each.loop_ensures)
  fix x s assume "x \<in> set xs"
  show "ensures (bind_io (test x) (\<lambda>d. ret (max s d))) (\<lambda>tr c evs. s \<le> c \<and> has_call en tr evs (C x) (\<lambda>p. returncode p \<le> c))"
    by (rule ensures_bind [OF assms [OF \<open>x \<in> set xs\<close>] ensures_ret_eq]) (auto intro!: has_call_left elim!: has_call_mono)
qed (auto intro: has_call_left has_call_right has_call_le)

lemma code_attained:
  assumes "\<And>x. x \<in> set xs \<Longrightarrow> ensures (test x) (\<lambda>tr d evs. has_call en tr evs (C x) (\<lambda>p. returncode p = d))"
  shows "ensures (loop test xs code) (\<lambda>tr c evs. c = code \<or> (\<exists>x \<in> set xs. has_call en tr evs (C x) (\<lambda>p. returncode p = c)))"
proof (rule each.loop_origin)
  fix x s assume "x \<in> set xs"
  show "ensures (bind_io (test x) (\<lambda>d. ret (max s d))) (\<lambda>tr c evs. c = s \<or> has_call en tr evs (C x) (\<lambda>p. returncode p = c))"
    by (rule ensures_bind [OF assms [OF \<open>x \<in> set xs\<close>] ensures_ret_eq]) (auto simp: max_def intro: has_call_left split: if_splits)
qed (auto intro: has_call_left has_call_right)

lemma loop_zero:
  assumes "\<And>x. x \<in> set xs \<Longrightarrow> ensures (test x) (\<lambda>tr d evs. has_call en tr evs (C x) (\<lambda>p. returncode p = d))"
    and "loop test xs 0 tr = (Inr c, tr')"
  shows "\<exists>evs. tr' = tr @ evs \<and> 0 \<le> c \<and> (\<forall>x \<in> set xs. has_call en tr evs (C x) (\<lambda>p. returncode p \<le> c)) \<and>
    (c \<noteq> 0 \<longrightarrow> (\<exists>x \<in> set xs. has_call en tr evs (C x) (\<lambda>p. returncode p = c)))"
  using ensuresD [OF codes_bounded [OF assms(1)] assms(2)] ensuresD [OF code_attained [OF assms(1)] assms(2)] by auto

end

end
