(* ===== verification/Stubtest.thy ===== *)
theory Stubtest
  imports Mypy_Test Effect_Loops
begin

section \<open>Stubtest\<close>

text \<open>
  \<^verbatim>\<open>src/tests/stubtest_third_party.py\<close> and \<^verbatim>\<open>src/tests/stubtest_stdlib.py\<close>, from the parsed arguments on. The
  surroundings are those of \<open>mypy_ctx\<close>, \<open>ctx_root\<close> being the resolved root directory; the temporary directory is
  an argument. A distribution is given by the name of its directory. Assignments to environment variables are the first words of a command. What is printed on the
  error stream is printed on the one trace.
\<close>

subsection \<open>Third-party stubs\<close>

definition print_the_commands :: "string list \<Rightarrow> string list \<Rightarrow> string \<Rightarrow> unit io" where
  "print_the_commands pip_cmd stubtest_cmd mypypath =
     for_each (\<lambda>m. emit (Print m))
       [[], join_with '' '' pip_cmd, ''MYPYPATH='' @ mypypath @ '' '' @ join_with '' '' stubtest_cmd, []]"

definition print_command_output :: "proc \<Rightarrow> unit io" where
  "print_command_output p = for_each (\<lambda>m. emit (Print m)) [stdout p, stderr p, []]"

definition print_command_failure :: "string \<Rightarrow> proc \<Rightarrow> unit io" where
  "print_command_failure message p =
     seq (print_error ''fail'' ([], [])) (seq (emit (Print [])) (seq (emit (Print message)) (print_command_output p)))"

definition make_venv_or_fail :: "'v mypy_ctx \<Rightarrow> path \<Rightarrow> VenvInfo io" where
  "make_venv_or_fail ctx venv_dir =
     try_except (make_venv (ctx_env ctx) (ctx_win32 ctx) venv_dir)
       (\<lambda>e. Some (seq (print_error ''fail'' ([], [])) (raise e)))"

definition dist_req :: "string \<Rightarrow> StubMetadata \<Rightarrow> string" where
  "dist_req dist_name metadata =
     dist_name @ ''['' @ join_with '', '' (extras (stubtest_settings metadata)) @ '']=='' @ meta_version metadata"

definition packages_to_check :: "fs \<Rightarrow> string \<Rightarrow> string list res" where
  "packages_to_check t dist_name =
     bind_res (listdir t [''stubs'', dist_name]) (\<lambda>names.
       Inr (filter (\<lambda>n. fs_is_dir t [''stubs'', dist_name, n] \<and> is_identifier n) names))"

definition modules_to_check :: "fs \<Rightarrow> string \<Rightarrow> string list res" where
  "modules_to_check t dist_name =
     bind_res (listdir t [''stubs'', dist_name]) (\<lambda>names.
       Inr (map name_stem (filter (\<lambda>n. fs_is_file t [''stubs'', dist_name, n] \<and> name_suffix n = ''.pyi'') names)))"

definition allowlist_args :: "'v mypy_ctx \<Rightarrow> path \<Rightarrow> string list" where
  "allowlist_args ctx file =
     (if fs_exists (ctx_tree ctx) file then [''--allowlist'', as_posix (ctx_root ctx @ file)] else [])"

definition allowlist_path :: "string \<Rightarrow> path" where
  "allowlist_path dist_name = [''stubs'', dist_name, ''@tests'', ''stubtest_allowlist.txt'']"

definition stubtest_cmd :: "'v mypy_ctx \<Rightarrow> string \<Rightarrow> string \<Rightarrow> StubMetadata \<Rightarrow> string \<Rightarrow> string list res" where
  "stubtest_cmd ctx sys_platform dist_name metadata python =
     bind_res (packages_to_check (ctx_tree ctx) dist_name) (\<lambda>packages.
     bind_res (modules_to_check (ctx_tree ctx) dist_name) (\<lambda>modules.
       Inr ([python, ''-m'', ''mypy.stubtest'', ''--custom-typeshed-dir'', as_posix (ctx_root ctx)] @
         (if ignore_missing_stub (stubtest_settings metadata) then [''--ignore-missing-stub''] else []) @
         packages @ modules @ allowlist_args ctx (allowlist_path dist_name) @
         allowlist_args ctx [''stubs'', dist_name, ''@tests'', ''stubtest_allowlist_'' @ sys_platform @ ''.txt''])))"

definition stubtest_mypypath :: "'v mypy_ctx \<Rightarrow> string \<Rightarrow> string list \<Rightarrow> string" where
  "stubtest_mypypath ctx dist_name pkgs =
     join_with (if ctx_win32 ctx then '';'' else '':'')
       (map (\<lambda>d. as_posix (ctx_root ctx @ [''stubs'', d])) (dist_name # pkgs))"

definition with_env :: "string \<Rightarrow> string list \<Rightarrow> string list" where
  "with_env mypypath cmd = [''MYPYPATH='' @ mypypath, ''MYPY_FORCE_COLOR=1''] @ cmd"

definition report_stubtest_failure ::
  "'v mypy_ctx \<Rightarrow> string \<Rightarrow> string \<Rightarrow> string list \<Rightarrow> string list \<Rightarrow> string \<Rightarrow> proc \<Rightarrow> unit io" where
  "report_stubtest_failure ctx dist_name pip pip_cmd cmd mypypath p =
     seq (print_error ''fail'' ([], []))
     (seq (print_the_commands pip_cmd cmd mypypath)
     (seq (print_command_output p)
     (seq (emit (Print ''Ran with the following environment:''))
     (bind_io (run (ctx_env ctx) [pip, ''freeze'', ''--all'']) (\<lambda>r.
      seq (print_command_output r)
      (if fs_exists (ctx_tree ctx) (allowlist_path dist_name)
       then seq (emit (Print (''To fix \"unused allowlist\" errors, remove the corresponding entries from '' @
              as_posix (ctx_root ctx @ allowlist_path dist_name)))) (emit (Print []))
       else seq (emit (Print (''Re-running stubtest with --generate-allowlist.'' @ nl @ ''Add the following to '' @
              as_posix (ctx_root ctx @ allowlist_path dist_name) @ '':'')))
            (bind_io (run (ctx_env ctx) (with_env mypypath (cmd @ [''--generate-allowlist'']))) print_command_output)))))))"

definition run_stubtest_cmd :: "'v mypy_ctx \<Rightarrow> bool \<Rightarrow> string \<Rightarrow> string \<Rightarrow> string list \<Rightarrow> string \<Rightarrow> string list \<Rightarrow> bool io" where
  "run_stubtest_cmd ctx verbose dist_name pip pip_cmd mypypath cmd =
     bind_io (run (ctx_env ctx) (with_env mypypath cmd)) (\<lambda>p.
       if returncode p \<noteq> 0
       then seq (report_stubtest_failure ctx dist_name pip pip_cmd cmd mypypath p) (ret False)
       else seq print_success_msg
              (seq (if verbose then print_the_commands pip_cmd cmd mypypath else ret ()) (ret True)))"

definition stubtest_in_venv :: "'v mypy_ctx \<Rightarrow> string \<Rightarrow> bool \<Rightarrow> string \<Rightarrow> StubMetadata \<Rightarrow> VenvInfo \<Rightarrow> bool io" where
  "stubtest_in_venv ctx sys_platform verbose dist_name metadata venv =
     bind_io (lift (get_recursive_requirements (ctx_limit ctx) (ctx_pk ctx) (ctx_repo ctx) dist_name)) (\<lambda>reqs.
     bind_io (get_mypy_req (ctx_env ctx)) (\<lambda>mypy_req.
     let pip_cmd = [pip_exe venv, ''install'', dist_req dist_name metadata, mypy_req] @ external_pkgs reqs in
     bind_io (run (ctx_env ctx) pip_cmd) (\<lambda>p.
     if returncode p \<noteq> 0 then seq (print_command_failure ''Failed to install'' p) (ret False)
     else
       bind_io (lift (stubtest_cmd ctx sys_platform dist_name metadata (python_exe venv))) (\<lambda>cmd.
         run_stubtest_cmd ctx verbose dist_name (pip_exe venv) pip_cmd
           (stubtest_mypypath ctx dist_name (typeshed_pkgs reqs)) cmd))))"

definition run_stubtest :: "'v mypy_ctx \<Rightarrow> string \<Rightarrow> path \<Rightarrow> bool \<Rightarrow> bool \<Rightarrow> string \<Rightarrow> bool io" where
  "run_stubtest ctx sys_platform tmp verbose specified_platforms_only dist_name =
     bind_io (lift (read_metadata (ctx_pk ctx) (ctx_repo ctx) dist_name)) (\<lambda>metadata.
     let settings = stubtest_settings metadata in
     seq (emit (Print (dist_name @ ''... '')))
     (if skipped settings then seq (emit (Print ''skipping'')) (ret True)
      else if sys_platform \<notin> set (platforms settings) \<and> specified_platforms_only
      then seq (emit (Print ''skipping (platform not specified in METADATA.toml)'')) (ret True)
      else
        seq (if sys_platform \<notin> set (platforms settings)
             then emit (Print (''Note: '' @ dist_name @ '' is not currently tested on '' @ sys_platform @ '' in typeshed's CI.''))
             else ret ())
        (bind_io (make_venv_or_fail ctx tmp) (\<lambda>venv.
         if stubtest_requirements settings \<noteq> []
         then bind_io (run (ctx_env ctx) ([pip_exe venv, ''install''] @ stubtest_requirements settings)) (\<lambda>p.
                if returncode p \<noteq> 0 then seq (print_command_failure ''Failed to install requirements'' p) (ret False)
                else stubtest_in_venv ctx sys_platform verbose dist_name metadata venv)
         else stubtest_in_venv ctx sys_platform verbose dist_name metadata venv))))"

text \<open>The loop over the distributions; \<open>i\<close> is the index that \<^verbatim>\<open>enumerate\<close> gives.\<close>

fun stubtest_loop :: "(string \<Rightarrow> bool io) \<Rightarrow> int \<Rightarrow> int \<Rightarrow> int \<Rightarrow> string list \<Rightarrow> int \<Rightarrow> int io" where
  "stubtest_loop test num_shards shard_index i [] result = ret result"
| "stubtest_loop test num_shards shard_index i (dist # dists) result =
     (if num_shards = 0 then raise ZeroDivisionError
      else if i mod num_shards \<noteq> shard_index then stubtest_loop test num_shards shard_index (i + 1) dists result
      else bind_io (test dist) (\<lambda>good.
        stubtest_loop test num_shards shard_index (i + 1) dists (if \<not> good then 1 else result)))"

record stubtest_args =
  st_verbose :: bool
  st_num_shards :: int
  st_shard_index :: int
  st_specified_platforms_only :: bool
  st_dists :: "string list"

definition stubtest_dists :: "fs \<Rightarrow> stubtest_args \<Rightarrow> string list res" where
  "stubtest_dists t args =
     (if st_dists args = [] then bind_res (listdir t [''stubs'']) (\<lambda>names. Inr (sort names)) else Inr (st_dists args))"

definition stubtest_third_party_main :: "'v mypy_ctx \<Rightarrow> string \<Rightarrow> path \<Rightarrow> stubtest_args \<Rightarrow> unit io" where
  "stubtest_third_party_main ctx sys_platform tmp args =
     bind_io (lift (stubtest_dists (ctx_tree ctx) args)) (\<lambda>dists.
     bind_io (stubtest_loop (run_stubtest ctx sys_platform tmp (st_verbose args) (st_specified_platforms_only args))
         (st_num_shards args) (st_shard_index args) 0 dists 0) (\<lambda>result.
       raise (SystemExit result)))"

subsection \<open>The standard library\<close>

record python_version =
  py_major :: nat
  py_minor :: nat

definition stdlib_allowlists :: path where
  "stdlib_allowlists = [''tests'', ''stubtest_allowlists'']"

definition stubtest_stdlib_cmd :: "'v mypy_ctx \<Rightarrow> string \<Rightarrow> python_version \<Rightarrow> string \<Rightarrow> string list" where
  "stubtest_stdlib_cmd ctx sys_platform v python =
     (let version_allowlist = ''py'' @ show_nat (py_major v) @ show_nat (py_minor v) @ ''.txt'';
          platform_allowlist = sys_platform @ ''.txt'';
          combined_allowlist = sys_platform @ ''-py'' @ show_nat (py_major v) @ show_nat (py_minor v) @ ''.txt''
      in [python, ''-m'', ''mypy.stubtest'', ''--check-typeshed'', ''--custom-typeshed-dir'', ''.'',
          ''--allowlist'', as_posix (stdlib_allowlists @ [''py3_common.txt'']),
          ''--allowlist'', as_posix (stdlib_allowlists @ [version_allowlist])] @
         (if fs_exists (ctx_tree ctx) (stdlib_allowlists @ [platform_allowlist])
          then [''--allowlist'', as_posix (stdlib_allowlists @ [platform_allowlist])] else []) @
         (if fs_exists (ctx_tree ctx) (stdlib_allowlists @ [combined_allowlist])
          then [''--allowlist'', as_posix (stdlib_allowlists @ [combined_allowlist])] else []) @
         (if (py_major v, py_minor v) < (3, 10) then [''--ignore-positional-only''] else []))"

definition check_run_or_print :: "'v mypy_ctx \<Rightarrow> string list \<Rightarrow> unit io" where
  "check_run_or_print ctx cmd =
     bind_io (run (ctx_env ctx) cmd) (\<lambda>p.
       if returncode p \<noteq> 0 then seq (emit (Print (stderr p))) (raise (CalledProcessError (returncode p))) else ret ())"

definition stubtest_stdlib_main :: "'v mypy_ctx \<Rightarrow> string \<Rightarrow> python_version \<Rightarrow> path \<Rightarrow> unit io" where
  "stubtest_stdlib_main ctx sys_platform v tmp =
     seq (emit (Print ''Setting up an isolated virtual environment...''))
     (bind_io (make_venv_or_fail ctx tmp) (\<lambda>venv.
      bind_io (get_mypy_req (ctx_env ctx)) (\<lambda>mypy_req.
      seq (check_run_or_print ctx [pip_exe venv, ''install'', mypy_req])
      (seq (check_run_or_print ctx [pip_exe venv, ''uninstall'', ''-y'', ''setuptools''])
      (let cmd = stubtest_stdlib_cmd ctx sys_platform v (python_exe venv) in
       seq (emit (Print (join_with '' '' cmd)))
       (bind_io (run (ctx_env ctx) cmd) (\<lambda>p.
        if returncode p \<noteq> 0
        then seq (emit (Print (nl @ ''NB: stubtest output depends on the Python version (and system) it is run with. '' @
                 ''See README.md for more details.'' @ nl @ ''NB: We only check positional-only arg accuracy for Python 3.10.'' @ nl @
                 nl @ ''Command run was: '' @ join_with '' '' cmd @ nl)))
             (seq (emit (Print (nl @ nl)))
             (seq (emit (Print (''To fix \"unused allowlist\" errors, remove the corresponding entries from '' @ as_posix stdlib_allowlists)))
              (raise (SystemExit (returncode p)))))
        else seq (emit (Print ''stubtest succeeded'')) (raise (SystemExit 0)))))))))"

section \<open>Properties\<close>

subsection \<open>Shards\<close>

definition shard_from :: "int \<Rightarrow> int \<Rightarrow> int \<Rightarrow> 'a list \<Rightarrow> 'a list" where
  "shard_from n k i xs = map snd (filter (\<lambda>(j, x). (i + int j) mod n = k) (enumerate 0 xs))"

abbreviation shard :: "int \<Rightarrow> int \<Rightarrow> 'a list \<Rightarrow> 'a list" where
  "shard n k xs \<equiv> shard_from n k 0 xs"

lemma shard_from_Nil [simp]: "shard_from n k i [] = []"
  by (simp add: shard_from_def)

lemma shard_from_Cons [simp]:
  "shard_from n k i (x # xs) = (if i mod n = k then [x] else []) @ shard_from n k (i + 1) xs"
proof -
  have "enumerate (Suc 0) xs = map (\<lambda>(j, y). (Suc j, y)) (enumerate 0 xs)"
    by (simp add: enumerate_eq_zip zip_map1 upt_conv_Cons del: upt_Suc flip: map_Suc_upt)
  then show ?thesis
    by (simp add: shard_from_def filter_map comp_def split_def add.assoc)
qed

lemma shard_one [simp]: "shard_from 1 0 i xs = xs"
  by (induction xs arbitrary: i) auto

lemma stubtest_loop_shard:
  "n \<noteq> 0 \<Longrightarrow> stubtest_loop test n k i xs r = stubtest_loop test 1 0 j (shard_from n k i xs) r"
  by (induction xs arbitrary: i j r) (auto intro!: arg_cong [where f = "bind_io (test _)"] ext)

lemma mset_shards: "0 < n \<Longrightarrow> (\<Sum>k \<in> {0..<n}. mset (shard_from n k i xs)) = mset xs"
proof (induction xs arbitrary: i)
  case (Cons x xs)
  have "i mod n \<in> {0..<n}" using Cons.prems by simp
  then have one: "(\<Sum>k \<in> {0..<n}. mset (if i mod n = k then [x] else [])) = {#x#}"
    by (simp add: if_distrib [of mset] sum.delta cong: if_cong)
  have "(\<Sum>k \<in> {0..<n}. mset (shard_from n k i (x # xs))) =
      (\<Sum>k \<in> {0..<n}. mset (if i mod n = k then [x] else [])) + (\<Sum>k \<in> {0..<n}. mset (shard_from n k (i + 1) xs))"
    by (simp add: sum.distrib)
  with one Cons show ?case by simp
qed simp

lemma shard_outside: "0 < n \<Longrightarrow> k \<notin> {0..<n} \<Longrightarrow> shard_from n k i xs = []"
proof (induction xs arbitrary: i)
  case (Cons x xs)
  then have "i mod n \<noteq> k" using pos_mod_bound [of n i] pos_mod_sign [of n i] by auto
  with Cons show ?case by simp
qed simp

text \<open>C35: With \<^verbatim>\<open>--num-shards n\<close>, the shards \<open>0, \<dots>, n - 1\<close> divide the distributions among them without loss or
  repetition, each shard runs as an unsharded run on its part would, and an index outside the range runs nothing.\<close>

theorem stubtest_shards_partition:
  assumes "0 < n"
  shows "(\<Sum>k \<in> {0..<n}. mset (shard n k dists)) = mset dists \<and>
    stubtest_loop test n k 0 dists 0 = stubtest_loop test 1 0 0 (shard n k dists) 0 \<and>
    (if 0 \<le> k \<and> k < n then True else stubtest_loop test n k 0 dists 0 = ret 0)"
  using assms mset_shards [of n 0 dists] stubtest_loop_shard [of n test k 0 dists 0 0] shard_outside [of n k 0 dists] by auto

theorem stubtest_shards_partition_witness:
  "mset (shard 2 0 [''six'', ''toml'', ''zmq'']) + mset (shard 2 1 [''six'', ''toml'', ''zmq'']) = mset [''six'', ''toml'', ''zmq'']"
proof -
  have "(\<Sum>k \<in> {0..<2 :: int}. mset (shard 2 k [''six'', ''toml'', ''zmq''])) = mset [''six'', ''toml'', ''zmq'']"
    using stubtest_shards_partition [of 2 "[''six'', ''toml'', ''zmq'']"] by (simp only: zero_less_numeral simp_thms)
  moreover have "{0..<2 :: int} = {0, 1}" by auto
  ultimately show ?thesis by simp
qed

subsection \<open>What exit status 0 means\<close>

lemma extends: "emits (\<lambda>_. True) m \<Longrightarrow> m tr = (r, tr') \<Longrightarrow> \<exists>evs. tr' = tr @ evs"
  using emitsD by blast

text \<open>\<open>stubtest_passed\<close>: within the trace the stubtest command of the distribution was run and returned 0.\<close>

definition stubtest_passed :: "'v mypy_ctx \<Rightarrow> string \<Rightarrow> string \<Rightarrow> StubMetadata \<Rightarrow> VenvInfo \<Rightarrow> event list \<Rightarrow> bool" where
  "stubtest_passed ctx sys_platform d metadata venv tr \<longleftrightarrow>
     (\<exists>reqs cmd pre post. get_recursive_requirements (ctx_limit ctx) (ctx_pk ctx) (ctx_repo ctx) d = Inr reqs \<and>
        stubtest_cmd ctx sys_platform d metadata (python_exe venv) = Inr cmd \<and>
        tr = pre @ Call (with_env (stubtest_mypypath ctx d (typeshed_pkgs reqs)) cmd) # post \<and>
        returncode (env_run (ctx_env ctx) pre (with_env (stubtest_mypypath ctx d (typeshed_pkgs reqs)) cmd)) = 0)"

lemma stubtest_passed_append: "stubtest_passed ctx p d md v tr \<Longrightarrow> stubtest_passed ctx p d md v (tr @ evs)"
  unfolding stubtest_passed_def by fastforce

lemma prints_emit:
  "emits (\<lambda>_. True) (print_the_commands a b c)" "emits (\<lambda>_. True) (print_command_output p)"
  "emits (\<lambda>_. True) (print_command_failure m p)" "emits (\<lambda>_. True) print_success_msg"
  "emits (\<lambda>_. True) (get_mypy_req en)" "emits (\<lambda>_. True) (make_venv en w d)" "emits (\<lambda>_. True) (make_venv_or_fail ctx d)"
  unfolding print_the_commands_def print_command_output_def print_command_failure_def print_success_msg_def
    get_mypy_req_def make_venv_def make_venv_or_fail_def
  by (intro emits_rules; auto intro: emits_rules)+

lemma run_stubtest_cmd_passed:
  assumes "run_stubtest_cmd ctx verbose d pip pip_cmd mypypath cmd tr = (Inr True, tr')"
  shows "returncode (env_run (ctx_env ctx) tr (with_env mypypath cmd)) = 0 \<and> (\<exists>post. tr' = tr @ Call (with_env mypypath cmd) # post)"
proof -
  let ?report = "seq print_success_msg (seq (if verbose then print_the_commands pip_cmd cmd mypypath else ret ()) (ret True))"
  have zero: "returncode (env_run (ctx_env ctx) tr (with_env mypypath cmd)) = 0"
    using assms by (auto simp: run_stubtest_cmd_def bind_io_Inr seq_Inr io_run(1,5) split: if_splits)
  then have "?report (tr @ [Call (with_env mypypath cmd)]) = (Inr True, tr')"
    using assms by (simp add: run_stubtest_cmd_def bind_io_Inr io_run(5))
  moreover have "emits (\<lambda>_. True) ?report" by (intro emits_rules prints_emit)
  ultimately obtain evs where "tr' = (tr @ [Call (with_env mypypath cmd)]) @ evs" using extends by blast
  with zero show ?thesis by simp
qed

lemma stubtest_in_venv_passed:
  assumes "stubtest_in_venv ctx sys_platform verbose d metadata venv tr = (Inr True, tr')"
  shows "stubtest_passed ctx sys_platform d metadata venv tr'"
proof -
  from assms obtain reqs pip_cmd tr1 cmd where
    "get_recursive_requirements (ctx_limit ctx) (ctx_pk ctx) (ctx_repo ctx) d = Inr reqs"
    "stubtest_cmd ctx sys_platform d metadata (python_exe venv) = Inr cmd" and
    run: "run_stubtest_cmd ctx verbose d (pip_exe venv) pip_cmd (stubtest_mypypath ctx d (typeshed_pkgs reqs)) cmd tr1 = (Inr True, tr')"
    unfolding stubtest_in_venv_def Let_def
    by (auto simp: bind_io_Inr seq_Inr io_run(1,4,5) simp del: append.simps split: if_splits)
  with run_stubtest_cmd_passed [OF run] show ?thesis unfolding stubtest_passed_def by blast
qed

definition excused :: "string \<Rightarrow> bool \<Rightarrow> StubMetadata \<Rightarrow> bool" where
  "excused sys_platform specified_only metadata \<longleftrightarrow>
     skipped (stubtest_settings metadata) \<or> specified_only \<and> sys_platform \<notin> set (platforms (stubtest_settings metadata))"

lemma run_stubtest_passed:
  assumes "run_stubtest ctx sys_platform tmp verbose specified_only d tr = (Inr True, tr')"
  shows "\<exists>metadata. read_metadata (ctx_pk ctx) (ctx_repo ctx) d = Inr metadata \<and>
    (excused sys_platform specified_only metadata \<or> (\<exists>venv. stubtest_passed ctx sys_platform d metadata venv tr'))"
proof -
  from assms obtain metadata where md: "read_metadata (ctx_pk ctx) (ctx_repo ctx) d = Inr metadata"
    by (auto simp: run_stubtest_def bind_io_Inr io_run(4))
  have "\<exists>venv tr1. stubtest_in_venv ctx sys_platform verbose d metadata venv tr1 = (Inr True, tr')"
    if "\<not> excused sys_platform specified_only metadata"
    using assms that md
    by (auto simp: run_stubtest_def Let_def excused_def bind_io_Inr seq_Inr io_run(1,3,4,5) simp del: append.simps split: if_splits)
  with md stubtest_in_venv_passed show ?thesis by blast
qed

lemma report_emits: "emits (\<lambda>_. True) (report_stubtest_failure ctx d pip pip_cmd cmd mypypath p)"
  unfolding report_stubtest_failure_def by (intro emits_rules prints_emit) auto

lemma run_stubtest_emits: "emits (\<lambda>_. True) (run_stubtest ctx sys_platform tmp verbose specified_only d)"
  unfolding run_stubtest_def stubtest_in_venv_def run_stubtest_cmd_def by (intro emits_rules prints_emit report_emits TrueI)

text \<open>With one shard the index does not matter, and the loop has the common form.\<close>

lemma stubtest_loop_index: "stubtest_loop test 1 0 i xs r = stubtest_loop test 1 0 j xs r"
proof (induction xs arbitrary: i j r)
  case (Cons x xs)
  show ?case using Cons.IH [of "i + 1" _ "j + 1"] by simp
qed simp

interpretation sl: effect_loop "stubtest_loop test 1 0 0" "\<lambda>d r. bind_io (test d) (\<lambda>good. ret (if \<not> good then 1 else r))" for test
  by unfold_locales (simp_all add: bind_io_assoc stubtest_loop_index [of _ 1 _ _ 0])

definition passed_in :: "('a \<Rightarrow> bool io) \<Rightarrow> 'a \<Rightarrow> event list \<Rightarrow> event list \<Rightarrow> bool" where
  "passed_in test d tr evs \<longleftrightarrow> (\<exists>pre mid post. evs = pre @ mid @ post \<and> test d (tr @ pre) = (Inr True, tr @ pre @ mid))"

lemma passed_in_append:
  "passed_in test d tr e1 \<Longrightarrow> passed_in test d tr (e1 @ e2)" "passed_in test d (tr @ e1) e2 \<Longrightarrow> passed_in test d tr (e1 @ e2)"
  unfolding passed_in_def by (metis append.assoc)+

lemma stubtest_loop_zero:
  assumes "\<And>d. emits (\<lambda>_. True) (test d)" and "stubtest_loop test 1 0 0 ds 0 tr = (Inr 0, tr')" "d \<in> set ds"
  shows "\<exists>t t' evs. test d t = (Inr True, t') \<and> tr' = t' @ evs"
proof -
  have test: "ensures (test d) (\<lambda>tr good evs. good \<longrightarrow> passed_in test d tr evs)" for d
    unfolding ensures_def passed_in_def using emitsD [OF assms(1)] by (metis append_Nil append_Nil2)
  have "ensures (stubtest_loop test 1 0 0 ds 0)
      (\<lambda>tr r evs. (r = 0 \<longrightarrow> (0::int) = 0) \<and> (\<forall>d \<in> set ds. r = 0 \<longrightarrow> passed_in test d tr evs))"
    by (rule sl.loop_ensures, rule ensures_bind [OF test ensures_ret_eq]) (auto intro: passed_in_append)
  from ensuresD [OF this assms(2)] assms(3) obtain evs where "tr' = tr @ evs" "passed_in test d tr evs" by auto
  then show ?thesis unfolding passed_in_def by (metis append.assoc)
qed

text \<open>C36: When the loop over the distributions of a shard ends with result 0, the exit status of the program, then for each of
  them either its metadata excuses it (marked as skipped, or not for this platform under
  \<^verbatim>\<open>--specified-platforms-only\<close>), or the run contains its stubtest command, on its packages, modules and
  allowlists, with return code 0.\<close>

theorem stubtest_zero_means_passed:
  assumes "stubtest_loop (run_stubtest ctx sys_platform tmp verbose specified_only) n k 0 dists 0 tr = (Inr 0, tr')"
    and "n \<noteq> 0" "d \<in> set (shard n k dists)"
  shows "\<exists>metadata. read_metadata (ctx_pk ctx) (ctx_repo ctx) d = Inr metadata \<and>
    (excused sys_platform specified_only metadata \<or> (\<exists>venv. stubtest_passed ctx sys_platform d metadata venv tr'))"
proof -
  have "stubtest_loop (run_stubtest ctx sys_platform tmp verbose specified_only) 1 0 0 (shard n k dists) 0 tr = (Inr 0, tr')"
    using assms(1) stubtest_loop_shard [OF assms(2)] by metis
  from stubtest_loop_zero [OF run_stubtest_emits this assms(3)] obtain t t' evs where
    "run_stubtest ctx sys_platform tmp verbose specified_only d t = (Inr True, t')" "tr' = t' @ evs" by blast
  with run_stubtest_passed [OF this(1)] stubtest_passed_append show ?thesis by blast
qed

theorem stubtest_zero_means_passed_witness:
  "\<exists>metadata venv. stubtest_passed (ex_mypy_ctx (\<lambda>_. 0) Parse_Metadata.ex_repo) ''linux'' ''caldav'' metadata venv
     (snd (stubtest_loop (run_stubtest (ex_mypy_ctx (\<lambda>_. 0) Parse_Metadata.ex_repo) ''linux'' [''tmp''] False False) 1 0 0 [''caldav''] 0 []))"
proof -
  let ?c = "ex_mypy_ctx (\<lambda>_. 0) Parse_Metadata.ex_repo"
  let ?r = "stubtest_loop (run_stubtest ?c ''linux'' [''tmp''] False False) 1 0 0 [''caldav''] 0 []"
  have "fst ?r = Inr 0" by code_simp
  then have run: "?r = (Inr 0, snd ?r)" by (metis prod.collapse)
  have sel: "''caldav'' \<in> set (shard 1 0 [''caldav''])" by simp
  have no: "\<not> excused ''linux'' False (projr (read_metadata (ctx_pk ?c) (ctx_repo ?c) ''caldav''))" by code_simp
  from stubtest_zero_means_passed [OF run _ sel] obtain md where md: "read_metadata (ctx_pk ?c) (ctx_repo ?c) ''caldav'' = Inr md"
    "excused ''linux'' False md \<or> (\<exists>venv. stubtest_passed ?c ''linux'' ''caldav'' md venv (snd ?r))" by auto
  have "\<not> excused ''linux'' False md" using no unfolding md(1) sum.sel .
  with md(2) show ?thesis by blast
qed

end
