(* ===== verification/Regr_Test.thy ===== *)
theory Regr_Test
  imports Mypy_Test Effect_Loops
begin

section \<open>Running mypy on the test cases\<close>

text \<open>
  \<^verbatim>\<open>src/tests/regr_test.py\<close>, from the parsed arguments on, in the surroundings \<open>mypy_ctx\<close>. Copying a tree and
  creating a directory are commands of the trace; what the temporary directory then contains is read from
  the environment's file tree. The temporary directory of each package is an argument. The messages printed for
  \<^verbatim>\<open>--verbosity VERBOSE\<close> only are left out.
\<close>

datatype verbosity = QUIET | NORMAL | VERBOSE

definition package_with_test_cases :: "fs \<Rightarrow> string \<Rightarrow> PackageInfo res" where
  "package_with_test_cases t package_name =
     (if package_name = ''stdlib'' then Inr \<lparr>pkg_name = ''stdlib'', test_case_directory = [''test_cases'']\<rparr>
      else let test_case_dir = testcase_dir_from_package_name package_name in
        if fs_is_dir t test_case_dir
        then bind_res (listdir t test_case_dir) (\<lambda>names.
               if names = [] then Inl ArgumentTypeError
               else Inr \<lparr>pkg_name = package_name, test_case_directory = test_case_dir\<rparr>)
        else Inl ArgumentTypeError)"

definition copytree :: "env \<Rightarrow> path \<Rightarrow> path \<Rightarrow> unit io" where
  "copytree en src dst = check_call en [''shutil.copytree'', as_posix src, as_posix dst]"

definition setup_testcase_dir :: "'v mypy_ctx \<Rightarrow> PackageInfo \<Rightarrow> path \<Rightarrow> path \<Rightarrow> unit io" where
  "setup_testcase_dir ctx package tempdir new_test_case_dir =
     seq (copytree (ctx_env ctx) (test_case_directory package) new_test_case_dir)
     (if is_stdlib package then ret ()
      else
        let new_typeshed = tempdir @ [''typeshed''] in
        seq (check_call (ctx_env ctx) [''mkdir'', as_posix new_typeshed])
        (seq (copytree (ctx_env ctx) [''stdlib''] (new_typeshed @ [''stdlib'']))
        (bind_io (lift (get_recursive_requirements (ctx_limit ctx) (ctx_pk ctx) (ctx_repo ctx) (pkg_name package))) (\<lambda>reqs.
         seq (for_each (\<lambda>r. copytree (ctx_env ctx) [''stubs'', r] (new_typeshed @ [''stubs'', r]))
               (ctx_set_order ctx (sorted_set (pkg_name package # typeshed_pkgs reqs @ [''mypy-extensions'']))))
         (if external_pkgs reqs \<noteq> []
          then bind_io (make_venv (ctx_env ctx) (ctx_win32 ctx) (tempdir @ [''.venv''])) (\<lambda>v.
               bind_io (get_mypy_req (ctx_env ctx)) (\<lambda>req.
               bind_io (run (ctx_env ctx) ([pip_exe v, ''install'', req] @ external_pkgs reqs)) (\<lambda>p.
                 if returncode p \<noteq> 0 then seq (emit (Print (stderr p))) (raise (CalledProcessError (returncode p))) else ret ())))
          else ret ())))))"

subsection \<open>Which test cases\<close>

text \<open>\<^verbatim>\<open>.*-py3(\d{1,2})\<close>, under \<^verbatim>\<open>fullmatch\<close>.\<close>

definition min_version_re :: regex where
  "min_version_re =
     Seq (Many (\<lambda>c. c \<noteq> CHR 0x0A)) (Seq (lit ''-py3'') (Group 1 (Seq (Chars is_digit) (Opt (Chars is_digit)))))"

definition python_minor_version :: "string \<Rightarrow> nat res" where
  "python_minor_version v = bind_res (py_index (split_on CHR ''.'' v) 1) int_of_str"

definition test_case_runs :: "string \<Rightarrow> path \<Rightarrow> bool res" where
  "test_case_runs ver p =
     (case re_fullmatch min_version_re (path_stem p) of
        None \<Rightarrow> Inr True
      | Some cs \<Rightarrow>
          let minor_version_required = int_of_digits (dict_get cs 1 []) in
          bind_res (assert_res (''3.'' @ show_nat minor_version_required \<in> set SUPPORTED_VERSIONS)) (\<lambda>_.
          bind_res (python_minor_version ver) (\<lambda>minor.
            Inr (\<not> minor_version_required > minor))))"

fun select_test_cases :: "string \<Rightarrow> path list \<Rightarrow> path list res" where
  "select_test_cases ver [] = Inr []"
| "select_test_cases ver (p # ps) =
     bind_res (test_case_runs ver p) (\<lambda>b.
     bind_res (select_test_cases ver ps) (\<lambda>qs. Inr (if b then p # qs else qs)))"

subsection \<open>Running\<close>

definition glob_all :: "fs \<Rightarrow> path \<Rightarrow> path list" where
  "glob_all t p = (case fs_lookup t p of Some (Dir es) \<Rightarrow> map (\<lambda>(n, c). p @ [n]) es | _ \<Rightarrow> [])"

definition testcase_command :: "'v mypy_ctx \<Rightarrow> PackageInfo \<Rightarrow> string \<Rightarrow> string \<Rightarrow> path \<Rightarrow> fs \<Rightarrow> string list res" where
  "testcase_command ctx package ver platform tempdir t =
     bind_res (select_test_cases ver (rglob_ext t (tempdir @ [''test_cases'']) ''.py'')) (\<lambda>files.
     let flags = [''--python-version'', ver, ''--show-traceback'', ''--no-error-summary'', ''--platform'', platform,
           ''--strict'', ''--pretty''];
         has_venv = fs_exists t (tempdir @ [''.venv'']);
         python = (if \<not> is_stdlib package \<and> has_venv
           then python_exe (of_existing_venv (ctx_win32 ctx) (tempdir @ [''.venv''])) else ctx_python ctx);
         site = (if is_stdlib package \<or> \<not> has_venv then [''--no-site-packages''] else []);
         custom_typeshed = (if is_stdlib package then ctx_root ctx else tempdir @ [''typeshed'']);
         env_vars = (if is_stdlib package then []
           else [''MYPYPATH='' @ join_with (if ctx_win32 ctx then '';'' else '':'')
             (map as_posix (glob_all t (custom_typeshed @ [''stubs''])))])
     in Inr (env_vars @ [python, ''-m'', ''mypy''] @ flags @ site @ [''--custom-typeshed-dir'', as_posix custom_typeshed] @
          map as_posix files))"

definition run_testcases :: "'v mypy_ctx \<Rightarrow> PackageInfo \<Rightarrow> string \<Rightarrow> string \<Rightarrow> path \<Rightarrow> proc io" where
  "run_testcases ctx package ver platform tempdir =
     bind_io (get_fs (ctx_env ctx)) (\<lambda>t0.
     seq (if \<not> fs_is_dir t0 (tempdir @ [''test_cases''])
          then setup_testcase_dir ctx package tempdir (tempdir @ [''test_cases'']) else ret ())
     (bind_io (get_fs (ctx_env ctx)) (\<lambda>t.
      bind_io (lift (testcase_command ctx package ver platform tempdir t)) (run (ctx_env ctx)))))"

definition test_testcase_directory ::
  "'v mypy_ctx \<Rightarrow> PackageInfo \<Rightarrow> string \<Rightarrow> string \<Rightarrow> verbosity \<Rightarrow> path \<Rightarrow> int io" where
  "test_testcase_directory ctx package ver platform verbosity tempdir =
     (let msg = ''Running mypy --platform '' @ platform @ '' --python-version '' @ ver @ '' on the '' @
            (if is_stdlib package then ''standard library test cases...''
             else ''test cases for '' @ repr_str (pkg_name package) @ ''...'');
          replacements = (as_posix (tempdir @ [''test_cases'']), as_posix (test_case_directory package))
      in seq (if verbosity \<noteq> QUIET then emit (Print msg) else ret ())
         (bind_io (run_testcases ctx package ver platform tempdir) (\<lambda>result.
          seq
            (if returncode result \<noteq> 0
             then seq (if verbosity = QUIET then emit (Print msg) else ret ())
                 (seq (print_error (''failure'' @ nl) ([], []))
                 (seq (if stderr result \<noteq> [] then print_error (stderr result) replacements else ret ())
                 (if stdout result \<noteq> [] then print_error (stdout result) replacements else ret ())))
             else if verbosity \<noteq> QUIET then print_success_msg else ret ())
            (ret (returncode result)))))"

fun regr_loop :: "(PackageInfo \<times> string \<times> string \<Rightarrow> int io) \<Rightarrow> (PackageInfo \<times> string \<times> string) list \<Rightarrow> int \<Rightarrow> int io" where
  "regr_loop test [] code = ret code"
| "regr_loop test (x # xs) code = bind_io (test x) (\<lambda>this_code. regr_loop test xs (max code this_code))"

record regr_args =
  rg_packages :: "PackageInfo list"
  rg_all :: bool
  rg_verbosity :: verbosity
  rg_platforms :: "string list"
  rg_versions :: "string list"

text \<open>\<^verbatim>\<open>parser.error\<close> exits with status 2.\<close>

definition regr_configurations :: "string \<Rightarrow> nat \<Rightarrow> regr_args \<Rightarrow> (string \<times> string) list res" where
  "regr_configurations sys_platform sys_minor args =
     (if rg_all args
      then if rg_platforms args \<noteq> [] then Inl (SystemExit 2)
        else if rg_versions args \<noteq> [] then Inl (SystemExit 2)
        else Inr (py_product [''linux'', ''darwin'', ''win32''] SUPPORTED_VERSIONS)
      else Inr (py_product (or_default (rg_platforms args) [sys_platform])
        (or_default (rg_versions args) [''3.'' @ show_nat sys_minor])))"

definition regr_test_main :: "'v mypy_ctx \<Rightarrow> string \<Rightarrow> nat \<Rightarrow> (string \<Rightarrow> path) \<Rightarrow> regr_args \<Rightarrow> int io" where
  "regr_test_main ctx sys_platform sys_minor tempdir_of args =
     bind_io (lift (if rg_packages args \<noteq> [] then Inr (rg_packages args) else get_all_testcase_directories (ctx_tree ctx))) (\<lambda>dirs.
     bind_io (lift (regr_configurations sys_platform sys_minor args)) (\<lambda>confs.
     bind_io (regr_loop
        (\<lambda>(package, platform, ver).
           test_testcase_directory ctx package ver platform (rg_verbosity args) (tempdir_of (pkg_name package)))
        (py_product dirs confs) 0) (\<lambda>code.
     seq (if code \<noteq> 0 then print_error (nl @ ''Test completed with errors'') ([], [])
          else emit (Print (nl @ ''Test completed successfully!'')))
       (ret code))))"

section \<open>Properties\<close>

text \<open>The version that the name of a test case asks for.\<close>

definition min_version_suffix :: "string \<Rightarrow> string \<Rightarrow> bool" where
  "min_version_suffix stem ds \<longleftrightarrow>
     (\<exists>w. stem = w @ ''-py3'' @ ds \<and> CHR 0x0A \<notin> set w) \<and> list_all is_digit ds \<and> (length ds = 1 \<or> length ds = 2)"

lemma min_version_suffix_unique:
  assumes "min_version_suffix stem ds" "min_version_suffix stem ds'"
  shows "ds = ds'"
proof -
  obtain w w' where eq: "w @ ''-py3'' @ ds = w' @ ''-py3'' @ ds'" and digits: "list_all is_digit ds" "list_all is_digit ds'"
    using assms by (auto simp: min_version_suffix_def)
  have "rev (w @ ''-py3'' @ ds) = rev (w' @ ''-py3'' @ ds')" by (simp only: eq)
  then have "(rev ds @ ''3'') @ CHR ''y'' # ''p-'' @ rev w = (rev ds' @ ''3'') @ CHR ''y'' # ''p-'' @ rev w'"
    by (simp only: rev_append rev.simps append.simps append_assoc)
  moreover have "\<not> is_digit CHR ''y''" "is_digit CHR ''3''" by code_simp+
  ultimately have "rev ds @ ''3'' = rev ds' @ ''3''"
    using class_run_unique [of "rev ds @ ''3''" "CHR ''y''" "''p-'' @ rev w" "rev ds' @ ''3''" "CHR ''y''" "''p-'' @ rev w'" is_digit] digits by simp
  then show ?thesis by simp
qed

lemma accepts_digits:
  "accepts (Seq (Chars is_digit) (Opt (Chars is_digit))) b a cs b' a' cs' \<longleftrightarrow>
     (\<exists>ds. a = ds @ a' \<and> b' = rev ds @ b \<and> list_all is_digit ds \<and> (length ds = 1 \<or> length ds = 2) \<and> cs' = cs)" (is "_ \<longleftrightarrow> ?R")
proof
  assume "accepts (Seq (Chars is_digit) (Opt (Chars is_digit))) b a cs b' a' cs'"
  then consider c where "a = c # a'" "b' = c # b" "is_digit c" "cs' = cs"
    | c d where "a = c # d # a'" "b' = d # c # b" "is_digit c" "is_digit d" "cs' = cs"
    by (auto simp: accepts_shape)
  then show ?R
  proof cases
    case (1 c)
    then show ?thesis by (intro exI [of _ "[c]"]) simp
  next
    case (2 c d)
    then show ?thesis by (intro exI [of _ "[c, d]"]) simp
  qed
next
  assume ?R
  then obtain ds where ds: "a = ds @ a'" "b' = rev ds @ b" "list_all is_digit ds" "length ds = 1 \<or> length ds = 2" "cs' = cs" by blast
  then consider c where "ds = [c]" | c d where "ds = [c, d]" by (auto simp: length_Suc_conv numeral_2_eq_2)
  then show "accepts (Seq (Chars is_digit) (Opt (Chars is_digit))) b a cs b' a' cs'"
    by cases (use ds in \<open>auto simp: accepts_shape\<close>)
qed

lemma re_fullmatch_SomeD:
  assumes "re_fullmatch r s = Some cs"
  shows "\<exists>b. accepts r [] s [] b [] cs"
proof -
  obtain b a where "find (\<lambda>(p, cs). snd p = []) (runs r ([], s) []) = Some ((b, a), cs)"
    using assms by (auto simp: re_fullmatch_def)
  then have "((b, a), cs) \<in> set (runs r ([], s) [])" "a = []"
    by (auto simp: find_Some_iff in_set_conv_nth)
  then show ?thesis by (auto simp: runs_iff_accepts)
qed

lemma re_fullmatch_NoneD: "re_fullmatch r s = None \<Longrightarrow> \<not> accepts r [] s [] b [] cs"
  unfolding re_fullmatch_def by (auto simp: find_None_iff runs_iff_accepts [symmetric])

lemma accepts_min_version_re:
  "accepts min_version_re [] stem [] b [] cs \<longleftrightarrow> (\<exists>ds. min_version_suffix stem ds \<and> cs = [(1, ds)] \<and> b = rev stem)"
proof
  assume "accepts min_version_re [] stem [] b [] cs"
  then obtain b1 a1 cs1 b2 a2 cs2 where
    "accepts (Many (\<lambda>c. c \<noteq> CHR 0x0A)) [] stem [] b1 a1 cs1" "accepts (lit ''-py3'') b1 a1 cs1 b2 a2 cs2"
    "accepts (Group 1 (Seq (Chars is_digit) (Opt (Chars is_digit)))) b2 a2 cs2 b [] cs"
    unfolding min_version_re_def accepts_simps(3) by blast
  then obtain w ds where h: "list_all (\<lambda>c. c \<noteq> CHR 0x0A) w" "stem = w @ a1" "b1 = rev w" "cs1 = []"
    "a1 = ''-py3'' @ a2" "b2 = rev ''-py3'' @ b1" "cs2 = cs1"
    "a2 = ds" "b = rev ds @ b2" "list_all is_digit ds" "length ds = 1 \<or> length ds = 2" "cs = AList.update 1 ds cs2"
    unfolding accepts_simps(5) accepts_lit accepts_Group accepts_digits by auto
  have "CHR 0x0A \<notin> set w" using h(1) by (auto simp: list_all_iff)
  then have "min_version_suffix stem ds"
    unfolding min_version_suffix_def h(2) h(5) h(8) using h(10,11) by blast
  moreover have "b = rev stem" unfolding h(2) h(5) h(8) h(9) h(6) h(3) by (simp only: rev_append append_assoc)
  moreover have "cs = [(1, ds)]" using h(4,7,12) by simp
  ultimately show "\<exists>ds. min_version_suffix stem ds \<and> cs = [(1, ds)] \<and> b = rev stem" by blast
next
  assume "\<exists>ds. min_version_suffix stem ds \<and> cs = [(1, ds)] \<and> b = rev stem"
  then obtain w ds where h: "stem = w @ ''-py3'' @ ds" "CHR 0x0A \<notin> set w" "list_all is_digit ds" "length ds = 1 \<or> length ds = 2"
      "cs = AList.update 1 ds []" "b = rev ds @ rev ''-py3'' @ rev w"
    by (auto simp: min_version_suffix_def)
  have "accepts (Many (\<lambda>c. c \<noteq> CHR 0x0A)) [] (w @ ''-py3'' @ ds) [] (rev w @ []) (''-py3'' @ ds) []"
    by (rule acc_many) (use h(2) in \<open>auto simp: list_all_iff\<close>)
  then have m1: "accepts (Many (\<lambda>c. c \<noteq> CHR 0x0A)) [] (w @ ''-py3'' @ ds) [] (rev w) (''-py3'' @ ds) []"
    by (simp only: append_Nil2)
  have m2: "accepts (lit ''-py3'') (rev w) (''-py3'' @ ds) [] (rev ''-py3'' @ rev w) ds []"
    by (simp only: accepts_lit simp_thms)
  have "accepts (Group 1 (Seq (Chars is_digit) (Opt (Chars is_digit)))) (rev ''-py3'' @ rev w) (ds @ []) []
      (rev ds @ rev ''-py3'' @ rev w) [] (AList.update 1 ds [])"
    by (rule acc_group) (use h(3,4) in \<open>simp add: accepts_digits\<close>)
  then have m3: "accepts (Group 1 (Seq (Chars is_digit) (Opt (Chars is_digit)))) (rev ''-py3'' @ rev w) ds []
      (rev ds @ rev ''-py3'' @ rev w) [] (AList.update 1 ds [])"
    by (simp only: append_Nil2)
  show "accepts min_version_re [] stem [] b [] cs"
    unfolding min_version_re_def h(1,5,6) by (rule acc_seq [OF m1 acc_seq [OF m2 m3]])
qed

lemma min_version_re_match:
  "(case re_fullmatch min_version_re stem of None \<Rightarrow> \<nexists>ds. min_version_suffix stem ds
    | Some cs \<Rightarrow> min_version_suffix stem (dict_get cs 1 []))"
proof (cases "re_fullmatch min_version_re stem")
  case None
  then show ?thesis
    using re_fullmatch_NoneD [OF None] accepts_min_version_re [of stem] by (simp only: option.case) blast
next
  case (Some cs)
  then obtain b where "accepts min_version_re [] stem [] b [] cs" using re_fullmatch_SomeD by blast
  with Some show ?thesis by (auto simp: accepts_min_version_re dict_get_def)
qed

lemma test_case_runs_iff:
  assumes "python_minor_version ver = Inr minor" "test_case_runs ver p = Inr b"
  shows "b \<longleftrightarrow> (\<forall>ds. min_version_suffix (path_stem p) ds \<longrightarrow> int_of_digits ds \<le> minor)"
proof (cases "re_fullmatch min_version_re (path_stem p)")
  case None
  with assms min_version_re_match [of "path_stem p"] show ?thesis by (simp add: test_case_runs_def)
next
  case (Some cs)
  then have "min_version_suffix (path_stem p) (dict_get cs 1 [])" using min_version_re_match [of "path_stem p"] by simp
  then have suf: "min_version_suffix (path_stem p) ds \<longleftrightarrow> ds = dict_get cs 1 []" for ds using min_version_suffix_unique by blast
  have "b \<longleftrightarrow> \<not> int_of_digits (dict_get cs 1 []) > minor"
    using assms Some by (auto simp: test_case_runs_def bind_res_eq_Inr Let_def)
  then show ?thesis unfolding suf by (simp add: not_less)
qed

lemma select_test_cases_filter:
  assumes "python_minor_version ver = Inr minor" "select_test_cases ver ps = Inr qs"
  shows "qs = filter (\<lambda>p. \<forall>ds. min_version_suffix (path_stem p) ds \<longrightarrow> int_of_digits ds \<le> minor) ps"
  using assms(2)
proof (induction ps arbitrary: qs)
  case (Cons p ps)
  then obtain b rs where "test_case_runs ver p = Inr b" "select_test_cases ver ps = Inr rs" "qs = (if b then p # rs else rs)"
    by (auto simp: py_res)
  with Cons.IH [of rs] test_case_runs_iff [OF assms(1), of p b] show ?case by simp
qed simp

text \<open>C37: The test cases that are run for Python 3.\<open>m\<close> are exactly those whose name does not end in \<^verbatim>\<open>-py3N\<close>, or does so with
  \<open>N \<le> m\<close>, in the order of the directory; so whatever runs for one version also runs for every later one.\<close>

theorem select_test_cases_spec:
  assumes "python_minor_version ver = Inr minor" "select_test_cases ver ps = Inr qs"
  shows "qs = filter (\<lambda>p. \<forall>ds. min_version_suffix (path_stem p) ds \<longrightarrow> int_of_digits ds \<le> minor) ps \<and>
    (\<forall>ver' minor' qs'. python_minor_version ver' = Inr minor' \<longrightarrow> minor \<le> minor' \<longrightarrow>
       select_test_cases ver' ps = Inr qs' \<longrightarrow> set qs \<subseteq> set qs')"
  using select_test_cases_filter [OF assms] by (auto dest!: select_test_cases_filter) (meson le_trans)

theorem select_test_cases_spec_witness:
  "[[''check_pow.py'']] = filter (\<lambda>p. \<forall>ds. min_version_suffix (path_stem p) ds \<longrightarrow> int_of_digits ds \<le> 8)
     [[''check_pow.py''], [''check_exception_group-py311.py'']]"
proof -
  have "python_minor_version ''3.8'' = Inr 8"
    "select_test_cases ''3.8'' [[''check_pow.py''], [''check_exception_group-py311.py'']] = Inr [[''check_pow.py'']]"
    by code_simp+
  from select_test_cases_spec [OF this] show ?thesis by (rule conjunct1)
qed

subsection \<open>The exit status\<close>

interpretation rg: code_loop regr_loop
  by unfold_locales simp_all

text \<open>The command for a package, when the temporary directory is as it is after the events \<open>t\<close>.\<close>

definition testcase_call :: "'v mypy_ctx \<Rightarrow> (string \<Rightarrow> path) \<Rightarrow> PackageInfo \<times> string \<times> string \<Rightarrow> event list \<Rightarrow> string list \<Rightarrow> bool" where
  "testcase_call ctx tempdir_of x t args =
     (case x of (package, platform, ver) \<Rightarrow>
        testcase_command ctx package ver platform (tempdir_of (pkg_name package)) (env_fs (ctx_env ctx) t) = Inr args)"

lemma setup_testcase_dir_emits [emits_rules]: "emits (\<lambda>_. True) (setup_testcase_dir ctx package tempdir dir)"
  unfolding setup_testcase_dir_def copytree_def make_venv_def get_mypy_req_def by (intro emits_rules) simp_all

lemma run_testcases_ensures:
  "ensures (run_testcases ctx package ver platform (tempdir_of (pkg_name package)))
     (\<lambda>tr p evs. has_call (ctx_env ctx) tr evs (testcase_call ctx tempdir_of (package, platform, ver)) (\<lambda>q. q = p))"
proof -
  let ?td = "tempdir_of (pkg_name package)"
  have run: "ensures (bind_io (get_fs (ctx_env ctx)) (\<lambda>t. bind_io (lift (testcase_command ctx package ver platform ?td t)) (run (ctx_env ctx))))
      (\<lambda>tr p evs. has_call (ctx_env ctx) tr evs (testcase_call ctx tempdir_of (package, platform, ver)) (\<lambda>q. q = p))"
  proof (rule ensuresI)
    fix tr p tr'
    assume "bind_io (get_fs (ctx_env ctx)) (\<lambda>t. bind_io (lift (testcase_command ctx package ver platform ?td t)) (run (ctx_env ctx))) tr = (Inr p, tr')"
    then obtain cmd where cmd: "testcase_command ctx package ver platform ?td (env_fs (ctx_env ctx) tr) = Inr cmd"
        "p = env_run (ctx_env ctx) tr cmd" "tr' = tr @ [Call cmd]"
      by (auto simp: bind_io_Inr io_run(4,5,7))
    then have "has_call (ctx_env ctx) tr [Call cmd] (testcase_call ctx tempdir_of (package, platform, ver)) (\<lambda>q. q = p)"
      unfolding has_call_def testcase_call_def by (intro exI [of _ "[]"] exI [of _ cmd]) simp
    with cmd(3) show "\<exists>evs. tr' = tr @ evs \<and> has_call (ctx_env ctx) tr evs (testcase_call ctx tempdir_of (package, platform, ver)) (\<lambda>q. q = p)"
      by blast
  qed
  show ?thesis
    unfolding run_testcases_def
    by (rule ensures_bind [OF ensures_emits [OF emits_get_fs]], rule ensures_seq_right [OF _ run])
      (auto intro!: emits_rules intro: has_call_right)
qed

lemma test_testcase_directory_ensures:
  "ensures (test_testcase_directory ctx package ver platform vb (tempdir_of (pkg_name package)))
     (\<lambda>tr d evs. has_call (ctx_env ctx) tr evs (testcase_call ctx tempdir_of (package, platform, ver)) (\<lambda>p. returncode p = d))"
proof -
  have report: "ensures (seq m (ret (returncode p))) (\<lambda>tr d evs. d = returncode p)" if "emits (\<lambda>_. True) m" for m :: "unit io" and p
    by (rule ensures_seq_right [OF that ensures_ret_eq])
  show ?thesis
    unfolding test_testcase_directory_def Let_def
    apply (rule ensures_seq_right [where A = "\<lambda>_. True"])
      apply (intro emits_rules; simp)
     apply (rule ensures_bind [OF run_testcases_ensures report])
      apply (unfold print_success_msg_def, intro emits_rules; simp)
     apply (drule has_call_left, erule has_call_mono; simp)
    apply (erule has_call_right)
    done
qed

text \<open>
  When the run succeeds, mypy was started on every package for every platform and version, on the test cases selected for that version, and no
  process returned a positive code; any other result is the return code of one of them.
\<close>

lemma regr_test_status:
  assumes main: "regr_test_main ctx sys_platform sys_minor tempdir_of args tr = (Inr c, tr')"
    and confs: "regr_configurations sys_platform sys_minor args = Inr confs" and pkgs: "rg_packages args \<noteq> []"
  defines "C \<equiv> testcase_call ctx tempdir_of" and "jobs \<equiv> set (rg_packages args) \<times> set confs"
  shows "\<exists>evs. prefix (tr @ evs) tr' \<and> 0 \<le> c \<and>
    (\<forall>x \<in> jobs. has_call (ctx_env ctx) tr evs (C x) (\<lambda>p. returncode p \<le> c)) \<and>
    (c \<noteq> 0 \<longrightarrow> (\<exists>x \<in> jobs. has_call (ctx_env ctx) tr evs (C x) (\<lambda>p. returncode p = c)))"
proof -
  let ?test = "\<lambda>(package, platform, ver).
     test_testcase_directory ctx package ver platform (rg_verbosity args) (tempdir_of (pkg_name package))"
  let ?report = "seq (if c \<noteq> 0 then print_error (nl @ ''Test completed with errors'') ([], [])
          else emit (Print (nl @ ''Test completed successfully!''))) (ret c)"
  obtain tr1 where loop: "regr_loop ?test (py_product (rg_packages args) confs) 0 tr = (Inr c, tr1)" and report: "?report tr1 = (Inr c, tr')"
    using main pkgs confs(1) unfolding regr_test_main_def bind_io_Inr io_run(4) seq_Inr io_run(1) by auto
  have "ensures (?test x) (\<lambda>tr d evs. has_call (ctx_env ctx) tr evs (C x) (\<lambda>p. returncode p = d))" for x
    unfolding C_def using test_testcase_directory_ensures by (cases x) simp
  note rg.loop_zero [OF this loop]
  moreover have "emits (\<lambda>_. True) ?report" by (intro emits_rules; simp)
  from emitsD [OF this, OF report] have "prefix tr1 tr'" by (auto simp: prefix_def)
  ultimately show ?thesis unfolding jobs_def by auto
qed

end
