(* ===== verification/Check_New_Syntax.thy ===== *)
theory Check_New_Syntax
  imports Effects Py_Text
begin

section \<open>Version checks in stub files\<close>

text \<open>
  \<^verbatim>\<open>src/tests/check_new_syntax.py\<close>. A syntax tree is what the visitor distinguishes of it: an \<^verbatim>\<open>if\<close> statement with its line,
  its test, its body and its \<^verbatim>\<open>else\<close> part, and any other node with its children in the order of
  \<^verbatim>\<open>ast.iter_child_nodes\<close>. Of a test the kind of node and the text that \<^verbatim>\<open>ast.unparse\<close> gives are kept; it
  contains no statement. \<^verbatim>\<open>ast.parse\<close> is an argument, which may raise.
\<close>

datatype test_expr = Compare string | OtherExpr string

datatype node =
    If_node (lineno: nat) (test: test_expr) (body: "node list") (orelse: "node list")
  | Other_node (child_nodes: "node list")

fun is_compare :: "test_expr \<Rightarrow> bool" where
  "is_compare (Compare s) = True"
| "is_compare (OtherExpr s) = False"

fun unparse :: "test_expr \<Rightarrow> string" where
  "unparse (Compare s) = s"
| "unparse (OtherExpr s) = s"

fun is_If :: "node \<Rightarrow> bool" where
  "is_If (If_node l t b e) = True"
| "is_If (Other_node cs) = False"

definition old_version_first :: "test_expr \<Rightarrow> node list \<Rightarrow> bool" where
  "old_version_first t els \<longleftrightarrow>
     is_compare t \<and> starts_with (unparse t) ''sys.version_info < '' \<and> els \<noteq> [] \<and> \<not> (length els = 1 \<and> is_If (hd els))"

definition new_syntax_message :: "path \<Rightarrow> nat \<Rightarrow> test_expr \<Rightarrow> string" where
  "new_syntax_message p line t =
     (let new_syntax = ''if '' @ replace_n (Some 1) ''<'' ''>='' (unparse t) in
      as_posix p @ '':'' @ show_nat line @ '': When using if/else with sys.version_info, '' @
      ''put the code for new Python versions first, e.g. `'' @ new_syntax @ ''`'')"

fun visit :: "path \<Rightarrow> node \<Rightarrow> string list" where
  "visit p (If_node line t b els) =
     (if old_version_first t els then [new_syntax_message p line t] else []) @ concat (map (visit p) b) @ concat (map (visit p) els)"
| "visit p (Other_node cs) = concat (map (visit p) cs)"

definition check_new_syntax :: "node \<Rightarrow> path \<Rightarrow> string list" where
  "check_new_syntax tree p = visit p tree"

definition errors_of_file :: "env \<Rightarrow> (string \<Rightarrow> node res) \<Rightarrow> path \<Rightarrow> string list io" where
  "errors_of_file en parse p =
     bind_io (read_text en p) (\<lambda>stub. bind_io (lift (parse stub)) (\<lambda>tree. ret (check_new_syntax tree p)))"

fun collect_errors :: "(path \<Rightarrow> string list io) \<Rightarrow> path list \<Rightarrow> string list \<Rightarrow> string list io" where
  "collect_errors f [] errs = ret errs"
| "collect_errors f (p # ps) errs = bind_io (f p) (\<lambda>es. collect_errors f ps (errs @ es))"

definition check_new_syntax_main :: "env \<Rightarrow> (string \<Rightarrow> node res) \<Rightarrow> unit io" where
  "check_new_syntax_main en parse =
     bind_io (get_fs en) (\<lambda>t.
     bind_io (collect_errors (errors_of_file en parse) (rglob_ext t [''stdlib''] ''.pyi'' @ rglob_ext t [''stubs''] ''.pyi'') []) (\<lambda>errs.
       if errs \<noteq> [] then seq (emit (Print (join_with [CHR 0x0A] errs))) (raise (SystemExit 1)) else ret ()))"

section \<open>Properties\<close>

text \<open>The nodes of a tree.\<close>

inductive within :: "node \<Rightarrow> node \<Rightarrow> bool" where
  within_self: "within n n"
| within_body: "c \<in> set b \<Longrightarrow> within n c \<Longrightarrow> within n (If_node line t b els)"
| within_else: "c \<in> set els \<Longrightarrow> within n c \<Longrightarrow> within n (If_node line t b els)"
| within_child: "c \<in> set cs \<Longrightarrow> within n c \<Longrightarrow> within n (Other_node cs)"

inductive_simps within_If: "within n (If_node line t b els)"
inductive_simps within_Other: "within n (Other_node cs)"

lemma visit_iff:
  "m \<in> set (visit p tree) \<longleftrightarrow>
     (\<exists>line t b els. within (If_node line t b els) tree \<and> old_version_first t els \<and> m = new_syntax_message p line t)"
proof (induction p tree rule: visit.induct)
  case (1 p line t b els)
  have "m \<in> set (visit p (If_node line t b els)) \<longleftrightarrow>
      old_version_first t els \<and> m = new_syntax_message p line t \<or> (\<exists>c \<in> set b \<union> set els. m \<in> set (visit p c))"
    by auto
  then show ?case unfolding within_If using 1 by auto blast+
next
  case (2 p cs)
  then show ?case unfolding within_Other by auto blast+
qed

lemma new_syntax_text:
  "replace_n (Some 1) ''<'' ''>='' (''sys.version_info < '' @ rest) = ''sys.version_info >= '' @ rest"
proof -
  have "replace_n (Some 0) ''<'' ''>='' s = s" for s by (induction s) auto
  then show ?thesis by (simp add: starts_with_def)
qed

text \<open>C38: \<^verbatim>\<open>check_new_syntax\<close> reports an \<^verbatim>\<open>if\<close> statement, at whatever depth it stands in the tree, exactly when its test is
  a comparison that starts with \<^verbatim>\<open>sys.version_info < \<close> and it has an \<^verbatim>\<open>else\<close> part other than a lone \<^verbatim>\<open>if\<close>; the test
  it proposes is the same with \<^verbatim>\<open>>=\<close> in place of \<^verbatim>\<open><\<close>.\<close>

theorem check_new_syntax_spec:
  "m \<in> set (check_new_syntax tree p) \<longleftrightarrow>
     (\<exists>line rest b els. within (If_node line (Compare (''sys.version_info < '' @ rest)) b els) tree \<and>
        els \<noteq> [] \<and> (\<nexists>l t b' els'. els = [If_node l t b' els']) \<and>
        m = as_posix p @ '':'' @ show_nat line @ '': When using if/else with sys.version_info, '' @
          ''put the code for new Python versions first, e.g. `if sys.version_info >= '' @ rest @ ''`'')"
proof -
  have lone: "length els = 1 \<and> is_If (hd els) \<longleftrightarrow> (\<exists>l t b' els'. els = [If_node l t b' els'])" for els
    by (cases els) (auto elim: is_If.elims)
  have offending: "old_version_first t els \<longleftrightarrow>
      (\<exists>rest. t = Compare (''sys.version_info < '' @ rest)) \<and> els \<noteq> [] \<and> (\<nexists>l t b' els'. els = [If_node l t b' els'])" for t els
    unfolding old_version_first_def lone starts_with_prefix prefix_def by (cases t) auto
  have message: "new_syntax_message p line (Compare (''sys.version_info < '' @ rest)) =
      as_posix p @ '':'' @ show_nat line @ '': When using if/else with sys.version_info, '' @
          ''put the code for new Python versions first, e.g. `if sys.version_info >= '' @ rest @ ''`''" for line rest
    unfolding new_syntax_message_def unparse.simps new_syntax_text Let_def by simp
  show ?thesis
    unfolding check_new_syntax_def visit_iff offending message [symmetric] by blast
qed

end
