(* ===== verification/Type_Checkers.thy ===== *)
theory Type_Checkers
  imports Effect_Loops Test_Utils
begin

section \<open>Type checking the tooling\<close>

text \<open>
  \<^verbatim>\<open>src/tests/typecheck_typeshed.py\<close> and \<^verbatim>\<open>src/tests/pyright_test.py\<close>, from the parsed arguments on.
  The interpreter and the platform are arguments, as is what \<^verbatim>\<open>shutil.which\<close> finds; whether a program can be started at all
  is the argument \<open>starts\<close>.
\<close>

subsection \<open>mypy on the scripts and tests\<close>

definition TOOL_VERSIONS :: "string list" where
  "TOOL_VERSIONS = [''3.11'', ''3.10'', ''3.9'']"

definition TOOL_DIRECTORIES :: "string list" where
  "TOOL_DIRECTORIES = [''scripts'', ''tests'']"

definition minor_of :: "string \<Rightarrow> nat" where
  "minor_of v = int_of_digits (split_on CHR ''.'' v ! 1)"

definition LOWEST_SUPPORTED_VERSION :: string where
  "LOWEST_SUPPORTED_VERSION = hd (sort_key minor_of TOOL_VERSIONS)"

definition tool_command :: "string \<Rightarrow> string \<times> string \<times> string \<Rightarrow> string list" where
  "tool_command python x =
     (case x of (directory, platform, ver) \<Rightarrow>
       [python, ''-m'', ''mypy'', directory, ''--platform'', platform, ''--python-version'', ver, ''--strict'', ''--pretty'',
        ''--show-traceback'', ''--no-error-summary'', ''--enable-error-code'', ''ignore-without-code'',
        ''--enable-error-code'', ''possibly-undefined'', ''--enable-error-code'', ''redundant-expr''] @
       (if directory = ''tests'' \<and> platform = ''win32'' then [''--exclude'', ''tests/pytype_test.py''] else []))"

definition run_mypy_as_subprocess :: "env \<Rightarrow> string \<Rightarrow> string \<times> string \<times> string \<Rightarrow> int io" where
  "run_mypy_as_subprocess en python x =
     bind_io (run en (tool_command python x)) (\<lambda>result.
     seq (if stderr result \<noteq> [] then print_error (stderr result) ([], []) else ret ())
     (seq (if stdout result \<noteq> [] then print_error (stdout result) ([], []) else ret ())
     (ret (returncode result))))"

definition announced :: "env \<Rightarrow> string \<Rightarrow> string \<times> string \<times> string \<Rightarrow> int io" where
  "announced en python x =
     seq (emit (Print (case x of (directory, platform, ver) \<Rightarrow>
       ''Running \"mypy --platform '' @ platform @ '' --python-version '' @ ver @ ''\" on the \"'' @ directory @ ''\" directory...'')))
     (run_mypy_as_subprocess en python x)"

fun typecheck_loop :: "(string \<times> string \<times> string \<Rightarrow> int io) \<Rightarrow> (string \<times> string \<times> string) list \<Rightarrow> int \<Rightarrow> int io" where
  "typecheck_loop test [] code = ret code"
| "typecheck_loop test (x # xs) code = bind_io (test x) (\<lambda>this_code. typecheck_loop test xs (max code this_code))"

record tool_args =
  tool_dirs :: "string list"
  tool_platforms :: "string list"
  tool_versions :: "string list"

definition tool_runs :: "string \<Rightarrow> tool_args \<Rightarrow> (string \<times> string \<times> string) list" where
  "tool_runs sys_platform args =
     py_product (or_default (tool_dirs args) TOOL_DIRECTORIES)
       (py_product (or_default (tool_platforms args) [sys_platform]) (or_default (tool_versions args) [LOWEST_SUPPORTED_VERSION]))"

definition typecheck_typeshed_main :: "env \<Rightarrow> string \<Rightarrow> string \<Rightarrow> tool_args \<Rightarrow> int io" where
  "typecheck_typeshed_main en python sys_platform args =
     bind_io (typecheck_loop (announced en python) (tool_runs sys_platform args) 0) (\<lambda>code.
     seq (if code \<noteq> 0 then print_error ''Test completed with errors'' ([], []) else emit (Print ''Test completed successfully!''))
       (ret code))"

subsection \<open>pyright\<close>

definition pyright_version :: "toml_table \<Rightarrow> toml res" where
  "pyright_version config =
     bind_res (dict_item config ''tool'') (\<lambda>tool.
     bind_res (case tool of TTable t \<Rightarrow> dict_item t ''typeshed'' | _ \<Rightarrow> Inl TypeError) (\<lambda>ts.
       case ts of TTable t \<Rightarrow> dict_item t ''pyright_version'' | _ \<Rightarrow> Inl TypeError))"

definition pyright_test_main :: "env \<Rightarrow> string option \<Rightarrow> (string \<Rightarrow> bool) \<Rightarrow> string list \<Rightarrow> unit io" where
  "pyright_test_main en npx starts argv =
     bind_io (get_fs en) (\<lambda>t.
     if \<not> fs_exists t [''tests'', ''pyright_test.py'']
     then seq (emit (Print ''pyright_test.py must be run from the typeshed root directory'')) (raise (SystemExit 1))
     else case npx of
       None \<Rightarrow> seq (emit (Print ''error finding npx; is Node.js installed?'')) (raise (SystemExit 1))
     | Some exe \<Rightarrow>
         if \<not> starts exe
         then seq (emit (Print ''error running npx; is Node.js installed?'')) (raise (SystemExit 1))
         else
           seq (run en [exe, ''--version''])
           (bind_io (load_toml en [''pyproject.toml'']) (\<lambda>config.
            bind_io (lift (pyright_version config)) (\<lambda>v.
            let command = [exe, ''pyright@'' @ the_str v] @ argv in
            if \<not> is_TStr v then raise TypeError
            else seq (emit (Print (''Running: '' @ join_with '' '' command)))
            (bind_io (run en ([''PYRIGHT_PYTHON_FORCE_VERSION='' @ the_str v] @ command)) (\<lambda>r.
              raise (SystemExit (returncode r))))))))"

section \<open>Properties\<close>

interpretation tc: code_loop typecheck_loop
  by unfold_locales simp_all

lemma lowest_supported_version: "LOWEST_SUPPORTED_VERSION = ''3.9''"
  by code_simp

text \<open>The runs cover every combination of directory, platform and version once each.\<close>

lemma tool_runs_set:
  "set (tool_runs sys_platform args) =
     set (or_default (tool_dirs args) TOOL_DIRECTORIES) \<times> set (or_default (tool_platforms args) [sys_platform]) \<times>
     set (or_default (tool_versions args) [LOWEST_SUPPORTED_VERSION])"
  by (simp add: tool_runs_def)

lemma announced_ensures:
  "ensures (announced en python x) (\<lambda>tr d evs. has_call en tr evs (\<lambda>_ args. args = tool_command python x) (\<lambda>p. returncode p = d))"
proof -
  let ?C = "\<lambda>_ args. args = tool_command python x"
  have report: "ensures (seq m (seq m' (ret (returncode r)))) (\<lambda>tr d evs. d = returncode r)"
    if "emits (\<lambda>_. True) m" "emits (\<lambda>_. True) m'" for r and m m' :: "unit io"
    by (rule ensures_seq_right [OF that(1)], rule ensures_seq_right [OF that(2)]) (rule ensures_ret_eq | assumption)+
  have "ensures (run_mypy_as_subprocess en python x) (\<lambda>tr d evs. has_call en tr evs ?C (\<lambda>p. returncode p = d))"
    unfolding run_mypy_as_subprocess_def
    by (rule ensures_bind [OF ensures_run report])
      (auto intro!: emits_rules elim: has_call_mono intro: has_call_left simp: has_run_call)
  then show ?thesis
    unfolding announced_def by (rule ensures_after_emit) (rule has_call_right)
qed

lemma announced_never_raises [never_raises_rules]: "never_raises (announced en python x)"
  unfolding announced_def run_mypy_as_subprocess_def by (intro never_raises_rules)


text \<open>An environment in which mypy is killed by a signal on the directory \<^verbatim>\<open>tests\<close>: the exit status is 0 all the same.\<close>

definition killed_env :: env where
  "killed_env = \<lparr>env_run = (\<lambda>_ args. \<lparr>returncode = (if ''tests'' \<in> set args then - 9 else 0), stdout = [], stderr = []\<rparr>),
     env_http = (\<lambda>_ _ _ _ _. \<lparr>status = 200, errors = [], numbers = []\<rparr>), env_toml = (\<lambda>_ _. []), env_fs = (\<lambda>_. Dir []), env_token = None\<rparr>"


end
