(* ===== verification/Pytype_Test.thy ===== *)
theory Pytype_Test
  imports Parse_Metadata
begin

section \<open>Running pytype on the stubs\<close>

text \<open>
  \<^verbatim>\<open>src/tests/pytype_test.py\<close>, from the parsed arguments on. The package \<^verbatim>\<open>pytype\<close> is given by two arguments: the
  relative names in its list of files to skip, and \<open>load\<close>, which loads and verifies a stub under a module name, the
  missing modules being known, and gives the text of the traceback if that raises. \<open>top_level\<close> is the content of the
  file \<^verbatim>\<open>top_level.txt\<close> that \<^verbatim>\<open>pkg_resources\<close> finds for a requirement. One version of Python is tested, so one loader
  is created. Sets are iterated in sorted order. File names are strings with \<^verbatim>\<open>/\<close> between their parts; changes of environment variables are
  commands of the trace.
\<close>

definition TYPESHED_SUBDIRS :: "string list" where
  "TYPESHED_SUBDIRS = [''stdlib'', ''stubs'']"

text \<open>\<^verbatim>\<open>s.index(p)\<close>.\<close>

fun str_index :: "string \<Rightarrow> string \<Rightarrow> nat option" where
  "str_index p [] = (if p = [] then Some 0 else None)"
| "str_index p (c # cs) = (if starts_with (c # cs) p then Some 0 else map_option Suc (str_index p cs))"

fun relative_top :: "string \<Rightarrow> string list \<Rightarrow> nat" where
  "relative_top fname [] = 0"
| "relative_top fname (d # ds) =
     (case str_index (d @ ''/'') fname of None \<Rightarrow> relative_top fname ds | Some k \<Rightarrow> k)"

definition get_relative :: "string \<Rightarrow> string" where
  "get_relative fname = drop (relative_top fname TYPESHED_SUBDIRS) fname"

definition get_module_name :: "string \<Rightarrow> string res" where
  "get_module_name fname =
     (let parts = split_on CHR ''/'' (get_relative fname) in
      bind_res (if hd parts = ''stdlib'' then Inr (drop 1 parts)
                else bind_res (assert_res (hd parts = ''stubs'')) (\<lambda>_. Inr (drop 2 parts))) (\<lambda>module_parts.
        Inr (replace_all ''.__init__'' [] (replace_all ''.pyi'' [] (join_with ''.'' module_parts)))))"

definition check_subdirs_discoverable :: "fs \<Rightarrow> string list \<Rightarrow> unit io" where
  "check_subdirs_discoverable t subdir_paths =
     for_each (\<lambda>p. if fs_is_dir t (path_of p) then ret ()
       else seq (emit (Print (''Cannot find typeshed subdir at '' @ p @ '' (specify parent dir via --typeshed-location)'')))
         (raise (SystemExit 1))) subdir_paths"

definition stubs_in_path :: "fs \<Rightarrow> string \<Rightarrow> string list" where
  "stubs_in_path t p =
     (case fs_lookup t (path_of p) of
        Some (Dir es) \<Rightarrow>
          concat (map (\<lambda>(root, fns). map (\<lambda>fn. foldl os_path_join p (root @ [fn])) (filter (\<lambda>fn. ends_with fn ''.pyi'') fns))
            (walk [] (Dir es)))
      | _ \<Rightarrow> [p])"

definition find_stubs_in_paths :: "fs \<Rightarrow> string list \<Rightarrow> string list" where
  "find_stubs_in_paths t paths = concat (map (stubs_in_path t) paths)"

definition determine_files_to_test :: "fs \<Rightarrow> string list \<Rightarrow> string list \<Rightarrow> string list" where
  "determine_files_to_test t skipped_files paths =
     filter (\<lambda>f. get_relative f \<notin> set skipped_files) (sort (find_stubs_in_paths t paths))"

text \<open>\<^verbatim>\<open>parts.index("stubs")\<close> and the part after it.\<close>

definition stub_distribution_in :: "string \<Rightarrow> string option res" where
  "stub_distribution_in fname =
     (case dropWhile (\<lambda>p. p \<noteq> ''stubs'') (split_on CHR ''/'' fname) of
        [] \<Rightarrow> Inr None
      | [_] \<Rightarrow> Inl IndexError
      | _ # dist # _ \<Rightarrow> Inr (Some dist))"

definition get_missing_modules ::
  "'v packaging \<Rightarrow> repo \<Rightarrow> (string \<Rightarrow> string res) \<Rightarrow> string list \<Rightarrow> string list res" where
  "get_missing_modules pk rp top_level files_to_test =
     bind_res (map_res stub_distribution_in files_to_test) (\<lambda>ds.
     bind_res (map_res (\<lambda>d. bind_res (read_dependencies pk rp d) (\<lambda>deps. map_res top_level (external_pkgs deps)))
       (sorted_set (List.map_filter id ds))) (\<lambda>texts.
       Inr (sorted_set (concat (map str_splitlines (concat texts))))))"

definition run_pytype_on ::
  "(exn \<Rightarrow> string) \<Rightarrow> (string list \<Rightarrow> string \<Rightarrow> string \<Rightarrow> string option) \<Rightarrow> string list \<Rightarrow> string \<Rightarrow> string option" where
  "run_pytype_on format_exc load missing_modules fname =
     (case get_module_name fname of
        Inl e \<Rightarrow> Some (format_exc e)
      | Inr m \<Rightarrow> load (map (os_path_join ''stdlib'') missing_modules) m fname)"

definition final_line :: "string \<Rightarrow> string" where
  "final_line s = last (split_on CHR 0x0A (rstrip s))"

definition pad3 :: "nat \<Rightarrow> string" where
  "pad3 n = replicate (3 - length (show_nat n)) CHR '' '' @ show_nat n"

fun pytype_loop :: "(string \<Rightarrow> string option) \<Rightarrow> bool \<Rightarrow> string \<Rightarrow> nat \<Rightarrow> nat \<Rightarrow> string list \<Rightarrow> (string \<times> string \<times> string) list \<Rightarrow>
    (string \<times> string \<times> string) list io" where
  "pytype_loop check print_stderr python_version total_tests i [] bad = ret bad"
| "pytype_loop check print_stderr python_version total_tests i (f # fs) bad =
     (let result = check f;
          failed = (result \<noteq> None \<and> result \<noteq> Some []);
          bad' = (if failed then bad @ [(get_relative f, python_version, final_line (the result))] else bad)
      in seq (if failed \<and> print_stderr then emit (Print (nl @ the result)) else ret ())
        (seq (if (i + 1) mod 25 = 0
              then emit (Print (''  '' @ pad3 (i + 1) @ ''/'' @ show_nat total_tests @ '' with '' @ pad3 (length bad') @ '' errors''))
              else ret ())
        (pytype_loop check print_stderr python_version total_tests (i + 1) fs bad')))"

definition run_all_tests ::
  "string list res \<Rightarrow> (string list \<Rightarrow> string \<Rightarrow> string option) \<Rightarrow> string \<Rightarrow> bool \<Rightarrow> bool \<Rightarrow> string list \<Rightarrow> unit io" where
  "run_all_tests missing_modules pytype python_version print_stderr dry_run files_to_test =
     bind_io (lift missing_modules) (\<lambda>missing.
     seq (emit (Print ''Testing files with pytype...''))
     (bind_io (pytype_loop (\<lambda>f. if dry_run then None else pytype missing f) print_stderr python_version
         (length files_to_test) 0 files_to_test [])
       (\<lambda>bad.
        seq (emit (Print (''Ran pytype with '' @ show_nat (length files_to_test) @ '' pyis, got '' @ show_nat (length bad) @ '' errors.'')))
        (seq (for_each (\<lambda>(f, v, err). emit (Print (nl @ f @ '' ('' @ v @ ''): '' @ err))) bad)
        (if bad \<noteq> []
         then seq (emit (Print (nl @ ''Run again with --print-stderr to get the full stacktrace.''))) (raise (SystemExit 1))
         else ret ())))))"

record pytype_args =
  pt_dry_run :: bool
  pt_location :: string
  pt_print_stderr :: bool
  pt_files :: "string list"

definition restore_home :: "string option \<Rightarrow> unit io" where
  "restore_home old_typeshed_home =
     (case old_typeshed_home of
        None \<Rightarrow> emit (Call [''unsetenv'', ''TYPESHED_HOME''])
      | Some h \<Rightarrow> emit (Call [''setenv'', ''TYPESHED_HOME'', h]))"

definition pytype_test_main ::
  "env \<Rightarrow> 'v packaging \<Rightarrow> repo \<Rightarrow> (string \<Rightarrow> string res) \<Rightarrow> (string list \<Rightarrow> string \<Rightarrow> string option) \<Rightarrow> string list \<Rightarrow>
   string \<Rightarrow> string option \<Rightarrow> string \<Rightarrow> pytype_args \<Rightarrow> unit io" where
  "pytype_test_main en pk rp top_level pytype skipped_files cwd old_typeshed_home python_version args =
     (let typeshed_location = or_default (pt_location args) cwd;
          subdir_paths = map (os_path_join typeshed_location) TYPESHED_SUBDIRS
      in bind_io (get_fs en) (\<lambda>t.
         let files_to_test = determine_files_to_test t skipped_files (or_default (pt_files args) subdir_paths)
         in seq (check_subdirs_discoverable t subdir_paths)
           (seq (emit (Call [''setenv'', ''TYPESHED_HOME'', typeshed_location]))
           (seq (run_all_tests (get_missing_modules pk rp top_level files_to_test) pytype python_version
                   (pt_print_stderr args) (pt_dry_run args) files_to_test)
           (restore_home old_typeshed_home)))))"

text \<open>A file fails when pytype has a non-empty text to say about it.\<close>

definition complains :: "(string \<Rightarrow> string option) \<Rightarrow> string \<Rightarrow> bool" where
  "complains check f \<longleftrightarrow> check f \<noteq> None \<and> check f \<noteq> Some []"

section \<open>Properties\<close>

lemma str_index_first: "str_index p s = Some n \<Longrightarrow> prefix p (drop n s)"
  by (induction s arbitrary: n) (auto simp: starts_with_prefix split: if_splits)

lemma str_index_prefix [simp]: "str_index p (p @ s) = Some 0"
proof (cases "p @ s")
  case (Cons c cs)
  then have "starts_with (c # cs) p" by (metis prefixI starts_with_prefix)
  with Cons show ?thesis by simp
qed simp

text \<open>A name that already is relative to the root stays as it is, unless it is a third-party stub below a directory whose name ends in \<^verbatim>\<open>stdlib\<close>.\<close>

lemma get_relative_stdlib: "get_relative (''stdlib/'' @ s) = ''stdlib/'' @ s"
  using str_index_prefix [of "''stdlib/''" s] by (simp add: get_relative_def TYPESHED_SUBDIRS_def)

lemma get_relative_stubs:
  assumes "str_index ''stdlib/'' (''stubs/'' @ s) = None"
  shows "get_relative (''stubs/'' @ s) = ''stubs/'' @ s"
  using assms str_index_prefix [of "''stubs/''" s] by (simp add: get_relative_def TYPESHED_SUBDIRS_def)

text \<open>
  The first occurrence counts: below a directory called \<^verbatim>\<open>stubs\<close> the name relative to the root comes out wrong, so that an entry of
  the list of files to skip no longer matches.
\<close>

lemma get_relative_below_stubs:
  "get_relative ''/home/stubs/typeshed/stubs/six/six.pyi'' = ''stubs/typeshed/stubs/six/six.pyi''"
  "get_module_name ''/home/stubs/typeshed/stubs/six/six.pyi'' = Inr ''stubs.six.six''"
  "get_module_name ''stubs/six/six/moves/__init__.pyi'' = Inr ''six.moves''"
  by code_simp+

lemma seq_optional_emit: "seq (if b then emit ev else ret ()) k tr = k (if b then tr @ [ev] else tr)"
  by (simp add: io_run)

text \<open>The loop never raises, and it collects the files pytype complains about, in their order.\<close>

lemma pytype_loop_bad:
  "\<exists>tr'. pytype_loop check ps v n i files bad tr =
     (Inr (bad @ map (\<lambda>f. (get_relative f, v, final_line (the (check f)))) (filter (complains check) files)), tr')"
proof (induction files arbitrary: i bad tr)
  case (Cons f files)
  let ?bad = "if complains check f then bad @ [(get_relative f, v, final_line (the (check f)))] else bad"
  have "\<exists>tr1. pytype_loop check ps v n i (f # files) bad tr = pytype_loop check ps v n (i + 1) files ?bad tr1"
    unfolding pytype_loop.simps Let_def seq_optional_emit complains_def by blast
  with Cons.IH [of "i + 1" ?bad] show ?case by (auto split: if_splits)
qed (simp add: io_run)

lemma run_all_tests_result:
  "fst (run_all_tests missing pytype v ps dry_run files tr) =
     (case missing of
        Inl e \<Rightarrow> Inl e
      | Inr m \<Rightarrow> if \<not> dry_run \<and> (\<exists>f \<in> set files. complains (pytype m) f) then Inl (SystemExit 1) else Inr ())"
proof (cases missing)
  case (Inr m)
  let ?check = "\<lambda>f. if dry_run then None else pytype m f"
  let ?bad = "map (\<lambda>f. (get_relative f, v, final_line (the (?check f)))) (filter (complains ?check) files)"
  obtain tr1 where loop: "pytype_loop ?check ps v (length files) 0 files [] (tr @ [Print ''Testing files with pytype...'']) = (Inr ?bad, tr1)"
    using pytype_loop_bad [of ?check ps v "length files" 0 files "[]"] by force
  have "never_raises (for_each (\<lambda>(f, v, err). emit (Print (nl @ f @ '' ('' @ v @ ''): '' @ err))) ?bad)"
    by (intro never_raises_rules)
  then obtain tr2 where report: "for_each (\<lambda>(f, v, err). emit (Print (nl @ f @ '' ('' @ v @ ''): '' @ err))) ?bad
      (tr1 @ [Print (''Ran pytype with '' @ show_nat (length files) @ '' pyis, got '' @ show_nat (length ?bad) @ '' errors.'')]) = (Inr (), tr2)"
    by (rule never_raisesE) simp
  have "?bad \<noteq> [] \<longleftrightarrow> \<not> dry_run \<and> (\<exists>f \<in> set files. complains (pytype m) f)"
    by (auto simp: filter_empty_conv complains_def)
  moreover have "run_all_tests missing pytype v ps dry_run files tr =
      (if ?bad \<noteq> []
       then seq (emit (Print (nl @ ''Run again with --print-stderr to get the full stacktrace.''))) (raise (SystemExit 1))
       else ret ()) tr2"
    unfolding run_all_tests_def Inr seq_def
    by (subst bind_io_run, rule io_run(4), subst bind_io_run, rule io_run(3), subst bind_io_run, rule loop,
        subst bind_io_run, rule io_run(3), subst bind_io_run, rule report, rule refl)
  ultimately show ?thesis using Inr by (simp only: sum.case if_split) (simp add: io_run)
qed (simp add: run_all_tests_def io_run)

lemma check_subdirs_result:
  "check_subdirs_discoverable t ps tr =
     (case find (\<lambda>p. \<not> fs_is_dir t (path_of p)) ps of
        None \<Rightarrow> (Inr (), tr)
      | Some p \<Rightarrow> (Inl (SystemExit 1), tr @ [Print (''Cannot find typeshed subdir at '' @ p @ '' (specify parent dir via --typeshed-location)'')]))"
  unfolding check_subdirs_discoverable_def
proof (induction ps)
  case (Cons p ps)
  then show ?case by (cases "fs_is_dir t (path_of p)") (simp_all add: io_run)
qed (simp add: io_run)

lemma fst_seq: "fst (seq m k tr) = (case m tr of (Inl e, _) \<Rightarrow> Inl e | (Inr _, tr') \<Rightarrow> fst (k tr'))"
  by (simp add: io_run split: prod.splits sum.splits)

lemma fst_seq_restore: "fst (seq m (restore_home old) tr) = fst (m tr)"
  by (cases old; cases "m tr"; cases "fst (m tr)") (simp_all add: restore_home_def io_run)



end
