(* ===== verification/Mypy_Files.thy ===== *)
theory Mypy_Files
  imports Mypy_Test
begin

section \<open>The files of the standard library that belong to a version\<close>

text \<open>
  Which stub files \<^verbatim>\<open>test_stdlib\<close> of \<^verbatim>\<open>src/tests/mypy_test.py\<close> hands to mypy, stated without its loops: by the filter, the
  exclusions and the range that \<^verbatim>\<open>VERSIONS\<close> gives for the top-level module.
\<close>

text \<open>\<open>selected conf p\<close>: the path is, or lies below, a path of the filter, and not so for an excluded one.\<close>

definition selected :: "TestConfig \<Rightarrow> path \<Rightarrow> bool" where
  "selected conf p \<longleftrightarrow> (\<exists>i \<in> set (conf_filter conf). prefix i p) \<and> \<not> (\<exists>x \<in> set (conf_exclude conf). prefix x p)"

definition in_range :: "version_ranges \<Rightarrow> nat list \<Rightarrow> string \<Rightarrow> bool" where
  "in_range ranges v name = (case map_of ranges (path_stem [name]) of None \<Rightarrow> False | Some (lo, hi) \<Rightarrow> lo \<le> v \<and> v \<le> hi)"

lemma match_path_selected: "match_path p conf = selected conf p"
proof -
  have "match_included is p \<longleftrightarrow> (\<exists>i \<in> set is. prefix i p)" for "is"
    by (induction "is") (auto simp: in_parents_strict_prefix strict_prefix_def)
  then have "match_from xs is p \<longleftrightarrow> (\<exists>i \<in> set is. prefix i p) \<and> \<not> (\<exists>x \<in> set xs. prefix x p)" for xs "is"
    by (induction xs) (auto simp: in_parents_strict_prefix strict_prefix_def)
  then show ?thesis by (simp add: match_path_def selected_def)
qed

lemma suffix_ends_with:
  assumes "\<not> starts_with name ''.''"
  shows "name_suffix name = ''.pyi'' \<longleftrightarrow> ends_with name ''.pyi''"
proof
  assume "name_suffix name = ''.pyi''"
  then have "name = name_stem name @ ''.pyi''" using stem_suffix_append [of name] by simp
  then show "ends_with name ''.pyi''" by (metis ends_with_suffix suffixI)
next
  assume "ends_with name ''.pyi''"
  then obtain s where s: "name = s @ CHR ''.'' # ''pyi''" by (auto simp: ends_with_suffix suffix_def)
  then have "s \<noteq> []" using assms by (auto simp: starts_with_prefix)
  then show "name_suffix name = ''.pyi''" unfolding s by (rule name_suffix_append) simp_all
qed

text \<open>The files of a top-level entry: the entry itself or what lies below it.\<close>

lemma files_of_entry:
  assumes wf: "fs_wf t" and "fs_exists t [''stdlib'', name]" and dot: "\<not> starts_with name ''.''"
  shows "p \<in> set (files_of_module t [''stdlib'', name] conf) \<longleftrightarrow>
    (\<exists>q. p = ''stdlib'' # name # q \<and> (if q = [] then fs_is_file t p else fs_exists t p) \<and> ends_with (path_name p) ''.pyi'' \<and> selected conf p)"
proof (cases "fs_is_file t [''stdlib'', name] \<and> path_suffix [''stdlib'', name] = ''.pyi''")
  case True
  have below: "q = []" if "fs_exists t (''stdlib'' # name # q)" for q
    using True that fs_lookup_append [of t "[''stdlib'', name]" q]
    by (cases q) (auto simp: fs_is_file_def fs_exists_def split: option.splits fs.splits)
  have ends: "ends_with (path_name [''stdlib'', name]) ''.pyi''"
    using True suffix_ends_with [OF dot] by (simp add: path_suffix_def path_name_def)
  have lhs: "p \<in> set (files_of_module t [''stdlib'', name] conf) \<longleftrightarrow> p = [''stdlib'', name] \<and> selected conf p"
    unfolding files_of_module_def match_path_selected if_P [OF True] by auto
  show ?thesis
  proof
    assume "p \<in> set (files_of_module t [''stdlib'', name] conf)"
    then show "\<exists>q. p = ''stdlib'' # name # q \<and> (if q = [] then fs_is_file t p else fs_exists t p) \<and> ends_with (path_name p) ''.pyi'' \<and> selected conf p"
      using True ends unfolding lhs by (intro exI [of _ "[]"]) (elim conjE, simp)
  next
    assume "\<exists>q. p = ''stdlib'' # name # q \<and> (if q = [] then fs_is_file t p else fs_exists t p) \<and> ends_with (path_name p) ''.pyi'' \<and> selected conf p"
    then obtain q where "p = ''stdlib'' # name # q" "if q = [] then fs_is_file t p else fs_exists t p" "selected conf p" by blast
    with below [of q] show "p \<in> set (files_of_module t [''stdlib'', name] conf)" unfolding lhs by (auto split: if_splits)
  qed
next
  case False
  have not_self: "\<not> (fs_is_file t [''stdlib'', name] \<and> ends_with (path_name [''stdlib'', name]) ''.pyi'')"
    using False suffix_ends_with [OF dot] by (simp add: path_suffix_def path_name_def)
  have parents: "in_parents [''stdlib'', name] p \<longleftrightarrow> (\<exists>q. p = ''stdlib'' # name # q \<and> q \<noteq> [])"
    by (auto simp: in_parents_strict_prefix strict_prefix_def prefix_def)
  have lhs: "p \<in> set (files_of_module t [''stdlib'', name] conf) \<longleftrightarrow>
      (\<exists>q. p = ''stdlib'' # name # q \<and> q \<noteq> [] \<and> fs_exists t p \<and> ends_with (path_name p) ''.pyi'' \<and> selected conf p)"
    unfolding files_of_module_def if_not_P [OF False] set_sort set_filter mem_Collect_eq rglob_ext_iff [OF wf] parents match_path_selected
    using assms(2) by (auto simp: path_name_def)
  show ?thesis
  proof (unfold lhs, rule iff_exI)
    fix q
    show "(p = ''stdlib'' # name # q \<and> q \<noteq> [] \<and> fs_exists t p \<and> ends_with (path_name p) ''.pyi'' \<and> selected conf p) \<longleftrightarrow>
      (p = ''stdlib'' # name # q \<and> (if q = [] then fs_is_file t p else fs_exists t p) \<and> ends_with (path_name p) ''.pyi'' \<and> selected conf p)"
      using not_self by (cases "q = []") (simp_all only: if_True if_False simp_thms, blast?)
  qed
qed

lemma stdlib_modules_files:
  assumes wf: "fs_wf t" and v: "version_tuple (conf_version conf) = Inr v"
    and names: "\<And>name. name \<in> set names \<Longrightarrow> fs_exists t [''stdlib'', name]"
    and run: "fold_res (add_stdlib_module t conf ranges) names files = Inr files'"
  shows "p \<in> set files' \<longleftrightarrow> p \<in> set files \<or> (\<exists>name q. name \<in> set names \<and> name \<noteq> ''VERSIONS'' \<and> \<not> starts_with name ''.'' \<and> in_range ranges v name \<and>
     p = ''stdlib'' # name # q \<and> (if q = [] then fs_is_file t p else fs_exists t p) \<and> ends_with (path_name p) ''.pyi'' \<and> selected conf p)"
    (is "_ \<longleftrightarrow> _ \<or> ?R names")
  using names run
proof (induction names arbitrary: files)
  case (Cons name names)
  then obtain files1 where step: "add_stdlib_module t conf ranges name files = Inr files1"
    and rest: "fold_res (add_stdlib_module t conf ranges) names files1 = Inr files'" by (auto simp: bind_res_eq_Inr)
  let ?own = "name \<noteq> ''VERSIONS'' \<and> \<not> starts_with name ''.'' \<and> in_range ranges v name \<and>
    p \<in> set (files_of_module t [''stdlib'', name] conf)"
  have "p \<in> set files1 \<longleftrightarrow> p \<in> set files \<or> ?own"
    using step v unfolding add_stdlib_module_def in_range_def
    by (auto simp: bind_res_eq_Inr dict_item_def add_files_def split: if_splits option.splits)
  moreover have "p \<in> set files' \<longleftrightarrow> p \<in> set files1 \<or> ?R names" using Cons.IH [OF _ rest] Cons.prems(1) by simp
  moreover have "fs_exists t [''stdlib'', name]" using Cons.prems(1) by simp
  ultimately show ?case using files_of_entry [OF wf, of name p conf] by (auto simp only: list.set insert_iff)
qed simp

text \<open>C32: For a version, \<^verbatim>\<open>mypy_test.py\<close> checks exactly those stub files of \<^verbatim>\<open>stdlib\<close>, at any depth, that the filter selects and no
  exclusion covers and whose top-level module \<^verbatim>\<open>VERSIONS\<close> lists with a range that contains the version.\<close>

theorem stdlib_files_spec:
  assumes "fs_wf t" and "stdlib_files t conf = Inr files" and "version_tuple (conf_version conf) = Inr v"
    and vtext: "file_text (fs_lookup t [''stdlib'', ''VERSIONS'']) = Inr txt" and ranges: "parse_versions txt = Inr ranges"
  shows "p \<in> set files \<longleftrightarrow> (\<exists>name q. p = ''stdlib'' # name # q \<and> (if q = [] then fs_is_file t p else fs_exists t p) \<and>
    ends_with (path_name p) ''.pyi'' \<and> selected conf p \<and>
    name \<noteq> ''VERSIONS'' \<and> \<not> starts_with name ''.'' \<and> in_range ranges v name)"
proof -
  obtain es where es: "fs_lookup t [''stdlib''] = Some (Dir es)"
      and run: "fold_res (add_stdlib_module t conf ranges) (map fst es) [] = Inr files"
    using assms(2) unfolding stdlib_files_def vtext ranges listdir_def
    by (auto simp: ranges bind_res_eq_Inr simp del: fs_lookup.simps split: option.splits fs.splits)
  have "fs_lookup t (''stdlib'' # name # q) = (case map_of es name of None \<Rightarrow> None | Some c \<Rightarrow> fs_lookup c q)" for name q
    using fs_lookup_append [of t "[''stdlib'']" "name # q"] es by (simp split: option.splits)
  then have entry: "fs_exists t (''stdlib'' # name # q) \<Longrightarrow> name \<in> set (map fst es)"
      "name \<in> set (map fst es) \<Longrightarrow> fs_exists t [''stdlib'', name]" for name q
    by (force simp: fs_exists_def map_of_eq_None_iff dest: map_of_SomeD split: option.splits)+
  have "if q = [] then fs_is_file t p else fs_exists t p \<Longrightarrow> fs_exists t p" for q :: path
    by (auto simp: fs_is_file_def fs_exists_def split: if_splits option.splits)
  then show ?thesis
    using stdlib_modules_files [OF assms(1,3) entry(2) run, of p] entry(1) by (simp only: list.set empty_iff simp_thms) blast
qed

theorem stdlib_files_spec_witness:
  "\<exists>files. stdlib_files ex_mypy_tree ex_conf = Inr files \<and> [''stdlib'', ''os'', ''__init__.pyi''] \<in> set files \<and>
     [''stdlib'', ''asyncore.pyi''] \<notin> set files"
proof -
  let ?files = "[[''stdlib'', ''os'', ''__init__.pyi'']]"
  let ?ranges = "[(''os'', [2, 7], [99, 99]), (''asyncore'', [2, 7], [3, 8])]"
  have "fs_wf ex_mypy_tree" and run: "stdlib_files ex_mypy_tree ex_conf = Inr ?files" and "version_tuple (conf_version ex_conf) = Inr [3, 11]"
    and "file_text (fs_lookup ex_mypy_tree [''stdlib'', ''VERSIONS'']) = Inr (''os: 2.7-'' @ nl @ ''asyncore: 2.7-3.8'' @ nl)"
    and "parse_versions (''os: 2.7-'' @ nl @ ''asyncore: 2.7-3.8'' @ nl) = Inr ?ranges" by code_simp+
  note spec = stdlib_files_spec [OF this]
  have "[''stdlib'', ''os'', ''__init__.pyi''] \<in> set ?files"
    unfolding spec by (rule exI [of _ "''os''"], rule exI [of _ "[''__init__.pyi'']"]) code_simp
  moreover have "\<not> in_range ?ranges [3, 11] ''asyncore.pyi''" by code_simp
  then have "[''stdlib'', ''asyncore.pyi''] \<notin> set ?files" unfolding spec by blast
  ultimately show ?thesis using run by blast
qed

end
