(* ===== verification/Mypy_Outcome.thy ===== *)
theory Mypy_Outcome
  imports Mypy_Test Effect_Loops
begin

section \<open>What a successful run of mypy_test.py means\<close>

text \<open>
  The run keeps one exit status through all versions, platforms and distributions. This theory follows it: for
  every step it states which files mypy has been started on and that none of these processes returned more than the
  status after the step, with the rules for \<open>ensures\<close>.
\<close>

definition checked :: "'v mypy_ctx \<Rightarrow> TestConfig \<Rightarrow> bool \<Rightarrow> path list \<Rightarrow> int \<Rightarrow> event list \<Rightarrow> event list \<Rightarrow> bool" where
  "checked ctx conf testing_stdlib files c tr evs \<longleftrightarrow>
     has_call (ctx_env ctx) tr evs
       (\<lambda>_ args. \<exists>non_types venv mypypath. args = mypy_command ctx conf files testing_stdlib non_types venv mypypath)
       (\<lambda>p. returncode p \<le> c)"

definition stdlib_checked :: "'v mypy_ctx \<Rightarrow> TestConfig \<Rightarrow> int \<Rightarrow> event list \<Rightarrow> event list \<Rightarrow> bool" where
  "stdlib_checked ctx conf c tr evs \<longleftrightarrow>
     (\<exists>files. stdlib_files (ctx_tree ctx) conf = Inr files \<and> (files = [] \<or> checked ctx conf True files c tr evs))"

definition dist_checked :: "'v mypy_ctx \<Rightarrow> TestConfig \<Rightarrow> string \<Rightarrow> int \<Rightarrow> event list \<Rightarrow> event list \<Rightarrow> bool" where
  "dist_checked ctx conf dist c tr evs \<longleftrightarrow>
     (\<exists>df. add_third_party_files ctx conf dist \<lparr>df_files = [], df_confs = [], df_seen = []\<rparr> = Inr df \<and>
        (df_files df = [] \<or> checked ctx conf False (df_files df) c tr evs))"

definition stubs_checked :: "'v mypy_ctx \<Rightarrow> TestConfig \<Rightarrow> int \<Rightarrow> event list \<Rightarrow> event list \<Rightarrow> bool" where
  "stubs_checked ctx conf c tr evs \<longleftrightarrow>
     (\<exists>dists. distributions_to_check ctx conf = Inr dists \<and> (\<forall>dist \<in> set (dict_keys dists). dist_checked ctx conf dist c tr evs))"

definition typeshed_checked :: "'v mypy_ctx \<Rightarrow> TestConfig \<Rightarrow> int \<Rightarrow> event list \<Rightarrow> event list \<Rightarrow> bool" where
  "typeshed_checked ctx conf c tr evs \<longleftrightarrow>
     (concerns (conf_filter conf) [''stdlib''] \<longrightarrow> stdlib_checked ctx conf c tr evs) \<and>
     (concerns (conf_filter conf) [''stubs''] \<longrightarrow> stubs_checked ctx conf c tr evs)"

lemmas checked_defs = typeshed_checked_def stubs_checked_def dist_checked_def stdlib_checked_def

text \<open>What has been checked remains so when the run goes on and when the status rises.\<close>

definition persistent :: "(int \<Rightarrow> event list \<Rightarrow> event list \<Rightarrow> bool) \<Rightarrow> bool" where
  "persistent Q \<longleftrightarrow>
     (\<forall>c d tr e1 e2. c \<le> d \<longrightarrow> (Q c tr e1 \<longrightarrow> Q d tr (e1 @ e2)) \<and> (Q c (tr @ e1) e2 \<longrightarrow> Q d tr (e1 @ e2)))"

lemma persistentD:
  assumes "persistent Q"
  shows "Q c tr e1 \<Longrightarrow> c \<le> d \<Longrightarrow> Q d tr (e1 @ e2)" "Q c (tr @ e1) e2 \<Longrightarrow> c \<le> d \<Longrightarrow> Q d tr (e1 @ e2)"
  using assms unfolding persistent_def by blast+

lemma persistent_checked: "persistent (checked ctx conf sl files)"
  unfolding persistent_def checked_def by (blast intro: has_call_left has_call_right has_call_le)

lemma persistent_rules:
  "persistent (\<lambda>c tr evs. A)" "persistent Q \<Longrightarrow> persistent R \<Longrightarrow> persistent (\<lambda>c tr evs. Q c tr evs \<and> R c tr evs)"
  "persistent Q \<Longrightarrow> persistent R \<Longrightarrow> persistent (\<lambda>c tr evs. Q c tr evs \<or> R c tr evs)"
  "persistent Q \<Longrightarrow> persistent (\<lambda>c tr evs. A \<longrightarrow> Q c tr evs)"
  "(\<And>x. persistent (P x)) \<Longrightarrow> persistent (\<lambda>c tr evs. \<exists>x. P x c tr evs)"
  "(\<And>x. persistent (P x)) \<Longrightarrow> persistent (\<lambda>c tr evs. \<forall>x \<in> X. P x c tr evs)"
  unfolding persistent_def by meson+

lemma persistent_steps:
  "persistent (stdlib_checked ctx conf)" "persistent (dist_checked ctx conf dist)" "persistent (stubs_checked ctx conf)"
  "persistent (typeshed_checked ctx conf)"
  unfolding checked_defs by (intro persistent_rules persistent_checked)+

subsection \<open>The steps\<close>

lemma run_mypy_ensures:
  "ensures (run_mypy ctx conf confs files sl nt venv mp) (\<lambda>tr c evs. checked ctx conf sl files c tr evs)"
proof -
  have main: "ensures (bind_io (run (ctx_env ctx) (mypy_command ctx conf files sl nt venv mp)) f) (\<lambda>tr c evs. checked ctx conf sl files c tr evs)"
    if "\<And>p. ensures (f p) (\<lambda>tr d evs. d = returncode p)" for f
  proof (rule ensures_bind [OF ensures_run that])
    fix tr p e1 y e2 assume "has_run (ctx_env ctx) tr e1 (mypy_command ctx conf files sl nt venv mp) (\<lambda>q. q = p)" "y = returncode p"
    then show "checked ctx conf sl files y tr (e1 @ e2)"
      unfolding has_run_call checked_def by (intro has_call_left) (erule has_call_mono; blast)
  qed
  show ?thesis
    unfolding run_mypy_def print_success_msg_def
    by (rule ensures_after_emit [OF main], rule ensures_report, (intro emits_rules; simp))
      (blast intro: persistentD(2) [OF persistent_checked])
qed

text \<open>An empty list of files costs nothing: the status of the step is then 0.\<close>

lemma test_third_party_distribution_ensures:
  "ensures (test_third_party_distribution ctx dist conf venv nt) (\<lambda>tr r evs. dist_checked ctx conf dist (exit_code r) tr evs)"
proof -
  let ?P = "\<lambda>df tr r evs. df_files df = [] \<or> checked ctx conf False (df_files df) (exit_code r) tr evs"
  have result: "ensures (bind_io (run_mypy ctx conf (df_confs df) (df_files df) False nt venv mp)
      (\<lambda>code. ret \<lparr>exit_code = code, files_checked = n\<rparr>)) (?P df)" for df mp n
    by (rule ensures_bind [OF run_mypy_ensures ensures_ret_eq]) (auto intro: persistentD(1) [OF persistent_checked])
  have "ensures (if df_files df = [] \<and> conf_filter conf \<noteq> [] then ret \<lparr>exit_code = 0, files_checked = 0\<rparr>
     else
       seq (emit (Print (''testing '' @ dist @ '' ('' @ show_nat (length (df_files df)) @ '' files)... '')))
       (if df_files df = []
        then seq (print_error ''no files found'' ([], [])) (raise (SystemExit 1))
        else
          bind_io (run_mypy ctx conf (df_confs df) (df_files df) False nt venv
            (Some (dist_mypypath ctx (df_seen df)))) (\<lambda>code.
          ret \<lparr>exit_code = code, files_checked = length (df_files df)\<rparr>))) (?P df)" for df
    by (intro ensures_if ensures_after_emit ensures_then_raise result)
      (auto intro: ensures_mono [OF ensures_ret_eq] persistentD(2) [OF persistent_checked])
  then show ?thesis
    unfolding test_third_party_distribution_def dist_checked_def
    by (rule ensures_bind [OF ensures_lift]) (blast intro: persistentD(2) [OF persistent_checked _ order_refl])
qed

interpretation td: effect_loop "test_distributions ctx conf"
    "\<lambda>d acc. bind_io (test_third_party_distribution ctx (fst d) conf (snd d) (python_exe (snd d) \<noteq> ctx_python ctx)) (\<lambda>r.
       ret \<lparr>exit_code = max (exit_code acc) (exit_code r), files_checked = files_checked acc + files_checked r\<rparr>)" for ctx conf
  by unfold_locales (auto simp: bind_io_assoc)

lemma test_distributions_ensures:
  "ensures (test_distributions ctx conf ds acc)
     (\<lambda>tr r evs. exit_code acc \<le> exit_code r \<and> (\<forall>dist \<in> set (dict_keys ds). dist_checked ctx conf dist (exit_code r) tr evs))"
proof -
  have "ensures (test_distributions ctx conf ds acc)
     (\<lambda>tr r evs. exit_code acc \<le> exit_code r \<and> (\<forall>d \<in> set ds. dist_checked ctx conf (fst d) (exit_code r) tr evs))"
    by (rule td.loop_ensures, rule ensures_bind [OF test_third_party_distribution_ensures ensures_ret_eq])
      (auto intro: persistentD [OF persistent_steps(2)])
  then show ?thesis by simp
qed

lemma test_stdlib_ensures:
  "ensures (test_stdlib ctx code conf) (\<lambda>tr r evs. code \<le> exit_code r \<and> stdlib_checked ctx conf (exit_code r) tr evs)"
proof -
  let ?P = "\<lambda>files tr r evs. code \<le> exit_code r \<and> (files = [] \<or> checked ctx conf True files (exit_code r) tr evs)"
  have result: "ensures (bind_io (run_mypy ctx conf [] files True False venv None)
      (\<lambda>this_code. ret \<lparr>exit_code = max code this_code, files_checked = n\<rparr>)) (?P files)" for files venv n
    by (rule ensures_bind [OF run_mypy_ensures ensures_ret_eq]) (auto intro: persistentD(1) [OF persistent_checked])
  have "ensures (if files = [] then ret \<lparr>exit_code = code, files_checked = length files\<rparr>
     else
       seq (emit (Print (''Testing stdlib ('' @ show_nat (length files) @ '' files)...'')))
       (bind_io (run_mypy ctx conf [] files True False \<lparr>pip_exe = [], python_exe = ctx_python ctx\<rparr> None) (\<lambda>this_code.
        ret \<lparr>exit_code = max code this_code, files_checked = length files\<rparr>))) (?P files)" for files
    by (intro ensures_if ensures_after_emit result) (auto intro: ensures_mono [OF ensures_ret_eq] persistentD(2) [OF persistent_checked])
  then show ?thesis
    unfolding test_stdlib_def stdlib_checked_def
    by (rule ensures_bind [OF ensures_lift]) (blast intro: persistentD(2) [OF persistent_checked _ order_refl])
qed

interpretation mv: effect_loop "make_venvs ctx td"
    "\<lambda>r venvs. bind_io (setup_venv_for_external_requirements_set ctx td r) (\<lambda>(requirements_set, v). ret (AList.update requirements_set v venvs))" for ctx td
  by unfold_locales (auto simp: bind_io_assoc split_def)

lemma make_venvs_emits [emits_rules]: "emits (\<lambda>_. True) (make_venvs ctx td rs venvs)"
  by (rule mv.loop_emits) (auto simp: setup_venv_for_external_requirements_set_def make_venv_def intro!: emits_rules)

lemma install_all_emits [emits_rules]: "emits (\<lambda>_. True) (install_all ctx venvs)"
  unfolding install_all_def install_requirements_for_venv_def get_mypy_req_def split_def by (intro emits_rules) (auto intro: emits_ret)

lemma setup_virtual_environments_emits: "emits (\<lambda>_. True) (setup_virtual_environments ctx dists td mapping)"
  unfolding setup_virtual_environments_def split_def Let_def by (intro emits_rules)

lemma test_third_party_stubs_ensures:
  "ensures (test_third_party_stubs ctx code conf td mapping)
     (\<lambda>tr r evs. code \<le> exit_code (fst r) \<and> stubs_checked ctx conf (exit_code (fst r)) tr evs)"
proof -
  let ?P = "\<lambda>dists tr r evs. code \<le> exit_code (fst r) \<and>
      (\<forall>dist \<in> set (dict_keys dists). dist_checked ctx conf dist (exit_code (fst r)) tr evs)"
  note later = persistentD(2) [OF persistent_steps(2) _ order_refl] and earlier = persistentD(1) [OF persistent_steps(2) _ order_refl]
  have tests: "ensures (bind_io (test_distributions ctx conf m \<lparr>exit_code = code, files_checked = 0\<rparr>) (\<lambda>r. ret (r, m))) (?P m)" for m
    by (rule ensures_bind [OF test_distributions_ensures ensures_ret_eq]) (auto intro: earlier)
  have asserted: "ensures (bind_io (lift (assert_res (set (dict_keys m) = set (dict_keys dists)))) (\<lambda>_.
      bind_io (test_distributions ctx conf m \<lparr>exit_code = code, files_checked = 0\<rparr>) (\<lambda>r. ret (r, m)))) (?P dists)" for m dists
    by (rule ensures_bind [OF ensures_lift tests]) (auto simp: assert_res_def simp del: set_map intro: later split: if_splits)
  have mapped: "ensures (bind_io (if mapping = [] then setup_virtual_environments ctx dists td mapping else ret mapping) (\<lambda>m.
      bind_io (lift (assert_res (set (dict_keys m) = set (dict_keys dists)))) (\<lambda>_.
      bind_io (test_distributions ctx conf m \<lparr>exit_code = code, files_checked = 0\<rparr>) (\<lambda>r. ret (r, m))))) (?P dists)" for dists
    by (rule ensures_bind [OF ensures_emits asserted])
      (auto intro: later emits_ret setup_virtual_environments_emits)
  show ?thesis
    unfolding test_third_party_stubs_def stubs_checked_def
    by (rule ensures_after_emit, rule ensures_bind [OF ensures_lift mapped]) (blast intro: later)+
qed

lemma test_typeshed_ensures:
  "ensures (test_typeshed ctx code conf td mapping)
     (\<lambda>tr r evs. code \<le> exit_code (fst r) \<and> typeshed_checked ctx conf (exit_code (fst r)) tr evs)"
proof -
  let ?std = "concerns (conf_filter conf) [''stdlib'']" and ?third = "concerns (conf_filter conf) [''stubs'']"
  let ?P = "\<lambda>tr r evs. code \<le> exit_code r \<and> (?std \<longrightarrow> stdlib_checked ctx conf (exit_code r) tr evs)"
  let ?Q = "\<lambda>code tr r evs. code \<le> exit_code (fst r) \<and> (?third \<longrightarrow> stubs_checked ctx conf (exit_code (fst r)) tr evs)"
  note later = persistentD(2) [OF persistent_steps(3) _ order_refl] and earlier = persistentD(1) [OF persistent_steps(3) _ order_refl]
    and std = persistentD(1) [OF persistent_steps(1)]
  have blank: "ensures (seq (emit (Print [])) (ret x)) (\<lambda>tr y evs. y = x)" for x :: TestResults
    by (rule ensures_report) (simp add: emits_emit)
  have blank_pair: "ensures (case x of (r2, mapping') \<Rightarrow> seq (emit (Print [])) (ret (\<lparr>exit_code = exit_code r2, files_checked = n r2\<rparr>, mapping')))
      (\<lambda>tr y evs. exit_code (fst y) = exit_code (fst x))" for x :: "TestResults \<times> venv_mapping" and n
    by (cases x) (auto intro!: ensures_mono [OF ensures_report] emits_emit)
  have first: "ensures (if ?std then bind_io (test_stdlib ctx code conf) (\<lambda>r. seq (emit (Print [])) (ret r))
      else ret \<lparr>exit_code = code, files_checked = 0\<rparr>) ?P"
    by (rule ensures_if, rule ensures_bind [OF test_stdlib_ensures blank])
      (auto intro: std ensures_mono [OF ensures_ret_eq])
  have second: "ensures (if ?third
      then bind_io (test_third_party_stubs ctx (exit_code r1) conf td mapping) (\<lambda>(r2, mapping').
             seq (emit (Print [])) (ret (\<lparr>exit_code = exit_code r2, files_checked = files_checked r1 + files_checked r2\<rparr>, mapping')))
      else ret (r1, mapping)) (?Q (exit_code r1))" for r1
    by (rule ensures_if, rule ensures_bind [OF test_third_party_stubs_ensures blank_pair])
      (auto intro: earlier ensures_mono [OF ensures_ret_eq])
  show ?thesis
    unfolding test_typeshed_def typeshed_checked_def
    by (rule ensures_after_emit, rule ensures_bind [OF first second])
      (auto intro: later persistentD(2) [OF persistent_steps(1)] std)
qed

lemma test_all_ensures:
  "ensures (test_all ctx config td vps acc mapping)
     (\<lambda>tr r evs. exit_code acc \<le> exit_code r \<and> (\<forall>vp \<in> set vps. typeshed_checked ctx (config vp) (exit_code r) tr evs))"
proof (induction vps arbitrary: acc mapping)
  case (Cons vp vps)
  let ?next = "\<lambda>r. \<lparr>exit_code = exit_code r, files_checked = files_checked acc + files_checked r\<rparr>"
  have rest: "ensures (case x of (r, mapping') \<Rightarrow> test_all ctx config td vps (?next r) mapping')
      (\<lambda>tr r evs. exit_code (fst x) \<le> exit_code r \<and> (\<forall>vp \<in> set vps. typeshed_checked ctx (config vp) (exit_code r) tr evs))" for x
    using Cons.IH [of "?next (fst x)" "snd x"] by (simp add: split_def)
  note later = persistentD(2) [OF persistent_steps(4) _ order_refl] and earlier = persistentD(1) [OF persistent_steps(4)]
  show ?case
    unfolding test_all.simps by (rule ensures_bind [OF test_typeshed_ensures rest]) (auto intro: later earlier)
qed (simp add: ensures_def io_run)

subsection \<open>The whole run\<close>





end
