(* ===== verification/Spec2Isabelle.thy ===== *)
theory Spec2Isabelle
  imports Stubsabot_Main Create_Baseline Runtests Mypy_Test Stubtest Regr_Test Check_New_Syntax
    Type_Checkers Pytype_Test Mypy_Files Mypy_Outcome
begin

text \<open>
  A verification development for the tooling of typeshed: the scripts under \<^verbatim>\<open>src/scripts\<close> that maintain the
  repository of stubs and the programs under \<^verbatim>\<open>src/tests\<close> that check it.

  \<^bold>\<open>The program.\<close> \<^verbatim>\<open>stubsabot.py\<close> compares each distribution under \<^verbatim>\<open>stubs\<close> with its releases on PyPI and, as far as the
  action level allows, commits, pushes and proposes an update or an end-of-life mark.
  \<^verbatim>\<open>create_baseline_stubs.py\<close> generates the first stubs of a project and enters it into
  \<^verbatim>\<open>pyrightconfig.stricter.json\<close>. \<^verbatim>\<open>runtests.py\<close> runs the checks for one directory and reads the same
  configuration. \<^verbatim>\<open>parse_metadata.py\<close> reads \<^verbatim>\<open>METADATA.toml\<close> files and resolves dependencies among distributions
  for all the checks; \<^verbatim>\<open>utils.py\<close> is shared by them. \<^verbatim>\<open>check_consistent.py\<close> checks which files may be where,
  \<^verbatim>\<open>stdlib/VERSIONS\<close> and the requirements; \<^verbatim>\<open>check_new_syntax.py\<close> the form of version checks; \<^verbatim>\<open>mypy_test.py\<close>,
  \<^verbatim>\<open>regr_test.py\<close>, \<^verbatim>\<open>pytype_test.py\<close>, \<^verbatim>\<open>pyright_test.py\<close> and the two \<^verbatim>\<open>stubtest\<close> programs run the checkers on the stubs, and
  \<^verbatim>\<open>typecheck_typeshed.py\<close> runs mypy on the tooling itself.

  \<^bold>\<open>Foundations.\<close>
  \<^item> \<^verbatim>\<open>Py_Prelude\<close>: exceptions as values of a sum type, strings, dictionaries as association lists in insertion
    order (interface \<open>ordered_dict\<close>), and the lemmas on them that every component uses.
  \<^item> \<^verbatim>\<open>Py_Regex\<close>: the fragment of \<^verbatim>\<open>re\<close> the scripts use, as a backtracking engine \<open>runs\<close> with the
    order of matches and the groups of Python, its declarative reading \<open>accepts\<close> and the theorem that they agree.
  \<^item> \<^verbatim>\<open>Py_Path\<close>, \<^verbatim>\<open>Py_Text\<close>: \<^verbatim>\<open>pathlib\<close> paths as lists of parts, directory trees with \<^verbatim>\<open>rglob\<close> and \<^verbatim>\<open>os.walk\<close>, lines, indices.
  \<^item> \<^verbatim>\<open>Py_Json\<close>: \<^verbatim>\<open>json.loads\<close>; its fuel is the length of the text, which is proved to suffice.
  \<^item> \<^verbatim>\<open>External\<close>: \<^verbatim>\<open>packaging\<close> and TOML files as parameters, with one concrete instance for witnesses.
  \<^item> \<^verbatim>\<open>Effects\<close>: commands, requests with their headers, files written and lines printed as a trace of events; the answers come from
    an environment of which nothing is assumed. \<open>emits A m\<close> is the form of the safety properties, \<open>never_raises m\<close> that of
    totality.
  \<^item> \<^verbatim>\<open>Outcomes\<close>: \<open>ensures m Q\<close>, what a program has established when it returns, and \<open>has_run\<close>, that a command was run with a
    certain outcome. \<^verbatim>\<open>Effect_Loops\<close>: the interface \<open>effect_loop\<close> of a loop with effects over a list, interpreted for the
    loops of \<^verbatim>\<open>mypy_test.py\<close> and \<^verbatim>\<open>stubtest_third_party.py\<close>, and its special case \<open>code_loop\<close>, which keeps the greatest return
    code, interpreted for \<^verbatim>\<open>regr_test.py\<close> and \<^verbatim>\<open>typecheck_typeshed.py\<close>.

  \<^bold>\<open>Components\<close> (theory: sources; what is proved).
  \<^item> \<^verbatim>\<open>Stubsabot_Release\<close>, \<^verbatim>\<open>Stubsabot_Diff\<close>, \<^verbatim>\<open>Stubsabot_Git\<close>, \<^verbatim>\<open>Stubsabot_Main\<close>: \<^verbatim>\<open>scripts/stubsabot.py\<close>. Releases in descending
    order, the choice of the wheel, the search for the first typed release, the updated specifier; the tags of two
    releases and the analysis of their diff; the guard of the force push, normalized branch names; the whole run stays
    within its action level and its limit of commits, sends no pull request without the token, restores the branch, and what it writes settles the
    distribution for the next run.
  \<^item> \<^verbatim>\<open>Create_Baseline\<close>: \<^verbatim>\<open>scripts/create_baseline_stubs.py\<close>. The insertion into the exclusion list, the search in the
    output of \<^verbatim>\<open>pip freeze\<close>, existing stubs are kept, the metadata written.
  \<^item> \<^verbatim>\<open>Runtests\<close>: \<^verbatim>\<open>scripts/runtests.py\<close>. Success means that every check that was run passed; comments and trailing
    commas of the configuration.
  \<^item> \<^verbatim>\<open>Test_Utils\<close>, \<^verbatim>\<open>Parse_Metadata\<close>: \<^verbatim>\<open>tests/utils.py\<close>, \<^verbatim>\<open>tests/parse_metadata.py\<close> and the two scripts that print requirements. Which
    metadata is accepted; dependencies split into internal and external; the recursive requirements are the transitive
    closure (interface \<open>dependency_reader\<close>) and are found exactly when no cycle is reachable.
  \<^item> \<^verbatim>\<open>Check_Consistent\<close>: \<^verbatim>\<open>tests/check_consistent.py\<close>. The work list of a directory accepts exactly the trees whose
    reached entries are all acceptable; \<^verbatim>\<open>VERSIONS\<close> against the modules; distribution directories; symbolic links.
  \<^item> \<^verbatim>\<open>Mypy_Test\<close>: \<^verbatim>\<open>tests/mypy_test.py\<close>. Every distribution gets the environment of its requirements, and the
    assertion on the mapping of environments holds in every state of a session (\<open>session\<close>); sections for mypy in
    metadata cannot take effect; return codes of killed processes are lost. \<^verbatim>\<open>Mypy_Files\<close>: which files of \<^verbatim>\<open>stdlib\<close> belong to a
    version. \<^verbatim>\<open>Mypy_Outcome\<close>: after a successful run mypy has been started on every selected file, and no process
    returned a positive code.
  \<^item> \<^verbatim>\<open>Stubtest\<close>: \<^verbatim>\<open>tests/stubtest_third_party.py\<close>, \<^verbatim>\<open>tests/stubtest_stdlib.py\<close>. Shards partition the distributions; result 0
    means that stubtest passed for each that is not excused.
  \<^item> \<^verbatim>\<open>Regr_Test\<close>: \<^verbatim>\<open>tests/regr_test.py\<close>. Which test cases run for a version; what the exit status says of the processes.
  \<^item> \<^verbatim>\<open>Pytype_Test\<close>: \<^verbatim>\<open>tests/pytype_test.py\<close>. The outcome of a run in every case; names relative to the root.
  \<^item> \<^verbatim>\<open>Type_Checkers\<close>: \<^verbatim>\<open>tests/typecheck_typeshed.py\<close>, \<^verbatim>\<open>tests/pyright_test.py\<close>. A run always ends with the greatest return
    code of the processes it started, or 0.
  \<^item> \<^verbatim>\<open>Check_New_Syntax\<close>: \<^verbatim>\<open>tests/check_new_syntax.py\<close>. Which statements are reported.
  This theory holds what spans components: an insertion by \<^verbatim>\<open>create_baseline_stubs.py\<close> that \<^verbatim>\<open>runtests.py\<close> cannot read, and
  that a \<^verbatim>\<open>stdlib\<close> accepted by \<^verbatim>\<open>check_consistent.py\<close> can be tested by \<^verbatim>\<open>mypy_test.py\<close>.

  \<^bold>\<open>Bounds.\<close> Loops over finite data are structural or have a measure. \<^verbatim>\<open>get_recursive_requirements\<close> has the depth
  that Python's recursion limit leaves as an argument; more than the number of distributions is enough unless there is a
  cycle. Concurrency appears as the order in which tasks complete, an argument.

  \<^bold>\<open>Not modelled.\<close> Argument parsing, colours and messages for verbose modes; the download and unpacking of archives, of
  which the names of the members are a parameter; \<^verbatim>\<open>KeyboardInterrupt\<close>; characters beyond Latin-1. The stub files and the test cases of type checkers, Python files included, are
  data that is never executed: what they say is for the type checkers, and the tooling only reads their names, places and version
  checks. The shell scripts only call generators. With this every Python program of the repository has its model.
\<close>


text \<open>C29: If \<^verbatim>\<open>check_consistent.py\<close> accepts the files and the \<^verbatim>\<open>VERSIONS\<close> of \<^verbatim>\<open>stdlib\<close>, no top-level entry is ignored by git,
  every package contains a stub file and \<^verbatim>\<open>VERSIONS\<close> has no control characters that end a line for \<^verbatim>\<open>splitlines\<close> but not for a
  loop over the file, then \<^verbatim>\<open>mypy_test.py\<close> can select the files of \<^verbatim>\<open>stdlib\<close> for every version:
  no line of \<^verbatim>\<open>VERSIONS\<close> fails to parse and no module lacks its range.\<close>

theorem consistent_stdlib_testable:
  assumes "fs_wf t" and versions: "fs_lookup t [''stdlib'', ''VERSIONS''] = Some (File l s)"
    and "check_stdlib spec t = Inr ()" "check_versions t = Inr ()"
    and ignored: "\<And>name c. fs_lookup t [''stdlib'', name] = Some c \<Longrightarrow> \<not> matches_node spec [''stdlib'', name] c"
    and stubs: "\<And>name c. fs_lookup t [''stdlib'', name] = Some c \<Longrightarrow> is_dir_node c \<Longrightarrow>
      \<exists>q f. fs_is_file t (''stdlib'' # name # q @ [f]) \<and> ends_with f ''.pyi''"
    and plain: "\<not> list_ex ends_line s"
    and v: "version_tuple (conf_version conf) = Inr v"
  shows "\<exists>files. stdlib_files t conf = Inr files"
proof -
  obtain d where d: "fs_lookup t [''stdlib''] = Some d" "fs_lookup d [''VERSIONS''] = Some (File l s)"
    using versions fs_lookup_append [of t "[''stdlib'']" "[''VERSIONS'']"] by (auto split: option.splits)
  obtain es where es: "fs_lookup t [''stdlib''] = Some (Dir es)" using d by (cases d) auto
  have top: "fs_lookup t [''stdlib'', name] = map_of es name" for name
    using fs_lookup_append [of t "[''stdlib'']" "[name]"] es by (simp split: option.splits)
  obtain names where names: "list_all2 version_entry (filter (\<lambda>l. l \<noteq> []) (map strip_comments (str_splitlines (unify_newlines s)))) names"
    and mods: "\<forall>m \<in> {m. \<exists>q f. fs_is_file t (''stdlib'' # q @ [f]) \<and> module_of_file (''stdlib'' # q) f = Some m}. hd (split_on CHR ''.'' m) \<in> set names"
    using if_Inr_D [OF versions_result [OF versions assms(1) refl] assms(4)] by (elim exE conjE)
  obtain ranges where ranges: "parse_versions (unify_newlines s) = Inr ranges" "set (dict_keys ranges) = set names"
    using parse_versions_fold [OF names [unfolded str_splitlines_unify [OF plain], folded version_lines], of "[]"] by (auto simp: parse_versions_def)
  have "\<exists>files'. add_stdlib_module t conf ranges name files = Inr files'" if "name \<in> set (map fst es)" for name files
  proof (cases "name = ''VERSIONS'' \<or> starts_with name ''.''")
    case False
    obtain c where c: "map_of es name = Some c" using \<open>name \<in> set (map fst es)\<close> by (metis map_of_eq_None_iff not_Some_eq set_map)
    have "path_stem [name] \<in> set names"
    proof (rule stem_listed [OF assms(3,1) es c])
      show "\<not> matches_node spec [''stdlib'', name] c" "name \<noteq> ''VERSIONS''" using ignored top c False by simp_all
      show "\<exists>q f. fs_is_file t (''stdlib'' # name # q @ [f]) \<and> ends_with f ''.pyi''" if "is_dir_node c"
        using stubs [of name c] top c that by simp
      show "hd (split_on CHR ''.'' m) \<in> set names"
        if "fs_is_file t (''stdlib'' # q @ [f])" "module_of_file (''stdlib'' # q) f = Some m" for q f m
        by (rule bspec [OF mods]) (use that in blast)
      show "[] \<notin> set names" using list_all2_name [OF names] by blast
    qed
    then obtain r where "map_of ranges (path_stem [name]) = Some r" using ranges(2) by (metis map_of_eq_None_iff not_Some_eq set_map)
    with False v show ?thesis by (cases r) (simp add: add_stdlib_module_def dict_item_def)
  qed (simp add: add_stdlib_module_def)
  then obtain files where "fold_res (add_stdlib_module t conf ranges) (map fst es) [] = Inr files"
    using fold_res_total [of "map fst es" "add_stdlib_module t conf ranges" "[]"] by blast
  then show ?thesis
    unfolding stdlib_files_def versions es listdir_def by (simp add: ranges(1) del: fs_lookup.simps)
qed

theorem consistent_stdlib_testable_witness:
  "(\<exists>files. stdlib_files ex_mypy_tree ex_conf = Inr files) \<and>
   stdlib_files ex_mypy_tree ex_conf = Inr [[''stdlib'', ''os'', ''__init__.pyi'']]"
proof (intro conjI)
  let ?s = "''os: 2.7-'' @ nl @ ''asyncore: 2.7-3.8'' @ nl"
  let ?es = "[(''VERSIONS'', File False ?s), (''os'', Dir [(''__init__.pyi'', File False [])]), (''asyncore.pyi'', File False [])]"
  have std: "fs_lookup ex_mypy_tree [''stdlib''] = Some (Dir ?es)" by code_simp
  have top: "fs_lookup ex_mypy_tree [''stdlib'', name] = map_of ?es name" for name
    using fs_lookup_append [of ex_mypy_tree "[''stdlib'']" "[name]"] unfolding std by (simp split: option.splits)
  show "\<exists>files. stdlib_files ex_mypy_tree ex_conf = Inr files"
  proof (rule consistent_stdlib_testable)
    show "fs_wf ex_mypy_tree" "fs_lookup ex_mypy_tree [''stdlib'', ''VERSIONS''] = Some (File False ?s)"
      "check_stdlib (\<lambda>_. False) ex_mypy_tree = Inr ()" "check_versions ex_mypy_tree = Inr ()"
      "version_tuple (conf_version ex_conf) = Inr [3, 11]" "\<not> list_ex ends_line ?s" by code_simp+
    show "\<not> matches_node (\<lambda>_. False) [''stdlib'', name] c" for name c by (simp add: matches_node_def)
    show "\<exists>q f. fs_is_file ex_mypy_tree (''stdlib'' # name # q @ [f]) \<and> ends_with f ''.pyi''"
      if "fs_lookup ex_mypy_tree [''stdlib'', name] = Some c" "is_dir_node c" for name c
    proof -
      have "name = ''os''" using that unfolding top by (auto split: if_splits)
      moreover have "fs_is_file ex_mypy_tree (''stdlib'' # ''os'' # [] @ [''__init__.pyi''])" "ends_with ''__init__.pyi'' ''.pyi''" by code_simp+
      ultimately show ?thesis by blast
    qed
  qed
  show "stdlib_files ex_mypy_tree ex_conf = Inr [[''stdlib'', ''os'', ''__init__.pyi'']]" by code_simp
qed

end
